(* ===== verification/Agentmon_Prelude.thy ===== *)
theory Agentmon_Prelude
  imports Main "HOL-Library.Word" "HOL-Library.Multiset" "HOL-Library.Sublist"
begin

text \<open>
  Shared material of the agentmon development: the fragment of the Go language and of its
  standard library that several components use, the generic loops of the code base as
  locales, and the lemmas about them.

  \<^item> \<open>slice_stable\<close> models \<open>sort.SliceStable\<close>: a stable sort by a comparison function.
  \<^item> \<open>map_lookup\<close> models \<open>v, ok := m[k]\<close> on a Go map literal; \<open>map_find\<close> models the loop
    \<open>for k, v := range m { if p(v) { return k, true } }\<close>.
  \<^item> The locale \<open>worst_scan\<close> is the contract of the loops that keep the most restrictive
    element seen so far and replace it only when a strictly more restrictive one comes
    (\<open>foldEffects\<close>, \<open>EvaluateConnection\<close> and \<open>Fold\<close> are its instances).
\<close>

named_theorems go_defs \<open>definitions of modelled Go helpers, unfolded by the component proofs\<close>

type_synonym byte = "8 word"


section \<open>Go strings\<close>

text \<open>Strings are byte sequences; \<open>''''\<close> is Go's empty string, the zero value of its type.\<close>

definition HasPrefix :: "string \<Rightarrow> string \<Rightarrow> bool" where
  "HasPrefix s p \<longleftrightarrow> take (length p) s = p"

definition TrimPrefix :: "string \<Rightarrow> string \<Rightarrow> string" where
  "TrimPrefix s p = (if HasPrefix s p then drop (length p) s else s)"

text \<open>\<open>strings.Split s sep\<close> for a separator of one byte.\<close>

fun split_byte :: "char \<Rightarrow> string \<Rightarrow> string list" where
  "split_byte c [] = [[]]"
| "split_byte c (x # xs) =
     (if x = c then [] # split_byte c xs
      else (case split_byte c xs of [] \<Rightarrow> [[x]] | p # ps \<Rightarrow> (x # p) # ps))"

text \<open>
  \<open>strings.TrimSpace s == ""\<close>: the string is a sequence of the code points that
  \<open>unicode.IsSpace\<close> accepts, in UTF-8: the six ASCII ones, U+0085 and U+00A0 (two bytes), and
  U+1680, U+2000 to U+200A, U+2028, U+2029, U+202F, U+205F and U+3000 (three bytes).
\<close>

definition space1 :: "char \<Rightarrow> bool" where
  "space1 c \<longleftrightarrow> of_char c \<in> {9, 10, 11, 12, 13, 32 :: nat}"

definition space2 :: "char \<Rightarrow> char \<Rightarrow> bool" where
  "space2 a b \<longleftrightarrow> a = CHR 0xC2 \<and> b \<in> {CHR 0x85, CHR 0xA0}"

definition space3 :: "char \<Rightarrow> char \<Rightarrow> char \<Rightarrow> bool" where
  "space3 a b c \<longleftrightarrow>
     (a = CHR 0xE1 \<and> b = CHR 0x9A \<and> c = CHR 0x80) \<or>
     (a = CHR 0xE2 \<and> b = CHR 0x80 \<and>
        (of_char c \<in> {128 .. 138 :: nat} \<or> c \<in> {CHR 0xA8, CHR 0xA9, CHR 0xAF})) \<or>
     (a = CHR 0xE2 \<and> b = CHR 0x81 \<and> c = CHR 0x9F) \<or>
     (a = CHR 0xE3 \<and> b = CHR 0x80 \<and> c = CHR 0x80)"

fun blank :: "string \<Rightarrow> bool" where
  "blank [] = True"
| "blank [a] = space1 a"
| "blank [a, b] = ((space1 a \<and> space1 b) \<or> space2 a b)"
| "blank (a # b # c # s) =
     (if space1 a then blank (b # c # s)
      else if space2 a b then blank (c # s)
      else if space3 a b c then blank s
      else False)"

lemma HasPrefix_iff_prefix: "HasPrefix s p \<longleftrightarrow> prefix p s"
  unfolding HasPrefix_def by (metis append_eq_conv_conj prefix_def)

lemma HasPrefix_append [simp]: "HasPrefix (p @ s) p"
  by (simp add: HasPrefix_def)

lemma TrimPrefix_append [simp]: "TrimPrefix (p @ s) p = s"
  by (simp add: TrimPrefix_def)

lemma split_byte_not_Nil [simp]: "split_byte c s \<noteq> []"
  by (induction s) (auto split: list.splits)

lemma split_byte_no_sep: "c \<notin> set s \<Longrightarrow> split_byte c s = [s]"
  by (induction s) auto

lemma split_byte_append:
  "c \<notin> set a \<Longrightarrow> split_byte c (a @ c # b) = a # split_byte c b"
  by (induction a) auto

lemma split_byte_parts: "p \<in> set (split_byte c s) \<Longrightarrow> c \<notin> set p"
proof (induction s arbitrary: p)
  case Nil
  then show ?case by simp
next
  case (Cons x xs)
  obtain q qs where qs: "split_byte c xs = q # qs"
    by (cases "split_byte c xs") auto
  with Cons show ?case by (auto split: if_splits)
qed


section \<open>Go maps and slices\<close>

definition map_lookup :: "('k \<times> 'v) list \<Rightarrow> 'k \<Rightarrow> 'v option" where
  "map_lookup t k = map_of t k"

definition map_find :: "('k \<times> 'v) list \<Rightarrow> ('v \<Rightarrow> bool) \<Rightarrow> 'k option" where
  "map_find t p = map_option fst (find (\<lambda>e. p (snd e)) t)"

text \<open>
  A \<open>range\<close> over a Go map visits the entries in an unspecified order. When at most one entry
  satisfies the predicate the result does not depend on it.
\<close>

lemma map_find_Some_iff:
  assumes "\<And>e e'. e \<in> set t \<Longrightarrow> e' \<in> set t \<Longrightarrow> p (snd e) \<Longrightarrow> p (snd e') \<Longrightarrow> e = e'"
  shows "map_find t p = Some k \<longleftrightarrow> (\<exists>v. (k, v) \<in> set t \<and> p v)"
proof
  assume "map_find t p = Some k"
  then obtain e where "find (\<lambda>e. p (snd e)) t = Some e" "k = fst e"
    by (auto simp: map_find_def)
  then have "e \<in> set t" "p (snd e)"
    by (auto simp: find_Some_iff)
  with \<open>k = fst e\<close> show "\<exists>v. (k, v) \<in> set t \<and> p v"
    by (intro exI [of _ "snd e"]) simp
next
  assume "\<exists>v. (k, v) \<in> set t \<and> p v"
  then obtain v where kv: "(k, v) \<in> set t" "p v" by blast
  then have "find (\<lambda>e. p (snd e)) t \<noteq> None"
    by (auto simp: find_None_iff)
  then obtain e where e: "find (\<lambda>e. p (snd e)) t = Some e" by blast
  then have "e \<in> set t" "p (snd e)" by (auto simp: find_Some_iff)
  with kv assms [of e "(k, v)"] have "e = (k, v)" by simp
  with e show "map_find t p = Some k" by (simp add: map_find_def)
qed

lemma map_find_order:
  assumes "\<And>e e'. e \<in> set t \<Longrightarrow> e' \<in> set t \<Longrightarrow> p (snd e) \<Longrightarrow> p (snd e') \<Longrightarrow> e = e'"
    and "set t' = set t"
  shows "map_find t' p = map_find t p"
proof -
  have "map_find t' p = Some k \<longleftrightarrow> map_find t p = Some k" for k
    using map_find_Some_iff [of t p k] map_find_Some_iff [of t' p k] assms by auto
  then show ?thesis by (metis not_Some_eq)
qed

lemma map_find_None_iff: "map_find t p = None \<longleftrightarrow> (\<forall>e \<in> set t. \<not> p (snd e))"
  by (auto simp: map_find_def find_None_iff)

lemma distinct_map_inj:
  "distinct (map f xs) \<Longrightarrow> x \<in> set xs \<Longrightarrow> y \<in> set xs \<Longrightarrow> f x = f y \<Longrightarrow> x = y"
  by (meson distinct_map inj_on_def)


section \<open>Fallible code\<close>

text \<open>
  \<open>v, err := f(); if err != nil { return err }\<close> is \<open>bindE\<close>; \<open>traverse\<close> is the loop that builds
  a slice and returns at the first error.
\<close>

definition bindE :: "'e + 'a \<Rightarrow> ('a \<Rightarrow> 'e + 'b) \<Rightarrow> 'e + 'b" where
  "bindE m f = (case m of Inl e \<Rightarrow> Inl e | Inr a \<Rightarrow> f a)"

fun traverse :: "('a \<Rightarrow> 'e + 'b) \<Rightarrow> 'a list \<Rightarrow> 'e + 'b list" where
  "traverse f [] = Inr []"
| "traverse f (x # xs) = bindE (f x) (\<lambda>y. bindE (traverse f xs) (\<lambda>ys. Inr (y # ys)))"

lemma bindE_simps [simp]: "bindE (Inl e) f = Inl e" "bindE (Inr a) f = f a"
  by (simp_all add: bindE_def)

lemma bindE_Inr_iff: "bindE m f = Inr b \<longleftrightarrow> (\<exists>a. m = Inr a \<and> f a = Inr b)"
  by (cases m) simp_all

lemma bindE_Inl_iff: "bindE m f = Inl e \<longleftrightarrow> m = Inl e \<or> (\<exists>a. m = Inr a \<and> f a = Inl e)"
  by (cases m) simp_all

lemma option_to_sum [simp]:
  "(case x of None \<Rightarrow> Inl e | Some y \<Rightarrow> Inr y) = Inr z \<longleftrightarrow> x = Some z"
  "(case x of None \<Rightarrow> Inl e | Some y \<Rightarrow> Inr y) = Inl e' \<longleftrightarrow> x = None \<and> e' = e"
  by (auto split: option.split)

lemma traverse_Inr_iff: "traverse f xs = Inr ys \<longleftrightarrow> list_all2 (\<lambda>x y. f x = Inr y) xs ys"
  by (induction xs arbitrary: ys) (auto simp: bindE_Inr_iff list_all2_Cons1)

lemma traverse_Inl: "traverse f xs = Inl e \<Longrightarrow> \<exists>x \<in> set xs. f x = Inl e"
  by (induction xs) (auto simp: bindE_Inl_iff)

lemma traverse_total: "(\<And>x. x \<in> set xs \<Longrightarrow> \<exists>y. f x = Inr y) \<Longrightarrow> \<exists>ys. traverse f xs = Inr ys"
  by (metis old.sum.exhaust traverse_Inl Inl_Inr_False)


section \<open>sort.SliceStable\<close>

fun insert_stable :: "('a \<Rightarrow> 'a \<Rightarrow> bool) \<Rightarrow> 'a \<Rightarrow> 'a list \<Rightarrow> 'a list" where
  "insert_stable lt x [] = [x]"
| "insert_stable lt x (y # ys) = (if lt y x then y # insert_stable lt x ys else x # y # ys)"

definition slice_stable :: "('a \<Rightarrow> 'a \<Rightarrow> bool) \<Rightarrow> 'a list \<Rightarrow> 'a list" where
  "slice_stable lt xs = foldr (insert_stable lt) xs []"

text \<open>
  When the comparison function compares keys of a linear order, the sort is the library's
  stable \<open>sort_key\<close>; this carries permutation, sortedness and stability over.
\<close>

lemma slice_stable_sort_key:
  assumes "\<And>a b. lt a b \<longleftrightarrow> (k a < (k b :: 'b::linorder))"
  shows "slice_stable lt xs = sort_key k xs"
proof -
  have "insert_stable lt x ys = insort_key k x ys" for x ys
    by (induction ys) (auto simp: assms)
  then have "insert_stable lt = insort_key k" by (intro ext)
  then show ?thesis by (simp add: slice_stable_def sort_key_def)
qed


section \<open>The most-restrictive scan\<close>

text \<open>
  \<^verbatim>\<open>best := xs[0]; for _, x := range xs[1:] { if rank(x) > rank(best) { best = x } }\<close>
\<close>

locale worst_scan =
  fixes rank :: "'a \<Rightarrow> 'r::linorder"
    and scan :: "'a \<Rightarrow> 'a list \<Rightarrow> 'a"
  assumes scan_Nil: "scan b [] = b"
    and scan_Cons: "scan b (x # xs) = scan (if rank b < rank x then x else b) xs"
begin

lemma scan_mem: "scan b xs \<in> set (b # xs)"
  by (induction xs arbitrary: b) (auto simp: scan_Nil scan_Cons)

lemma scan_ge_start: "rank b \<le> rank (scan b xs)"
proof (induction xs arbitrary: b)
  case (Cons x xs)
  have "rank b \<le> rank (if rank b < rank x then x else b)" by auto
  also have "\<dots> \<le> rank (scan b (x # xs))" unfolding scan_Cons by (rule Cons.IH)
  finally show ?case .
qed (simp add: scan_Nil)

lemma scan_max: "x \<in> set (b # xs) \<Longrightarrow> rank x \<le> rank (scan b xs)"
proof (induction xs arbitrary: b x)
  case Nil
  then show ?case by (simp add: scan_Nil)
next
  case (Cons y ys)
  let ?b = "if rank b < rank y then y else b"
  have "rank b \<le> rank ?b" "rank y \<le> rank ?b" by auto
  moreover have "rank ?b \<le> rank (scan ?b ys)" by (rule scan_ge_start)
  moreover have "x \<in> set ys \<Longrightarrow> rank x \<le> rank (scan ?b ys)" by (rule Cons.IH) simp
  ultimately show ?case using Cons.prems unfolding scan_Cons by fastforce
qed

lemma scan_first:
  "\<exists>ys zs. b # xs = ys @ scan b xs # zs \<and> (\<forall>y \<in> set ys. rank y < rank (scan b xs))"
proof (induction xs arbitrary: b)
  case Nil
  show ?case by (rule exI [of _ "[]"]) (simp add: scan_Nil)
next
  case (Cons x xs)
  show ?case
  proof (cases "rank b < rank x")
    case True
    then have eq: "scan b (x # xs) = scan x xs" by (simp add: scan_Cons)
    from Cons [of x] obtain ys zs
      where *: "x # xs = ys @ scan x xs # zs" "\<forall>y \<in> set ys. rank y < rank (scan x xs)" by blast
    have "rank b < rank (scan x xs)" using True scan_ge_start [of x xs] by (rule less_le_trans)
    with * have "b # x # xs = (b # ys) @ scan x xs # zs"
        "\<forall>y \<in> set (b # ys). rank y < rank (scan x xs)" by (simp, auto)
    then show ?thesis unfolding eq by blast
  next
    case False
    then have eq: "scan b (x # xs) = scan b xs" by (simp add: scan_Cons)
    from Cons [of b] obtain ys zs
      where *: "b # xs = ys @ scan b xs # zs" "\<forall>y \<in> set ys. rank y < rank (scan b xs)" by blast
    show ?thesis
    proof (cases ys)
      case Nil
      with * have "b # x # xs = [] @ scan b xs # x # xs" by auto
      then show ?thesis unfolding eq by fastforce
    next
      case (Cons y ys')
      with * have "b # x # xs = (b # x # ys') @ scan b xs # zs" "rank b < rank (scan b xs)" by auto
      moreover have "rank x < rank (scan b xs)"
        using \<open>rank b < rank (scan b xs)\<close> False by auto
      ultimately have "b # x # xs = (b # x # ys') @ scan b xs # zs"
          "\<forall>y \<in> set (b # x # ys'). rank y < rank (scan b xs)" using * Cons by auto
      then show ?thesis unfolding eq by blast
    qed
  qed
qed

lemma scan_unique_max:
  assumes "x \<in> set (b # xs)" and "\<And>y. y \<in> set (b # xs) \<Longrightarrow> y \<noteq> x \<Longrightarrow> rank y < rank x"
  shows "scan b xs = x"
  using scan_mem [of b xs] scan_max [OF assms(1)] assms(2) by (meson leD)

end

end
