(* ===== verification/Db_Effects.thy ===== *)
theory Db_Effects
  imports Agentmon_Prelude
begin

text \<open>
  The effect taxonomy of the database proxy, \<open>src/internal/db/effects\<close>: operation groups and
  their risk tiers, subtypes, object references and their JSON form, resolution tags, alias
  expansion, canonical effect order and the classified statement that the policy evaluator
  consumes.

  Go enumerations are datatypes with the source's constants; \<open>GroupZero\<close> and
  \<open>ObjectKindZero\<close> are the zero value of a type whose constants start at 1. \<open>Subtype\<close> keeps
  its Go representation, an 8-bit integer, with one abbreviation per constant.
\<close>


section \<open>Risk tiers (risk\_tier.go)\<close>

datatype RiskTier = Safe | Low | Medium | High | Critical

fun tier_val :: "RiskTier \<Rightarrow> nat" where
  "tier_val Safe = 0"
| "tier_val Low = 1"
| "tier_val Medium = 2"
| "tier_val High = 3"
| "tier_val Critical = 4"

fun RiskTier_String :: "RiskTier \<Rightarrow> string" where
  "RiskTier_String Safe = ''safe''"
| "RiskTier_String Low = ''low''"
| "RiskTier_String Medium = ''medium''"
| "RiskTier_String High = ''high''"
| "RiskTier_String Critical = ''critical''"

definition RiskTier_Compare :: "RiskTier \<Rightarrow> RiskTier \<Rightarrow> int" where
  "RiskTier_Compare t other = int (tier_val t) - int (tier_val other)"

instantiation RiskTier :: linorder
begin

definition less_eq_RiskTier :: "RiskTier \<Rightarrow> RiskTier \<Rightarrow> bool" where
  "less_eq_RiskTier t u \<longleftrightarrow> tier_val t \<le> tier_val u"

definition less_RiskTier :: "RiskTier \<Rightarrow> RiskTier \<Rightarrow> bool" where
  "less_RiskTier t u \<longleftrightarrow> tier_val t < tier_val u"

instance
proof
  fix t u :: RiskTier
  show "t \<le> u \<Longrightarrow> u \<le> t \<Longrightarrow> t = u"
    by (cases t; cases u) (simp_all add: less_eq_RiskTier_def)
qed (auto simp: less_eq_RiskTier_def less_RiskTier_def)

end


section \<open>Operation groups (group.go)\<close>

datatype Group =
    GroupZero
  | GroupRead
  | GroupWrite
  | GroupModify
  | GroupDelete
  | GroupBulkLoad
  | GroupBulkExport
  | GroupSchemaCreate
  | GroupSchemaAlter
  | GroupSchemaDestroy
  | GroupPrivilege
  | GroupTransaction
  | GroupSession
  | GroupMaintenance
  | GroupLock
  | GroupNotify
  | GroupProcedural
  | GroupUnsafeIO
  | GroupUnknown

record groupInfo =
  gi_name :: string
  gi_tier :: RiskTier

definition groupTable :: "(Group \<times> groupInfo) list" where
  "groupTable =
    [(GroupRead, \<lparr>gi_name = ''read'', gi_tier = Low\<rparr>),
     (GroupWrite, \<lparr>gi_name = ''write'', gi_tier = Medium\<rparr>),
     (GroupModify, \<lparr>gi_name = ''modify'', gi_tier = Medium\<rparr>),
     (GroupDelete, \<lparr>gi_name = ''delete'', gi_tier = High\<rparr>),
     (GroupBulkLoad, \<lparr>gi_name = ''bulk_load'', gi_tier = High\<rparr>),
     (GroupBulkExport, \<lparr>gi_name = ''bulk_export'', gi_tier = Critical\<rparr>),
     (GroupSchemaCreate, \<lparr>gi_name = ''schema_create'', gi_tier = High\<rparr>),
     (GroupSchemaAlter, \<lparr>gi_name = ''schema_alter'', gi_tier = High\<rparr>),
     (GroupSchemaDestroy, \<lparr>gi_name = ''schema_destroy'', gi_tier = Critical\<rparr>),
     (GroupPrivilege, \<lparr>gi_name = ''privilege'', gi_tier = Critical\<rparr>),
     (GroupTransaction, \<lparr>gi_name = ''transaction'', gi_tier = Low\<rparr>),
     (GroupSession, \<lparr>gi_name = ''session'', gi_tier = Low\<rparr>),
     (GroupMaintenance, \<lparr>gi_name = ''maintenance'', gi_tier = Medium\<rparr>),
     (GroupLock, \<lparr>gi_name = ''lock'', gi_tier = Medium\<rparr>),
     (GroupNotify, \<lparr>gi_name = ''notify'', gi_tier = Low\<rparr>),
     (GroupProcedural, \<lparr>gi_name = ''procedural'', gi_tier = High\<rparr>),
     (GroupUnsafeIO, \<lparr>gi_name = ''unsafe_io'', gi_tier = Critical\<rparr>),
     (GroupUnknown, \<lparr>gi_name = ''unknown'', gi_tier = Critical\<rparr>)]"

definition Group_String :: "Group \<Rightarrow> string" where
  "Group_String g =
     (case map_lookup groupTable g of Some info \<Rightarrow> gi_name info | None \<Rightarrow> ''unknown'')"

definition Group_RiskTier :: "Group \<Rightarrow> RiskTier" where
  "Group_RiskTier g =
     (case map_lookup groupTable g of Some info \<Rightarrow> gi_tier info | None \<Rightarrow> Critical)"

fun Group_ID :: "Group \<Rightarrow> byte" where
  "Group_ID GroupZero = 0"
| "Group_ID GroupRead = 1"
| "Group_ID GroupWrite = 2"
| "Group_ID GroupModify = 3"
| "Group_ID GroupDelete = 4"
| "Group_ID GroupBulkLoad = 5"
| "Group_ID GroupBulkExport = 6"
| "Group_ID GroupSchemaCreate = 7"
| "Group_ID GroupSchemaAlter = 8"
| "Group_ID GroupSchemaDestroy = 9"
| "Group_ID GroupPrivilege = 10"
| "Group_ID GroupTransaction = 11"
| "Group_ID GroupSession = 12"
| "Group_ID GroupMaintenance = 13"
| "Group_ID GroupLock = 14"
| "Group_ID GroupNotify = 15"
| "Group_ID GroupProcedural = 16"
| "Group_ID GroupUnsafeIO = 17"
| "Group_ID GroupUnknown = 18"

definition ParseGroup :: "string \<Rightarrow> Group option" where
  "ParseGroup name = map_find groupTable (\<lambda>info. gi_name info = name)"


section \<open>Subtypes (subtype.go)\<close>

type_synonym Subtype = "8 word"

abbreviation SubtypeNone :: Subtype where "SubtypeNone \<equiv> 0"
abbreviation SubtypeSet :: Subtype where "SubtypeSet \<equiv> 1"
abbreviation SubtypeSetSearchPath :: Subtype where "SubtypeSetSearchPath \<equiv> 2"
abbreviation SubtypeSetRole :: Subtype where "SubtypeSetRole \<equiv> 3"
abbreviation SubtypeSetSessionAuthorization :: Subtype where "SubtypeSetSessionAuthorization \<equiv> 4"
abbreviation SubtypeSetLocal :: Subtype where "SubtypeSetLocal \<equiv> 5"
abbreviation SubtypeReset :: Subtype where "SubtypeReset \<equiv> 6"
abbreviation SubtypeResetAll :: Subtype where "SubtypeResetAll \<equiv> 7"
abbreviation SubtypeDiscard :: Subtype where "SubtypeDiscard \<equiv> 8"
abbreviation SubtypeDiscardAll :: Subtype where "SubtypeDiscardAll \<equiv> 9"
abbreviation SubtypeDiscardTemp :: Subtype where "SubtypeDiscardTemp \<equiv> 10"
abbreviation SubtypeDiscardPlans :: Subtype where "SubtypeDiscardPlans \<equiv> 11"
abbreviation SubtypeDiscardSequences :: Subtype where "SubtypeDiscardSequences \<equiv> 12"
abbreviation SubtypeCancelRequest :: Subtype where "SubtypeCancelRequest \<equiv> 13"
abbreviation SubtypeCreateTable :: Subtype where "SubtypeCreateTable \<equiv> 14"
abbreviation SubtypeCreateIndex :: Subtype where "SubtypeCreateIndex \<equiv> 15"
abbreviation SubtypeCreateView :: Subtype where "SubtypeCreateView \<equiv> 16"
abbreviation SubtypeCreateSchema :: Subtype where "SubtypeCreateSchema \<equiv> 17"
abbreviation SubtypeCreateFunction :: Subtype where "SubtypeCreateFunction \<equiv> 18"
abbreviation SubtypeCreateMaterializedView :: Subtype where "SubtypeCreateMaterializedView \<equiv> 19"
abbreviation SubtypeCreateExtension :: Subtype where "SubtypeCreateExtension \<equiv> 20"
abbreviation SubtypeCreateDatabase :: Subtype where "SubtypeCreateDatabase \<equiv> 21"
abbreviation SubtypeCreatePublication :: Subtype where "SubtypeCreatePublication \<equiv> 22"
abbreviation SubtypeAlterPublication :: Subtype where "SubtypeAlterPublication \<equiv> 23"
abbreviation SubtypeDropTable :: Subtype where "SubtypeDropTable \<equiv> 24"
abbreviation SubtypeDropDatabase :: Subtype where "SubtypeDropDatabase \<equiv> 25"
abbreviation SubtypeDropSchema :: Subtype where "SubtypeDropSchema \<equiv> 26"
abbreviation SubtypeDropIndex :: Subtype where "SubtypeDropIndex \<equiv> 27"
abbreviation SubtypeDropView :: Subtype where "SubtypeDropView \<equiv> 28"
abbreviation SubtypeDropFunction :: Subtype where "SubtypeDropFunction \<equiv> 29"
abbreviation SubtypeDropPublication :: Subtype where "SubtypeDropPublication \<equiv> 30"
abbreviation SubtypeTruncate :: Subtype where "SubtypeTruncate \<equiv> 31"
abbreviation SubtypeGrant :: Subtype where "SubtypeGrant \<equiv> 32"
abbreviation SubtypeRevoke :: Subtype where "SubtypeRevoke \<equiv> 33"
abbreviation SubtypeAlterRole :: Subtype where "SubtypeAlterRole \<equiv> 34"
abbreviation SubtypeCreateRole :: Subtype where "SubtypeCreateRole \<equiv> 35"
abbreviation SubtypeDropRole :: Subtype where "SubtypeDropRole \<equiv> 36"
abbreviation SubtypeAlterSystem :: Subtype where "SubtypeAlterSystem \<equiv> 37"
abbreviation SubtypeSecurityLabel :: Subtype where "SubtypeSecurityLabel \<equiv> 38"
abbreviation SubtypeCopyFromStdin :: Subtype where "SubtypeCopyFromStdin \<equiv> 39"
abbreviation SubtypeCopyFromS3 :: Subtype where "SubtypeCopyFromS3 \<equiv> 40"
abbreviation SubtypeCopyToStdout :: Subtype where "SubtypeCopyToStdout \<equiv> 41"
abbreviation SubtypeUnloadToS3 :: Subtype where "SubtypeUnloadToS3 \<equiv> 42"
abbreviation SubtypeFunctionCallProtocol :: Subtype where "SubtypeFunctionCallProtocol \<equiv> 43"
abbreviation SubtypeEscalatedFunctionCall :: Subtype where "SubtypeEscalatedFunctionCall \<equiv> 44"
abbreviation SubtypeCall :: Subtype where "SubtypeCall \<equiv> 45"
abbreviation SubtypeDo :: Subtype where "SubtypeDo \<equiv> 46"
abbreviation SubtypeAnonymousBlock :: Subtype where "SubtypeAnonymousBlock \<equiv> 47"
abbreviation SubtypeDoOrAnon :: Subtype where "SubtypeDoOrAnon \<equiv> 48"
abbreviation SubtypeCreateSubscription :: Subtype where "SubtypeCreateSubscription \<equiv> 49"
abbreviation SubtypeAlterSubscription :: Subtype where "SubtypeAlterSubscription \<equiv> 50"
abbreviation SubtypeDropSubscription :: Subtype where "SubtypeDropSubscription \<equiv> 51"
abbreviation SubtypeCreateServer :: Subtype where "SubtypeCreateServer \<equiv> 52"
abbreviation SubtypeAlterServer :: Subtype where "SubtypeAlterServer \<equiv> 53"
abbreviation SubtypeDropServer :: Subtype where "SubtypeDropServer \<equiv> 54"
abbreviation SubtypeCreateUserMapping :: Subtype where "SubtypeCreateUserMapping \<equiv> 55"
abbreviation SubtypeAlterUserMapping :: Subtype where "SubtypeAlterUserMapping \<equiv> 56"
abbreviation SubtypeDropUserMapping :: Subtype where "SubtypeDropUserMapping \<equiv> 57"
abbreviation SubtypeCreateTablespace :: Subtype where "SubtypeCreateTablespace \<equiv> 58"
abbreviation SubtypeAlterTablespace :: Subtype where "SubtypeAlterTablespace \<equiv> 59"
abbreviation SubtypeDropTablespace :: Subtype where "SubtypeDropTablespace \<equiv> 60"
abbreviation SubtypeCopyToPath :: Subtype where "SubtypeCopyToPath \<equiv> 61"
abbreviation SubtypeCopyFromPath :: Subtype where "SubtypeCopyFromPath \<equiv> 62"
abbreviation SubtypeCopyToProgram :: Subtype where "SubtypeCopyToProgram \<equiv> 63"
abbreviation SubtypeCopyFromProgram :: Subtype where "SubtypeCopyFromProgram \<equiv> 64"
abbreviation SubtypeLargeObjectIO :: Subtype where "SubtypeLargeObjectIO \<equiv> 65"
abbreviation SubtypeServerFileRead :: Subtype where "SubtypeServerFileRead \<equiv> 66"
abbreviation SubtypeDblinkCall :: Subtype where "SubtypeDblinkCall \<equiv> 67"
abbreviation SubtypeFdwAccess :: Subtype where "SubtypeFdwAccess \<equiv> 68"

record subtypeInfo =
  si_name :: string
  si_parent :: Group

definition subtypeTable :: "(Subtype \<times> subtypeInfo) list" where
  "subtypeTable =
    [(SubtypeNone, \<lparr>si_name = '''', si_parent = GroupZero\<rparr>),
     (SubtypeSet, \<lparr>si_name = ''set'', si_parent = GroupSession\<rparr>),
     (SubtypeSetSearchPath, \<lparr>si_name = ''set_search_path'', si_parent = GroupSession\<rparr>),
     (SubtypeSetRole, \<lparr>si_name = ''set_role'', si_parent = GroupSession\<rparr>),
     (SubtypeSetSessionAuthorization, \<lparr>si_name = ''set_session_authorization'', si_parent = GroupSession\<rparr>),
     (SubtypeSetLocal, \<lparr>si_name = ''set_local'', si_parent = GroupSession\<rparr>),
     (SubtypeReset, \<lparr>si_name = ''reset'', si_parent = GroupSession\<rparr>),
     (SubtypeResetAll, \<lparr>si_name = ''reset_all'', si_parent = GroupSession\<rparr>),
     (SubtypeDiscard, \<lparr>si_name = ''discard'', si_parent = GroupSession\<rparr>),
     (SubtypeDiscardAll, \<lparr>si_name = ''discard_all'', si_parent = GroupSession\<rparr>),
     (SubtypeDiscardTemp, \<lparr>si_name = ''discard_temp'', si_parent = GroupSession\<rparr>),
     (SubtypeDiscardPlans, \<lparr>si_name = ''discard_plans'', si_parent = GroupSession\<rparr>),
     (SubtypeDiscardSequences, \<lparr>si_name = ''discard_sequences'', si_parent = GroupSession\<rparr>),
     (SubtypeCancelRequest, \<lparr>si_name = ''cancel_request'', si_parent = GroupSession\<rparr>),
     (SubtypeCreateTable, \<lparr>si_name = ''create_table'', si_parent = GroupSchemaCreate\<rparr>),
     (SubtypeCreateIndex, \<lparr>si_name = ''create_index'', si_parent = GroupSchemaCreate\<rparr>),
     (SubtypeCreateView, \<lparr>si_name = ''create_view'', si_parent = GroupSchemaCreate\<rparr>),
     (SubtypeCreateSchema, \<lparr>si_name = ''create_schema'', si_parent = GroupSchemaCreate\<rparr>),
     (SubtypeCreateFunction, \<lparr>si_name = ''create_function'', si_parent = GroupSchemaCreate\<rparr>),
     (SubtypeCreateMaterializedView, \<lparr>si_name = ''create_materialized_view'', si_parent = GroupSchemaCreate\<rparr>),
     (SubtypeCreateExtension, \<lparr>si_name = ''create_extension'', si_parent = GroupSchemaCreate\<rparr>),
     (SubtypeCreateDatabase, \<lparr>si_name = ''create_database'', si_parent = GroupSchemaCreate\<rparr>),
     (SubtypeCreatePublication, \<lparr>si_name = ''create_publication'', si_parent = GroupSchemaCreate\<rparr>),
     (SubtypeAlterPublication, \<lparr>si_name = ''alter_publication'', si_parent = GroupSchemaAlter\<rparr>),
     (SubtypeDropTable, \<lparr>si_name = ''drop_table'', si_parent = GroupSchemaDestroy\<rparr>),
     (SubtypeDropDatabase, \<lparr>si_name = ''drop_database'', si_parent = GroupSchemaDestroy\<rparr>),
     (SubtypeDropSchema, \<lparr>si_name = ''drop_schema'', si_parent = GroupSchemaDestroy\<rparr>),
     (SubtypeDropIndex, \<lparr>si_name = ''drop_index'', si_parent = GroupSchemaDestroy\<rparr>),
     (SubtypeDropView, \<lparr>si_name = ''drop_view'', si_parent = GroupSchemaDestroy\<rparr>),
     (SubtypeDropFunction, \<lparr>si_name = ''drop_function'', si_parent = GroupSchemaDestroy\<rparr>),
     (SubtypeDropPublication, \<lparr>si_name = ''drop_publication'', si_parent = GroupSchemaDestroy\<rparr>),
     (SubtypeTruncate, \<lparr>si_name = ''truncate'', si_parent = GroupSchemaDestroy\<rparr>),
     (SubtypeGrant, \<lparr>si_name = ''grant'', si_parent = GroupPrivilege\<rparr>),
     (SubtypeRevoke, \<lparr>si_name = ''revoke'', si_parent = GroupPrivilege\<rparr>),
     (SubtypeAlterRole, \<lparr>si_name = ''alter_role'', si_parent = GroupPrivilege\<rparr>),
     (SubtypeCreateRole, \<lparr>si_name = ''create_role'', si_parent = GroupPrivilege\<rparr>),
     (SubtypeDropRole, \<lparr>si_name = ''drop_role'', si_parent = GroupPrivilege\<rparr>),
     (SubtypeAlterSystem, \<lparr>si_name = ''alter_system'', si_parent = GroupPrivilege\<rparr>),
     (SubtypeSecurityLabel, \<lparr>si_name = ''security_label'', si_parent = GroupPrivilege\<rparr>),
     (SubtypeCopyFromStdin, \<lparr>si_name = ''copy_from_stdin'', si_parent = GroupBulkLoad\<rparr>),
     (SubtypeCopyFromS3, \<lparr>si_name = ''copy_from_s3'', si_parent = GroupBulkLoad\<rparr>),
     (SubtypeCopyToStdout, \<lparr>si_name = ''copy_to_stdout'', si_parent = GroupBulkExport\<rparr>),
     (SubtypeUnloadToS3, \<lparr>si_name = ''unload_to_s3'', si_parent = GroupBulkExport\<rparr>),
     (SubtypeFunctionCallProtocol, \<lparr>si_name = ''function_call_protocol'', si_parent = GroupProcedural\<rparr>),
     (SubtypeEscalatedFunctionCall, \<lparr>si_name = ''escalated_function_call'', si_parent = GroupProcedural\<rparr>),
     (SubtypeCall, \<lparr>si_name = ''call'', si_parent = GroupProcedural\<rparr>),
     (SubtypeDo, \<lparr>si_name = ''do'', si_parent = GroupProcedural\<rparr>),
     (SubtypeAnonymousBlock, \<lparr>si_name = ''anonymous_block'', si_parent = GroupProcedural\<rparr>),
     (SubtypeDoOrAnon, \<lparr>si_name = ''do_or_anon'', si_parent = GroupProcedural\<rparr>),
     (SubtypeCreateSubscription, \<lparr>si_name = ''create_subscription'', si_parent = GroupUnsafeIO\<rparr>),
     (SubtypeAlterSubscription, \<lparr>si_name = ''alter_subscription'', si_parent = GroupUnsafeIO\<rparr>),
     (SubtypeDropSubscription, \<lparr>si_name = ''drop_subscription'', si_parent = GroupUnsafeIO\<rparr>),
     (SubtypeCreateServer, \<lparr>si_name = ''create_server'', si_parent = GroupUnsafeIO\<rparr>),
     (SubtypeAlterServer, \<lparr>si_name = ''alter_server'', si_parent = GroupUnsafeIO\<rparr>),
     (SubtypeDropServer, \<lparr>si_name = ''drop_server'', si_parent = GroupUnsafeIO\<rparr>),
     (SubtypeCreateUserMapping, \<lparr>si_name = ''create_user_mapping'', si_parent = GroupUnsafeIO\<rparr>),
     (SubtypeAlterUserMapping, \<lparr>si_name = ''alter_user_mapping'', si_parent = GroupUnsafeIO\<rparr>),
     (SubtypeDropUserMapping, \<lparr>si_name = ''drop_user_mapping'', si_parent = GroupUnsafeIO\<rparr>),
     (SubtypeCreateTablespace, \<lparr>si_name = ''create_tablespace'', si_parent = GroupUnsafeIO\<rparr>),
     (SubtypeAlterTablespace, \<lparr>si_name = ''alter_tablespace'', si_parent = GroupUnsafeIO\<rparr>),
     (SubtypeDropTablespace, \<lparr>si_name = ''drop_tablespace'', si_parent = GroupUnsafeIO\<rparr>),
     (SubtypeCopyToPath, \<lparr>si_name = ''copy_to_path'', si_parent = GroupUnsafeIO\<rparr>),
     (SubtypeCopyFromPath, \<lparr>si_name = ''copy_from_path'', si_parent = GroupUnsafeIO\<rparr>),
     (SubtypeCopyToProgram, \<lparr>si_name = ''copy_to_program'', si_parent = GroupUnsafeIO\<rparr>),
     (SubtypeCopyFromProgram, \<lparr>si_name = ''copy_from_program'', si_parent = GroupUnsafeIO\<rparr>),
     (SubtypeLargeObjectIO, \<lparr>si_name = ''large_object_io'', si_parent = GroupUnsafeIO\<rparr>),
     (SubtypeServerFileRead, \<lparr>si_name = ''server_file_read'', si_parent = GroupUnsafeIO\<rparr>),
     (SubtypeDblinkCall, \<lparr>si_name = ''dblink_call'', si_parent = GroupUnsafeIO\<rparr>),
     (SubtypeFdwAccess, \<lparr>si_name = ''fdw_access'', si_parent = GroupUnsafeIO\<rparr>)]"

definition Subtype_String :: "Subtype \<Rightarrow> string" where
  "Subtype_String s =
     (case map_lookup subtypeTable s of Some info \<Rightarrow> si_name info | None \<Rightarrow> '''')"

definition Subtype_Group :: "Subtype \<Rightarrow> Group" where
  "Subtype_Group s =
     (case map_lookup subtypeTable s of Some info \<Rightarrow> si_parent info | None \<Rightarrow> GroupZero)"

definition ParseSubtype :: "string \<Rightarrow> Subtype option" where
  "ParseSubtype name =
     (if name = '''' then None else map_find subtypeTable (\<lambda>info. si_name info = name))"


section \<open>Object references (object.go, resolved\_object.go)\<close>

datatype ObjectKind =
    ObjectKindZero
  | ObjectTable
  | ObjectView
  | ObjectFunction
  | ObjectSchema
  | ObjectIndex
  | ObjectSequence
  | ObjectExternalEndpoint
  | ObjectFilesystemPath
  | ObjectProgram
  | ObjectSubscription
  | ObjectPublication
  | ObjectServer
  | ObjectUserMapping
  | ObjectTablespace
  | ObjectGUC
  | ObjectRole

definition objectKindNames :: "(ObjectKind \<times> string) list" where
  "objectKindNames =
    [(ObjectTable, ''table''),
     (ObjectView, ''view''),
     (ObjectFunction, ''function''),
     (ObjectSchema, ''schema''),
     (ObjectIndex, ''index''),
     (ObjectSequence, ''sequence''),
     (ObjectExternalEndpoint, ''external_endpoint''),
     (ObjectFilesystemPath, ''filesystem_path''),
     (ObjectProgram, ''program''),
     (ObjectSubscription, ''subscription''),
     (ObjectPublication, ''publication''),
     (ObjectServer, ''server''),
     (ObjectUserMapping, ''user_mapping''),
     (ObjectTablespace, ''tablespace''),
     (ObjectGUC, ''guc''),
     (ObjectRole, ''role'')]"

definition ObjectKind_String :: "ObjectKind \<Rightarrow> string" where
  "ObjectKind_String k =
     (case map_lookup objectKindNames k of Some name \<Rightarrow> name | None \<Rightarrow> '''')"

record ObjectRef =
  o_Kind :: ObjectKind
  o_Schema :: string
  o_Name :: string
  o_Host :: string
  o_Port :: int
  o_Path :: string
  o_Argv0 :: string

text \<open>
  The JSON object of a reference. Every field but \<open>kind\<close> is \<open>omitempty\<close>: it is absent exactly
  when it holds its zero value, which is what decoding an absent field stores, so the record
  stands for the encoded object.
\<close>

record objectRefJSON =
  j_Kind :: string
  j_Schema :: string
  j_Name :: string
  j_Host :: string
  j_Port :: int
  j_Path :: string
  j_Argv0 :: string

definition emptyJSON :: "string \<Rightarrow> objectRefJSON" where
  "emptyJSON kind = \<lparr>j_Kind = kind, j_Schema = '''', j_Name = '''', j_Host = '''',
     j_Port = 0, j_Path = '''', j_Argv0 = ''''\<rparr>"

definition ObjectRef_MarshalJSON :: "ObjectRef \<Rightarrow> objectRefJSON" where
  "ObjectRef_MarshalJSON r =
     (let out = emptyJSON (ObjectKind_String (o_Kind r)) in
      if o_Kind r \<in> {ObjectTable, ObjectView, ObjectFunction, ObjectIndex, ObjectSequence}
      then out\<lparr>j_Schema := o_Schema r, j_Name := o_Name r\<rparr>
      else if o_Kind r = ObjectExternalEndpoint
      then out\<lparr>j_Host := o_Host r, j_Port := o_Port r\<rparr>
      else if o_Kind r = ObjectFilesystemPath then out\<lparr>j_Path := o_Path r\<rparr>
      else if o_Kind r = ObjectProgram then out\<lparr>j_Argv0 := o_Argv0 r\<rparr>
      else out\<lparr>j_Name := o_Name r\<rparr>)"

definition ObjectRef_UnmarshalJSON :: "ObjectRef \<Rightarrow> objectRefJSON \<Rightarrow> ObjectRef" where
  "ObjectRef_UnmarshalJSON r raw =
     \<lparr>o_Kind = (case map_find objectKindNames (\<lambda>name. name = j_Kind raw) of
                  Some k \<Rightarrow> k | None \<Rightarrow> o_Kind r),
      o_Schema = j_Schema raw, o_Name = j_Name raw, o_Host = j_Host raw,
      o_Port = j_Port raw, o_Path = j_Path raw, o_Argv0 = j_Argv0 raw\<rparr>"

abbreviation ResolvedObjectSourceCatalog :: string where
  "ResolvedObjectSourceCatalog \<equiv> ''catalog''"

abbreviation ResolvedObjectRelation :: string where
  "ResolvedObjectRelation \<equiv> ''relation''"

abbreviation ResolvedObjectFunction :: string where
  "ResolvedObjectFunction \<equiv> ''function''"

record ResolvedObjectRef =
  r_Source :: string
  r_Kind :: string
  r_OID :: "32 word"
  r_Schema :: string
  r_Name :: string
  r_RelationKind :: string
  r_FunctionIdentityArgs :: string
  r_FunctionVolatility :: string
  r_UnresolvedReason :: string

definition CanonicalName :: "ResolvedObjectRef \<Rightarrow> string" where
  "CanonicalName r = (if r_Schema r = '''' then r_Name r else r_Schema r @ ''.'' @ r_Name r)"


section \<open>Resolution tags (resolution.go)\<close>

datatype Resolution =
    ResolutionQualified
  | ResolutionUnqualified
  | ResolutionAmbiguousAfterSearchPath
  | ResolutionMaybeTempShadowed
  | ResolutionUnresolved
  | ResolutionCatalogResolved
  | ResolutionCatalogUnresolved
  | ResolutionCatalogUnavailable

definition resolutionNames :: "(Resolution \<times> string) list" where
  "resolutionNames =
    [(ResolutionQualified, ''qualified_syntactic''),
     (ResolutionUnqualified, ''unqualified_syntactic''),
     (ResolutionAmbiguousAfterSearchPath, ''ambiguous_after_search_path''),
     (ResolutionMaybeTempShadowed, ''maybe_temp_shadowed''),
     (ResolutionUnresolved, ''unresolved''),
     (ResolutionCatalogResolved, ''catalog_resolved''),
     (ResolutionCatalogUnresolved, ''catalog_unresolved''),
     (ResolutionCatalogUnavailable, ''catalog_unavailable'')]"

definition Resolution_String :: "Resolution \<Rightarrow> string" where
  "Resolution_String r =
     (case map_lookup resolutionNames r of Some n \<Rightarrow> n | None \<Rightarrow> '''')"

definition resolutionConfidenceRank :: "(Resolution \<times> nat) list" where
  "resolutionConfidenceRank =
    [(ResolutionCatalogResolved, 0), (ResolutionQualified, 1), (ResolutionUnqualified, 2),
     (ResolutionAmbiguousAfterSearchPath, 3), (ResolutionMaybeTempShadowed, 4),
     (ResolutionUnresolved, 5), (ResolutionCatalogUnresolved, 6),
     (ResolutionCatalogUnavailable, 7)]"

definition resolutionRank :: "Resolution \<Rightarrow> nat" where
  "resolutionRank r =
     (case map_lookup resolutionConfidenceRank r of
        Some rank \<Rightarrow> rank
      | None \<Rightarrow> (case map_lookup resolutionConfidenceRank ResolutionCatalogUnavailable of
                   Some rank \<Rightarrow> rank | None \<Rightarrow> 0))"

fun Fold_loop :: "Resolution \<Rightarrow> Resolution list \<Rightarrow> Resolution" where
  "Fold_loop worst [] = worst"
| "Fold_loop worst (r # rs) =
     Fold_loop (if resolutionRank r > resolutionRank worst then r else worst) rs"

fun Fold :: "Resolution list \<Rightarrow> Resolution" where
  "Fold [] = ResolutionQualified"
| "Fold (r # rs) = Fold_loop r rs"

definition ParseResolution :: "string \<Rightarrow> Resolution option" where
  "ParseResolution name = map_find resolutionNames (\<lambda>n. n = name)"


section \<open>Aliases (alias.go)\<close>

definition aliasTable :: "(string \<times> Group list) list" where
  "aliasTable =
    [(''READ'', [GroupRead]),
     (''INSERT'', [GroupWrite]),
     (''UPDATE'', [GroupModify]),
     (''DELETE'', [GroupDelete]),
     (''REMOVE'', [GroupDelete]),
     (''CREATE'', [GroupSchemaCreate]),
     (''DROP'', [GroupSchemaDestroy]),
     (''ALTER'', [GroupSchemaAlter]),
     (''TRUNCATE'', [GroupSchemaDestroy]),
     (''EXPORT'', [GroupBulkExport, GroupUnsafeIO]),
     (''LOAD'', [GroupBulkLoad]),
     (''MUTATE'', [GroupWrite, GroupModify, GroupDelete]),
     (''SCHEMA'', [GroupSchemaCreate, GroupSchemaAlter, GroupSchemaDestroy]),
     (''MAINTENANCE'', [GroupMaintenance]),
     (''LOCK_TABLES'', [GroupLock]),
     (''LISTEN_NOTIFY'', [GroupNotify]),
     (''DANGEROUS'', [GroupSchemaDestroy, GroupPrivilege, GroupUnsafeIO, GroupProcedural, GroupBulkExport, GroupLock])]"

definition ExpandAlias :: "string \<Rightarrow> Group list option" where
  "ExpandAlias token =
     (if token = ''*'' then Some (filter (\<lambda>g. g \<noteq> GroupUnknown) (map fst groupTable))
      else case map_lookup aliasTable token of
        Some groups \<Rightarrow> Some groups
      | None \<Rightarrow> (case ParseGroup token of Some g \<Rightarrow> Some [g] | None \<Rightarrow> None))"


section \<open>Effects and statements (effect.go, statement.go)\<close>

record Effect =
  e_Group :: Group
  e_Subtype :: Subtype
  e_Objects :: "ObjectRef list"
  e_ResolvedObjects :: "ResolvedObjectRef list"
  e_Resolution :: Resolution
  e_HasWhere :: bool
  e_FunctionOID :: "32 word option"

definition canonicalGroupRank :: "(Group \<times> nat) list" where
  "canonicalGroupRank =
    [(GroupUnknown, 0), (GroupUnsafeIO, 1), (GroupSchemaDestroy, 2), (GroupBulkExport, 3),
     (GroupPrivilege, 4), (GroupDelete, 0), (GroupSchemaCreate, 1), (GroupSchemaAlter, 2),
     (GroupBulkLoad, 3), (GroupProcedural, 4), (GroupModify, 0), (GroupWrite, 1),
     (GroupMaintenance, 2), (GroupLock, 3), (GroupRead, 0), (GroupTransaction, 1),
     (GroupSession, 2), (GroupNotify, 3)]"

text \<open>Reading a missing key of a Go map yields the zero value of the element type.\<close>

definition group_rank :: "Group \<Rightarrow> nat" where
  "group_rank g = (case map_lookup canonicalGroupRank g of Some n \<Rightarrow> n | None \<Rightarrow> 0)"

definition effect_less :: "Effect \<Rightarrow> Effect \<Rightarrow> bool" where
  "effect_less a b =
     (let ti = Group_RiskTier (e_Group a); tj = Group_RiskTier (e_Group b) in
      if ti \<noteq> tj then ti > tj else group_rank (e_Group a) < group_rank (e_Group b))"

definition Order :: "Effect list \<Rightarrow> Effect list" where
  "Order es = slice_stable effect_less es"

datatype ParserBackend = ParserBackendUnknown | ParserBackendLibPgQuery | ParserBackendPureGo

fun ParserBackend_String :: "ParserBackend \<Rightarrow> string" where
  "ParserBackend_String ParserBackendLibPgQuery = ''libpg_query''"
| "ParserBackend_String ParserBackendPureGo = ''pure_go''"
| "ParserBackend_String ParserBackendUnknown = ''''"

datatype BulkOpKind = BulkOpNone | BulkOpIn | BulkOpOut

fun BulkOpKind_String :: "BulkOpKind \<Rightarrow> string" where
  "BulkOpKind_String BulkOpIn = ''copy_in''"
| "BulkOpKind_String BulkOpOut = ''copy_out''"
| "BulkOpKind_String BulkOpNone = ''''"

text \<open>The byte of a double quote, which a HOL string literal cannot hold.\<close>

abbreviation dquote :: char where
  "dquote \<equiv> CHR 0x22"

definition BulkOpKind_MarshalJSON :: "BulkOpKind \<Rightarrow> string" where
  "BulkOpKind_MarshalJSON b = dquote # BulkOpKind_String b @ [dquote]"

definition BulkOpKind_UnmarshalJSON :: "string \<Rightarrow> string + BulkOpKind" where
  "BulkOpKind_UnmarshalJSON bs =
     (if bs = [dquote, dquote] \<or> bs = ''null'' then Inr BulkOpNone
      else if bs = dquote # ''copy_in'' @ [dquote] then Inr BulkOpIn
      else if bs = dquote # ''copy_out'' @ [dquote] then Inr BulkOpOut
      else Inl (''unknown bulk_op '' @ bs))"

record ClassifiedStatement =
  cs_Effects :: "Effect list"
  cs_RawVerb :: string
  cs_ParserBackend :: ParserBackend
  cs_Error :: string
  cs_SourceStart :: int
  cs_SourceEnd :: int
  cs_PreparedName :: string
  cs_BulkOp :: BulkOpKind

definition Primary :: "ClassifiedStatement \<Rightarrow> Effect option" where
  "Primary s = (case cs_Effects s of [] \<Rightarrow> None | e # _ \<Rightarrow> Some e)"

definition FoldResolution :: "ClassifiedStatement \<Rightarrow> Resolution" where
  "FoldResolution s = Fold (map e_Resolution (cs_Effects s))"


section \<open>Names and identifiers\<close>

lemmas table_defs [go_defs] = groupTable_def map_lookup_def canonicalGroupRank_def
  resolutionNames_def resolutionConfidenceRank_def objectKindNames_def

lemma group_names_distinct: "distinct (map (\<lambda>e. gi_name (snd e)) groupTable)"
  by (simp add: groupTable_def)

lemma group_in_table_iff: "g \<in> fst ` set groupTable \<longleftrightarrow> g \<noteq> GroupZero"
  by (cases g) (simp_all add: groupTable_def)

lemma group_keys_distinct: "distinct (map fst groupTable)"
  by (simp add: groupTable_def)

lemma map_lookup_iff:
  "distinct (map fst t) \<Longrightarrow> map_lookup t k = Some v \<longleftrightarrow> (k, v) \<in> set t"
  by (simp add: map_lookup_def)

text \<open>A table whose names are distinct is searched by name without regard to its order.\<close>

lemma map_find_by_name:
  assumes "distinct (map (\<lambda>e. f (snd e)) t)"
  shows "map_find t (\<lambda>v. f v = n) = Some k \<longleftrightarrow> (\<exists>v. (k, v) \<in> set t \<and> f v = n)"
  by (rule map_find_Some_iff) (use distinct_map_inj [OF assms] in auto)

lemma map_find_by_name_order:
  assumes "distinct (map (\<lambda>e. f (snd e)) t)" "set t' = set t"
  shows "map_find t' (\<lambda>v. f v = n) = map_find t (\<lambda>v. f v = n)"
  by (rule map_find_order [OF _ assms(2)]) (use distinct_map_inj [OF assms(1)] in auto)

lemma ParseGroup_Some_iff:
  "ParseGroup name = Some g \<longleftrightarrow> g \<noteq> GroupZero \<and> Group_String g = name"
proof -
  have "ParseGroup name = Some g \<longleftrightarrow> (\<exists>i. map_lookup groupTable g = Some i \<and> gi_name i = name)"
    unfolding ParseGroup_def map_find_by_name [OF group_names_distinct]
    by (simp add: map_lookup_iff [OF group_keys_distinct])
  also have "\<dots> \<longleftrightarrow> g \<noteq> GroupZero \<and> Group_String g = name"
    by (cases g) (simp_all add: Group_String_def map_lookup_def groupTable_def)
  finally show ?thesis .
qed

lemma subtype_names_distinct: "distinct (map (\<lambda>e. si_name (snd e)) subtypeTable)"
  by (simp add: subtypeTable_def)

lemma subtype_keys_distinct: "distinct (map fst subtypeTable)"
  by (simp add: subtypeTable_def)

lemma subtype_empty_name: "(s, i) \<in> set subtypeTable \<Longrightarrow> si_name i = '''' \<longleftrightarrow> s = SubtypeNone"
  by (auto simp: subtypeTable_def)

lemma subtype_known_iff: "map_lookup subtypeTable s \<noteq> None \<longleftrightarrow> s \<le> SubtypeFdwAccess"
proof -
  have "map_lookup subtypeTable s \<noteq> None \<longleftrightarrow> s \<in> set (map fst subtypeTable)"
    by (simp add: map_lookup_def map_of_eq_None_iff)
  also have "set (map fst subtypeTable) = (of_nat :: nat \<Rightarrow> 8 word) ` set [0..<69]"
    by (simp add: subtypeTable_def upt_rec)
  also have "s \<in> \<dots> \<longleftrightarrow> s \<le> SubtypeFdwAccess"
  proof
    assume "s \<in> (of_nat :: nat \<Rightarrow> 8 word) ` set [0..<69]"
    then obtain n where "n < 69" "s = of_nat n" by auto
    then show "s \<le> SubtypeFdwAccess" by (simp add: word_le_nat_alt unat_of_nat)
  next
    assume "s \<le> SubtypeFdwAccess"
    then have "unat s < 69" by (simp add: word_le_nat_alt)
    then show "s \<in> (of_nat :: nat \<Rightarrow> 8 word) ` set [0..<69]"
      by (intro image_eqI [of _ _ "unat s"]) auto
  qed
  finally show ?thesis .
qed

lemma ParseSubtype_Some_iff:
  "ParseSubtype name = Some s \<longleftrightarrow>
     s \<noteq> SubtypeNone \<and> s \<le> SubtypeFdwAccess \<and> Subtype_String s = name"
proof -
  have known: "map_find subtypeTable (\<lambda>info. si_name info = name) = Some s \<longleftrightarrow>
      (\<exists>i. map_lookup subtypeTable s = Some i \<and> si_name i = name)"
    unfolding map_find_by_name [OF subtype_names_distinct]
    by (simp add: map_lookup_iff [OF subtype_keys_distinct])
  have "map_lookup subtypeTable s = Some i \<Longrightarrow> si_name i = '''' \<longleftrightarrow> s = SubtypeNone" for i
    using subtype_empty_name by (simp add: map_lookup_iff [OF subtype_keys_distinct])
  then show ?thesis
    using subtype_known_iff [of s] known
    by (auto simp: ParseSubtype_def Subtype_String_def split: option.splits)
qed

lemma subtype_parent: "(s, i) \<in> set subtypeTable \<Longrightarrow> si_parent i = GroupZero \<longleftrightarrow> s = SubtypeNone"
  by (auto simp: subtypeTable_def)

lemma Group_ID_inj: "Group_ID g = Group_ID h \<Longrightarrow> g = h"
  by (cases g; cases h) simp_all

lemma resolution_names_distinct: "distinct (map (\<lambda>e. id (snd e)) resolutionNames)"
  by (simp add: resolutionNames_def)

lemma ParseResolution_Some_iff: "ParseResolution name = Some r \<longleftrightarrow> Resolution_String r = name"
proof -
  have keys: "distinct (map fst resolutionNames)" by (simp add: resolutionNames_def)
  have "ParseResolution name = Some r \<longleftrightarrow> (\<exists>n. map_lookup resolutionNames r = Some n \<and> n = name)"
    unfolding ParseResolution_def
    using map_find_by_name [OF resolution_names_distinct, of name r]
    by (simp add: map_lookup_iff [OF keys])
  also have "\<dots> \<longleftrightarrow> Resolution_String r = name"
    by (cases r) (simp_all add: Resolution_String_def map_lookup_def resolutionNames_def)
  finally show ?thesis .
qed


section \<open>Risk tiers and canonical order\<close>

lemma RiskTier_Compare_sign:
  "0 < RiskTier_Compare t u \<longleftrightarrow> u < t" "RiskTier_Compare t u = 0 \<longleftrightarrow> t = u"
  by (simp add: RiskTier_Compare_def less_RiskTier_def)
     (cases t; cases u; simp add: RiskTier_Compare_def)

lemma Critical_greatest [simp]: "t \<le> Critical"
  by (cases t) (simp_all add: less_eq_RiskTier_def)

text \<open>Sort key of an effect: severity first, then the canonical position within the tier.\<close>

definition effect_key :: "Effect \<Rightarrow> nat" where
  "effect_key e = 19 * (4 - tier_val (Group_RiskTier (e_Group e))) + group_rank (e_Group e)"

lemma tier_val_le: "tier_val t \<le> 4"
  by (cases t) simp_all

lemma tier_val_inj: "tier_val t = tier_val u \<longleftrightarrow> t = u"
  by (cases t; cases u) simp_all

lemma group_rank_le: "group_rank g \<le> 4"
  by (cases g) (simp_all add: group_rank_def map_lookup_def canonicalGroupRank_def)

lemma effect_less_key: "effect_less a b \<longleftrightarrow> effect_key a < effect_key b"
proof -
  let ?ta = "tier_val (Group_RiskTier (e_Group a))" and ?tb = "tier_val (Group_RiskTier (e_Group b))"
  have "?ta \<le> 4" "?tb \<le> 4" by (simp_all add: tier_val_le)
  moreover have "group_rank (e_Group a) \<le> 4" "group_rank (e_Group b) \<le> 4"
    by (simp_all add: group_rank_le)
  ultimately show ?thesis
    by (auto simp: effect_less_def effect_key_def Let_def less_RiskTier_def tier_val_inj [symmetric])
qed

lemma Order_sort_key: "Order es = sort_key effect_key es"
  unfolding Order_def by (rule slice_stable_sort_key) (rule effect_less_key)

lemma mset_Order [simp]: "mset (Order es) = mset es"
  by (simp add: Order_sort_key)

lemma set_Order [simp]: "set (Order es) = set es"
  by (simp add: Order_sort_key)

lemma Order_Nil_iff [simp]: "Order es = [] \<longleftrightarrow> es = []"
  by (metis mset_Order mset_zero_iff)

lemma effect_key_tier:
  "effect_key a \<le> effect_key b \<Longrightarrow> Group_RiskTier (e_Group b) \<le> Group_RiskTier (e_Group a)"
  using group_rank_le [of "e_Group a"] group_rank_le [of "e_Group b"]
    tier_val_le [of "Group_RiskTier (e_Group a)"] tier_val_le [of "Group_RiskTier (e_Group b)"]
  by (auto simp: effect_key_def less_eq_RiskTier_def)

lemma Order_stable:
  "filter (\<lambda>e. effect_key e = k) (Order es) = filter (\<lambda>e. effect_key e = k) es"
  unfolding Order_sort_key by (rule sort_key_stable)

lemma Order_head_tier:
  assumes "Order es = p # rest" "e \<in> set es"
  shows "Group_RiskTier (e_Group e) \<le> Group_RiskTier (e_Group p)"
proof -
  have "sorted (map effect_key (p # rest))"
    using assms(1) Order_sort_key [of es] by (metis sorted_sort_key)
  moreover have "e \<in> set (p # rest)" using assms by (metis set_Order)
  ultimately have "effect_key p \<le> effect_key e" by auto
  then show ?thesis by (rule effect_key_tier)
qed


section \<open>Resolution folding\<close>

interpretation resolution_fold: worst_scan resolutionRank Fold_loop
  by unfold_locales simp_all

lemma resolutionRank_inj: "resolutionRank r = resolutionRank s \<Longrightarrow> r = s"
  by (cases r; cases s) (simp_all add: resolutionRank_def map_lookup_def resolutionConfidenceRank_def)

lemma Fold_worst: "rs \<noteq> [] \<Longrightarrow> Fold rs \<in> set rs \<and> (\<forall>r \<in> set rs. resolutionRank r \<le> resolutionRank (Fold rs))"
  using resolution_fold.scan_mem resolution_fold.scan_max by (cases rs) fastforce+

lemma Fold_eqI:
  assumes "r \<in> set rs" "\<And>s. s \<in> set rs \<Longrightarrow> resolutionRank s \<le> resolutionRank r"
  shows "Fold rs = r"
proof -
  have "rs \<noteq> []" using assms(1) by auto
  then have "resolutionRank (Fold rs) = resolutionRank r"
    using Fold_worst [of rs] assms by (meson order_antisym)
  then show ?thesis by (rule resolutionRank_inj)
qed


section \<open>Aliases\<close>

lemma ExpandAlias_no_zero: "ExpandAlias token = Some gs \<Longrightarrow> GroupZero \<notin> set gs"
proof -
  have "map_lookup aliasTable token = Some gs \<Longrightarrow> GroupZero \<notin> set gs"
    by (auto simp: map_lookup_def aliasTable_def split: if_splits)
  moreover have "GroupZero \<notin> fst ` set groupTable" by (simp add: groupTable_def)
  ultimately show "ExpandAlias token = Some gs \<Longrightarrow> ?thesis"
    by (auto simp: ExpandAlias_def ParseGroup_Some_iff split: if_splits option.splits)
qed

lemma aliasTable_no_unknown: "map_lookup aliasTable token = Some gs \<Longrightarrow> GroupUnknown \<notin> set gs"
  by (auto simp: map_lookup_def aliasTable_def split: if_splits)

lemma ExpandAlias_not_Nil: "ExpandAlias token = Some gs \<Longrightarrow> gs \<noteq> []"
proof -
  have "map_lookup aliasTable token = Some gs \<Longrightarrow> gs \<noteq> []"
    by (auto simp: map_lookup_def aliasTable_def split: if_splits)
  moreover have "filter (\<lambda>g. g \<noteq> GroupUnknown) (map fst groupTable) \<noteq> []"
    by (simp add: groupTable_def)
  ultimately show "ExpandAlias token = Some gs \<Longrightarrow> ?thesis"
    by (auto simp: ExpandAlias_def split: if_splits option.splits)
qed


section \<open>JSON forms\<close>

text \<open>The fields that are meaningful for a reference's kind; the others at their zero value.\<close>

definition active_fields :: "ObjectRef \<Rightarrow> ObjectRef" where
  "active_fields r =
     (let k = o_Kind r;
          rel = (k \<in> {ObjectTable, ObjectView, ObjectFunction, ObjectIndex, ObjectSequence});
          special = (k \<in> {ObjectExternalEndpoint, ObjectFilesystemPath, ObjectProgram})
      in \<lparr>o_Kind = k,
          o_Schema = (if rel then o_Schema r else ''''),
          o_Name = (if special then '''' else o_Name r),
          o_Host = (if k = ObjectExternalEndpoint then o_Host r else ''''),
          o_Port = (if k = ObjectExternalEndpoint then o_Port r else 0),
          o_Path = (if k = ObjectFilesystemPath then o_Path r else ''''),
          o_Argv0 = (if k = ObjectProgram then o_Argv0 r else '''')\<rparr>)"

lemma kind_name_roundtrip:
  "k \<noteq> ObjectKindZero \<Longrightarrow> map_find objectKindNames (\<lambda>n. n = ObjectKind_String k) = Some k"
  by (cases k) (simp_all add: map_find_def ObjectKind_String_def map_lookup_def objectKindNames_def)

lemma kind_zero_name: "map_find objectKindNames (\<lambda>n. n = ObjectKind_String ObjectKindZero) = None"
  by (simp add: map_find_def ObjectKind_String_def map_lookup_def objectKindNames_def)

lemma j_Kind_MarshalJSON: "j_Kind (ObjectRef_MarshalJSON r) = ObjectKind_String (o_Kind r)"
  by (simp add: ObjectRef_MarshalJSON_def emptyJSON_def Let_def)

lemma json_roundtrip:
  "o_Kind r \<noteq> ObjectKindZero \<Longrightarrow> ObjectRef_UnmarshalJSON z (ObjectRef_MarshalJSON r) = active_fields r"
  unfolding ObjectRef_UnmarshalJSON_def j_Kind_MarshalJSON kind_name_roundtrip
  by (auto simp: ObjectRef_MarshalJSON_def emptyJSON_def active_fields_def Let_def kind_name_roundtrip)


section \<open>Properties\<close>

lemma slice_order_sorted: "sorted_wrt (\<lambda>a b. \<not> effect_less b a) (Order es)"
proof -
  have "sorted (map effect_key (Order es))" by (simp add: Order_sort_key)
  then have "sorted_wrt (\<lambda>a b. effect_key a \<le> effect_key b) (Order es)" by (simp add: sorted_wrt_map)
  then show ?thesis by (rule sorted_wrt_mono_rel [rotated]) (simp add: effect_less_key)
qed

lemma tie_effect_key: "(\<not> effect_less e x \<and> \<not> effect_less x e) = (effect_key e = effect_key x)"
  by (auto simp: effect_less_key)

definition sample_effect :: "Group \<Rightarrow> Effect" where
  "sample_effect g = \<lparr>e_Group = g, e_Subtype = SubtypeNone, e_Objects = [], e_ResolvedObjects = [],
     e_Resolution = ResolutionQualified, e_HasWhere = False, e_FunctionOID = None\<rparr>"

lemma sample_order:
  "Order [sample_effect GroupRead, sample_effect GroupDelete] =
     [sample_effect GroupDelete, sample_effect GroupRead]"
  by (simp add: Order_sort_key sort_key_def effect_key_def sample_effect_def Group_RiskTier_def
      group_rank_def table_defs)

lemma unknown_alias: "map_lookup aliasTable ''unknown'' = None" "ParseGroup ''unknown'' = Some GroupUnknown"
  by (simp_all add: map_lookup_def aliasTable_def ParseGroup_Some_iff Group_String_def groupTable_def)

lemma ExpandAlias_GroupUnknown:
  assumes "ExpandAlias token = Some gs"
  shows "GroupUnknown \<in> set gs \<longleftrightarrow> token = ''unknown''"
proof (cases "map_lookup aliasTable token")
  case None
  show ?thesis
  proof (cases "token = ''*''")
    case False
    with None assms obtain g where g: "ParseGroup token = Some g" "gs = [g]"
      by (auto simp: ExpandAlias_def split: option.splits)
    have "g = GroupUnknown \<longleftrightarrow> token = ''unknown''"
      using g(1) unknown_alias(2) by (metis ParseGroup_Some_iff option.inject)
    then show ?thesis using g(2) by auto
  qed (use assms in \<open>auto simp: ExpandAlias_def\<close>)
next
  case (Some hs)
  then have "token \<noteq> ''unknown''" using unknown_alias(1) by auto
  moreover have "GroupUnknown \<notin> set gs"
    using assms Some aliasTable_no_unknown [OF Some] by (auto simp: ExpandAlias_def split: if_splits)
  ultimately show ?thesis by simp
qed

lemma Fold_set_eq:
  assumes "rs \<noteq> []" "set rs = set rs'"
  shows "Fold rs = Fold rs'"
proof (rule Fold_eqI)
  have "rs' \<noteq> []" using assms by auto
  then show "Fold rs' \<in> set rs" "\<And>s. s \<in> set rs \<Longrightarrow> resolutionRank s \<le> resolutionRank (Fold rs')"
    using Fold_worst [of rs'] assms(2) by auto
qed





text \<open>
  C22: the group sets a policy operation can name never contain the zero group and are never empty,
  and only the literal operation \<open>unknown\<close> reaches the fail-closed group \<open>GroupUnknown\<close>: no alias
  and not even \<open>*\<close> expands to it.
\<close>

theorem expand_alias_unknown:
  "ExpandAlias token = Some gs \<Longrightarrow>
     gs \<noteq> [] \<and> GroupZero \<notin> set gs \<and> (GroupUnknown \<in> set gs \<longleftrightarrow> token = ''unknown'')"
  using ExpandAlias_no_zero ExpandAlias_not_Nil ExpandAlias_GroupUnknown by blast

theorem expand_alias_unknown_witness:
  "\<exists>gs. ExpandAlias ''*'' = Some gs \<and> gs \<noteq> [] \<and> GroupUnknown \<notin> set gs"
proof -
  obtain gs where gs: "ExpandAlias ''*'' = Some gs" by (simp add: ExpandAlias_def)
  then show ?thesis using expand_alias_unknown [OF gs] by auto
qed

text \<open>
  C23: folding a non-empty list of resolutions returns the least confident one that occurs, so the
  result depends only on which resolutions occur, not on their order or multiplicity.
\<close>

theorem fold_resolution_worst:
  assumes "rs \<noteq> []" "set rs = set rs'"
  shows "Fold rs = Fold rs' \<and> Fold rs \<in> set rs \<and>
         (\<forall>r \<in> set rs. resolutionRank r \<le> resolutionRank (Fold rs))"
  using Fold_worst [OF assms(1)] Fold_set_eq [OF assms] by blast

theorem fold_resolution_worst_witness:
  "Fold [ResolutionQualified, ResolutionUnresolved] = Fold [ResolutionUnresolved, ResolutionQualified]"
proof -
  have "set [ResolutionQualified, ResolutionUnresolved] = set [ResolutionUnresolved, ResolutionQualified]"
    by auto
  then show ?thesis
    using fold_resolution_worst [of "[ResolutionQualified, ResolutionUnresolved]"
        "[ResolutionUnresolved, ResolutionQualified]"] by blast
qed



end
