(* ===== verification/Db_Rules.thy ===== *)
theory Db_Rules
  imports Db_Effects
begin

text \<open>
  The rule language of the database policy, \<open>src/internal/db/policy\<close>: the on-disk shapes
  (types.go), their validation (validate.go), their compilation into the evaluator's form
  (compile.go), the redaction block (redaction.go) and the assembly of a rule set (the phases B
  and C of decode.go). Phase A, decoding YAML nodes, is \<open>gopkg.in/yaml.v3\<close>: the model starts
  from the decoded shapes.

  Code outside the repository enters through the record \<open>db_env\<close>: glob compilation and
  matching (\<open>github.com/gobwas/glob\<close>), message templates (\<open>text/template\<close>) and IP parsing
  (\<open>net.ParseIP\<close>), and string quoting in diagnostic texts. A compiled glob or template is represented by its source text; what it does
  is the corresponding field of the environment. Nothing is assumed of these functions unless a
  lemma says so.
\<close>


section \<open>Data (types.go)\<close>

datatype DecisionVerb = VerbAllow | VerbAudit | VerbRedirect | VerbApprove | VerbDeny

fun verb_val :: "DecisionVerb \<Rightarrow> nat" where
  "verb_val VerbAllow = 0"
| "verb_val VerbAudit = 1"
| "verb_val VerbRedirect = 2"
| "verb_val VerbApprove = 3"
| "verb_val VerbDeny = 4"

instantiation DecisionVerb :: linorder
begin

definition less_eq_DecisionVerb :: "DecisionVerb \<Rightarrow> DecisionVerb \<Rightarrow> bool" where
  "less_eq_DecisionVerb v w \<longleftrightarrow> verb_val v \<le> verb_val w"

definition less_DecisionVerb :: "DecisionVerb \<Rightarrow> DecisionVerb \<Rightarrow> bool" where
  "less_DecisionVerb v w \<longleftrightarrow> verb_val v < verb_val w"

instance
proof
  fix v w :: DecisionVerb
  show "v \<le> w \<Longrightarrow> w \<le> v \<Longrightarrow> v = w"
    by (cases v; cases w) (simp_all add: less_eq_DecisionVerb_def)
qed (auto simp: less_eq_DecisionVerb_def less_DecisionVerb_def)

end

fun DecisionVerb_String :: "DecisionVerb \<Rightarrow> string" where
  "DecisionVerb_String VerbAllow = ''allow''"
| "DecisionVerb_String VerbAudit = ''audit''"
| "DecisionVerb_String VerbRedirect = ''redirect''"
| "DecisionVerb_String VerbApprove = ''approve''"
| "DecisionVerb_String VerbDeny = ''deny''"

datatype RuleKind = RuleKindStatement | RuleKindConnection | RuleKindCancel

fun RuleKind_String :: "RuleKind \<Rightarrow> string" where
  "RuleKind_String RuleKindStatement = ''statement''"
| "RuleKind_String RuleKindConnection = ''connection''"
| "RuleKind_String RuleKindCancel = ''cancel''"

record RedirectDecision =
  rd_SourceRelation :: string
  rd_TargetRelation :: string

datatype ConnectionMatchKind = MatchConnect | MatchCancel | MatchReplication

type_synonym ServiceID = string

text \<open>\<open>time.Duration\<close>: nanoseconds.\<close>

type_synonym Duration = int

definition Second :: Duration where
  "Second = 1000000000"

record DBService =
  svc_Name :: string
  svc_Family :: string
  svc_Dialect :: string
  svc_Upstream :: string
  svc_TLSMode :: string
  svc_AllowFunctionCallProtocol :: bool
  svc_AllowGSSEncryption :: bool
  svc_TrustedNetwork :: bool

text \<open>A \<open>map[ServiceID]*DBService\<close>, its entries in some iteration order.\<close>

type_synonym Services = "(ServiceID \<times> DBService) list"

record StatementRule =
  sr_Name :: string
  sr_DBService :: string
  sr_DBFamily :: string
  sr_DBDialect :: string
  sr_Schemas :: "string list"
  sr_Objects :: "string list"
  sr_Relations :: "string list"
  sr_Functions :: "string list"
  sr_Operations :: "string list"
  sr_Subtypes :: "string list"
  sr_MatchObjectResolution :: string
  sr_RequireWhere :: bool
  sr_Decision :: string
  sr_Message :: string
  sr_Timeout :: Duration
  sr_Redirect :: "string option" \<comment> \<open>\<open>*RedirectAction\<close>, a pointer to its one field\<close>
  sr_AcknowledgeAuditOnDangerous :: bool
  sr_DenyModeInTx :: string

text \<open>The zero \<open>StatementRule{}\<close>.\<close>

definition zeroStatementRule :: StatementRule where
  "zeroStatementRule = \<lparr>sr_Name = '''', sr_DBService = '''', sr_DBFamily = '''', sr_DBDialect = '''',
     sr_Schemas = [], sr_Objects = [], sr_Relations = [], sr_Functions = [], sr_Operations = [],
     sr_Subtypes = [], sr_MatchObjectResolution = '''', sr_RequireWhere = False, sr_Decision = '''',
     sr_Message = '''', sr_Timeout = 0, sr_Redirect = None,
     sr_AcknowledgeAuditOnDangerous = False, sr_DenyModeInTx = ''''\<rparr>"

record ConnectionRule =
  cr_Name :: string
  cr_DBService :: string
  cr_MatchKind :: string
  cr_DBUser :: "string list"
  cr_Database :: string
  cr_ApplicationName :: string
  cr_ClientIdentity :: string
  cr_Decision :: string
  cr_Message :: string
  cr_Timeout :: Duration

record ConnectionInfo =
  ci_Service :: ServiceID
  ci_MatchKind :: ConnectionMatchKind
  ci_DBUser :: string
  ci_Database :: string
  ci_ApplicationName :: string
  ci_ClientIdentity :: string

record ApprovalRequest =
  ar_Timeout :: Duration
  ar_ContributingApproveRules :: "string list"

record Decision =
  d_Verb :: DecisionVerb
  d_RuleKind :: RuleKind
  d_RuleName :: string
  d_MatchingEffectIndex :: int
  d_MatchingEffectGroup :: Group
  d_Reason :: string
  d_ContributingAuditRules :: "string list"
  d_Approval :: "ApprovalRequest option"
  d_Redirect :: "RedirectDecision option"

text \<open>The zero \<open>Decision{}\<close>; Go composite literals leave the fields they omit at it.\<close>

definition zeroDecision :: Decision where
  "zeroDecision = \<lparr>d_Verb = VerbAllow, d_RuleKind = RuleKindStatement, d_RuleName = '''',
     d_MatchingEffectIndex = 0, d_MatchingEffectGroup = GroupZero, d_Reason = '''',
     d_ContributingAuditRules = [], d_Approval = None, d_Redirect = None\<rparr>"

record Warning =
  w_Rule :: string
  w_Field :: string
  w_Code :: string

datatype RedactionTier = RedactNone | RedactParametersRedacted | RedactFull

definition redactionTierNames :: "(RedactionTier \<times> string) list" where
  "redactionTierNames =
    [(RedactNone, ''none''), (RedactParametersRedacted, ''parameters_redacted''),
     (RedactFull, ''full'')]"

definition RedactionTier_String :: "RedactionTier \<Rightarrow> string" where
  "RedactionTier_String t =
     (case map_lookup redactionTierNames t of Some n \<Rightarrow> n | None \<Rightarrow> '''')"

definition ParseRedactionTier :: "string \<Rightarrow> RedactionTier option" where
  "ParseRedactionTier s = map_find redactionTierNames (\<lambda>n. n = s)"

record RedactionConfig =
  rc_LogStatements :: RedactionTier
  rc_ApprovalStatementPreview :: RedactionTier
  rc_ApprovalStatementChars :: int
  rc_EscalateUnknownFunctions :: bool
  rc_SafeFunctionAllowlist :: "string list"


section \<open>The environment\<close>

record messageContext =
  mc_Operation :: string
  mc_Subtype :: string
  mc_Schema :: string
  mc_Object :: string
  mc_Verb :: string
  mc_StatementPreview :: string

record db_env =
  env_glob_ok :: "string \<Rightarrow> bool" \<comment> \<open>\<open>glob.Compile\<close> returns no error\<close>
  env_glob_match :: "string \<Rightarrow> string \<Rightarrow> bool" \<comment> \<open>\<open>g.Match\<close> of the compiled pattern\<close>
  env_tmpl_ok :: "string \<Rightarrow> bool" \<comment> \<open>\<open>template.Parse\<close> returns no error\<close>
  env_tmpl_exec :: "string \<Rightarrow> messageContext \<Rightarrow> string + string" \<comment> \<open>\<open>Execute\<close>\<close>
  env_ParseIP :: "string \<Rightarrow> byte list option" \<comment> \<open>\<open>net.ParseIP\<close>: 16 bytes, or nil\<close>
  env_Quote :: "string \<Rightarrow> string" \<comment> \<open>\<open>strconv.Quote\<close>, the \<open>%q\<close> of \<open>fmt\<close>\<close>


section \<open>Compiled rules (compile.go)\<close>

definition defaultApproveTimeout :: Duration where
  "defaultApproveTimeout = 60 * Second"

datatype resolutionMatcher = resAny | resEq Resolution

fun resolutionMatcher_matches :: "resolutionMatcher \<Rightarrow> Resolution \<Rightarrow> bool" where
  "resolutionMatcher_matches resAny r = True"
| "resolutionMatcher_matches (resEq m) r = (m = r)"

record serviceFilter =
  sf_service :: ServiceID
  sf_family :: string
  sf_dialect :: string

definition serviceFilter_matches :: "serviceFilter \<Rightarrow> ServiceID \<Rightarrow> DBService option \<Rightarrow> bool" where
  "serviceFilter_matches f i svc =
     (if sf_service f \<noteq> '''' \<and> sf_service f \<noteq> i then False
      else if sf_family f \<noteq> '''' \<and> (case svc of None \<Rightarrow> True | Some s \<Rightarrow> svc_Family s \<noteq> sf_family f)
      then False
      else if sf_dialect f \<noteq> '''' \<and> (case svc of None \<Rightarrow> True | Some s \<Rightarrow> svc_Dialect s \<noteq> sf_dialect f)
      then False
      else True)"

record compiledStatementRule =
  c_src :: StatementRule
  c_verb :: DecisionVerb
  c_groups :: "Group set"
  c_subtypes :: "Subtype set" \<comment> \<open>empty: all subtypes match\<close>
  c_requireWhere :: bool
  c_resolution :: resolutionMatcher
  c_schemas :: "string list" \<comment> \<open>globs; empty: all schemas match\<close>
  c_objects :: "string list"
  c_relations :: "string list"
  c_functions :: "string list"
  c_timeout :: Duration
  c_msgTemplate :: "string option"
  c_redirect :: "RedirectDecision option"
  c_serviceFilter :: serviceFilter

record compiledConnectionRule =
  cc_src :: ConnectionRule
  cc_verb :: DecisionVerb
  cc_matchKind :: ConnectionMatchKind
  cc_dbUsers :: "string set" \<comment> \<open>empty: no constraint\<close>
  cc_database :: string
  cc_applicationName :: "string option"
  cc_clientIdentity :: "string option"
  cc_timeout :: Duration
  cc_msgTemplate :: "string option"
  cc_serviceFilter :: serviceFilter

datatype compile_error =
    UnhandledDecision string string
  | IncompleteRedirect string
  | UnknownOperation string string
  | UnknownSubtype string string
  | UnknownResolution string string
  | GlobCompile string string string
  | MessageTemplateParse string
  | UnhandledMatchKind string string

fun compile_verb :: "string \<Rightarrow> DecisionVerb option" where
  "compile_verb d =
     (if d = ''allow'' then Some VerbAllow
      else if d = ''deny'' then Some VerbDeny
      else if d = ''approve'' then Some VerbApprove
      else if d = ''audit'' then Some VerbAudit
      else if d = ''redirect'' then Some VerbRedirect
      else None)"

declare compile_verb.simps [simp del]

definition compile_redirect :: "StatementRule \<Rightarrow> DecisionVerb \<Rightarrow> compile_error + RedirectDecision option" where
  "compile_redirect r v =
     (if v = VerbRedirect then
        (case (sr_Relations r, sr_Redirect r) of
           ([src], Some tgt) \<Rightarrow>
             if tgt = '''' then Inl (IncompleteRedirect (sr_Name r))
             else Inr (Some \<lparr>rd_SourceRelation = src, rd_TargetRelation = tgt\<rparr>)
         | _ \<Rightarrow> Inl (IncompleteRedirect (sr_Name r)))
      else Inr None)"

definition compile_operations :: "StatementRule \<Rightarrow> compile_error + Group set" where
  "compile_operations r =
     bindE (traverse (\<lambda>op. case ExpandAlias op of
                        Some gs \<Rightarrow> Inr gs | None \<Rightarrow> Inl (UnknownOperation (sr_Name r) op))
              (sr_Operations r))
       (\<lambda>gss. Inr (set (concat gss)))"

definition compile_subtypes :: "StatementRule \<Rightarrow> compile_error + Subtype set" where
  "compile_subtypes r =
     bindE (traverse (\<lambda>st. case ParseSubtype st of
                        Some s \<Rightarrow> Inr s | None \<Rightarrow> Inl (UnknownSubtype (sr_Name r) st))
              (sr_Subtypes r))
       (\<lambda>ss. Inr (set ss))"

definition compile_resolution :: "StatementRule \<Rightarrow> compile_error + resolutionMatcher" where
  "compile_resolution r =
     (let m = sr_MatchObjectResolution r in
      if m = '''' \<or> m = ''*'' then Inr resAny
      else case ParseResolution m of
        Some res \<Rightarrow> Inr (resEq res)
      | None \<Rightarrow> Inl (UnknownResolution (sr_Name r) m))"

definition compile_globs :: "db_env \<Rightarrow> string \<Rightarrow> string \<Rightarrow> string list \<Rightarrow> compile_error + string list" where
  "compile_globs env rule fld pats =
     traverse (\<lambda>pat. if env_glob_ok env pat then Inr pat else Inl (GlobCompile rule fld pat)) pats"

definition compile_message :: "db_env \<Rightarrow> string \<Rightarrow> string \<Rightarrow> compile_error + string option" where
  "compile_message env rule msg =
     (if blank msg then Inr None
      else if env_tmpl_ok env msg then Inr (Some msg)
      else Inl (MessageTemplateParse rule))"

definition compile_timeout :: "string \<Rightarrow> Duration \<Rightarrow> Duration" where
  "compile_timeout decision t =
     (if decision = ''approve'' \<and> t = 0 then defaultApproveTimeout else t)"

definition compileStatementRule :: "db_env \<Rightarrow> StatementRule \<Rightarrow> compile_error + compiledStatementRule" where
  "compileStatementRule env r =
     bindE (case compile_verb (sr_Decision r) of
              Some v \<Rightarrow> Inr v | None \<Rightarrow> Inl (UnhandledDecision (sr_Name r) (sr_Decision r))) (\<lambda>verb.
     bindE (compile_redirect r verb) (\<lambda>redirect.
     bindE (compile_operations r) (\<lambda>groups.
     bindE (compile_subtypes r) (\<lambda>subtypes.
     bindE (compile_resolution r) (\<lambda>resolution.
     bindE (compile_globs env (sr_Name r) ''schemas'' (sr_Schemas r)) (\<lambda>schemas.
     bindE (compile_globs env (sr_Name r) ''objects'' (sr_Objects r)) (\<lambda>objects.
     bindE (compile_globs env (sr_Name r) ''relations'' (sr_Relations r)) (\<lambda>relations.
     bindE (compile_globs env (sr_Name r) ''functions'' (sr_Functions r)) (\<lambda>functions.
     bindE (compile_message env (sr_Name r) (sr_Message r)) (\<lambda>msg.
     Inr \<lparr>c_src = r, c_verb = verb, c_groups = groups, c_subtypes = subtypes,
          c_requireWhere = sr_RequireWhere r, c_resolution = resolution,
          c_schemas = schemas, c_objects = objects, c_relations = relations,
          c_functions = functions, c_timeout = compile_timeout (sr_Decision r) (sr_Timeout r),
          c_msgTemplate = msg, c_redirect = redirect,
          c_serviceFilter = \<lparr>sf_service = sr_DBService r, sf_family = sr_DBFamily r,
                             sf_dialect = sr_DBDialect r\<rparr>\<rparr>))))))))))"

definition hasObjectSelectors :: "compiledStatementRule \<Rightarrow> bool" where
  "hasObjectSelectors c \<longleftrightarrow> c_objects c \<noteq> [] \<or> c_relations c \<noteq> [] \<or> c_functions c \<noteq> []"

definition coversAllObjects :: "compiledStatementRule \<Rightarrow> bool" where
  "coversAllObjects c \<longleftrightarrow> \<not> hasObjectSelectors c"

definition matchesResolution :: "compiledStatementRule \<Rightarrow> Resolution \<Rightarrow> bool" where
  "matchesResolution c r = resolutionMatcher_matches (c_resolution c) r"

definition objectMatchField :: "ObjectRef \<Rightarrow> string" where
  "objectMatchField ob =
     (case o_Kind ob of
        ObjectExternalEndpoint \<Rightarrow> o_Host ob
      | ObjectFilesystemPath \<Rightarrow> o_Path ob
      | ObjectProgram \<Rightarrow> o_Argv0 ob
      | _ \<Rightarrow> o_Name ob)"

definition any_glob :: "db_env \<Rightarrow> string list \<Rightarrow> string \<Rightarrow> bool" where
  "any_glob env gs target = list_ex (\<lambda>g. env_glob_match env g target) gs"

definition objectMatches :: "db_env \<Rightarrow> compiledStatementRule \<Rightarrow> ObjectRef \<Rightarrow> bool" where
  "objectMatches env c ob =
     (if coversAllObjects c then True else any_glob env (c_objects c) (objectMatchField ob))"

definition schemaMatchesObjectSlot :: "db_env \<Rightarrow> compiledStatementRule \<Rightarrow> ObjectRef \<Rightarrow> ResolvedObjectRef option \<Rightarrow> bool" where
  "schemaMatchesObjectSlot env c ob resolved =
     (if c_schemas c = [] then True
      else list_ex (\<lambda>g.
             (o_Schema ob \<noteq> '''' \<and> env_glob_match env g (o_Schema ob)) \<or>
             (case resolved of None \<Rightarrow> False
              | Some r \<Rightarrow> r_Schema r \<noteq> '''' \<and> env_glob_match env g (r_Schema r))) (c_schemas c))"

definition schemaMatchesResolvedObject :: "db_env \<Rightarrow> compiledStatementRule \<Rightarrow> ResolvedObjectRef \<Rightarrow> bool" where
  "schemaMatchesResolvedObject env c resolved =
     (if c_schemas c = [] then True
      else if r_Schema resolved = '''' then False
      else any_glob env (c_schemas c) (r_Schema resolved))"

definition relationMatches :: "db_env \<Rightarrow> compiledStatementRule \<Rightarrow> ResolvedObjectRef \<Rightarrow> bool" where
  "relationMatches env c r =
     (if c_relations c = [] then False
      else if r_Source r \<noteq> ResolvedObjectSourceCatalog \<or> r_Kind r \<noteq> ResolvedObjectRelation \<or>
              r_UnresolvedReason r \<noteq> '''' then False
      else any_glob env (c_relations c) (CanonicalName r))"

definition resolvedFunctionIdentity :: "ResolvedObjectRef \<Rightarrow> string" where
  "resolvedFunctionIdentity r = CanonicalName r @ ''('' @ r_FunctionIdentityArgs r @ '')''"

definition functionMatches :: "db_env \<Rightarrow> compiledStatementRule \<Rightarrow> ResolvedObjectRef \<Rightarrow> bool" where
  "functionMatches env c r =
     (if c_functions c = [] then False
      else if r_Source r \<noteq> ResolvedObjectSourceCatalog \<or> r_Kind r \<noteq> ResolvedObjectFunction \<or>
              r_UnresolvedReason r \<noteq> '''' then False
      else any_glob env (c_functions c) (resolvedFunctionIdentity r))"

definition render_template :: "db_env \<Rightarrow> string option \<Rightarrow> string \<Rightarrow> messageContext \<Rightarrow> string" where
  "render_template env tmpl raw ctx =
     (case tmpl of
        None \<Rightarrow> raw
      | Some t \<Rightarrow> (case env_tmpl_exec env t ctx of
                    Inr out \<Rightarrow> out
                  | Inl err \<Rightarrow> ''<message render error: '' @ err @ ''>''))"

definition statement_renderMessage :: "db_env \<Rightarrow> compiledStatementRule \<Rightarrow> messageContext \<Rightarrow> string" where
  "statement_renderMessage env c ctx = render_template env (c_msgTemplate c) (sr_Message (c_src c)) ctx"

definition connection_renderMessage :: "db_env \<Rightarrow> compiledConnectionRule \<Rightarrow> messageContext \<Rightarrow> string" where
  "connection_renderMessage env c ctx = render_template env (cc_msgTemplate c) (cr_Message (cc_src c)) ctx"

definition conn_verb :: "string \<Rightarrow> DecisionVerb option" where
  "conn_verb d =
     (if d = ''allow'' then Some VerbAllow
      else if d = ''deny'' then Some VerbDeny
      else if d = ''approve'' then Some VerbApprove
      else if d = ''audit'' then Some VerbAudit
      else None)"

definition conn_matchKind :: "string \<Rightarrow> ConnectionMatchKind option" where
  "conn_matchKind k =
     (if k = '''' \<or> k = ''connect'' then Some MatchConnect
      else if k = ''cancel'' then Some MatchCancel
      else if k = ''replication'' then Some MatchReplication
      else None)"

definition compile_opt_glob :: "db_env \<Rightarrow> string \<Rightarrow> string \<Rightarrow> string \<Rightarrow> compile_error + string option" where
  "compile_opt_glob env rule fld pat =
     (if pat = '''' then Inr None
      else if env_glob_ok env pat then Inr (Some pat)
      else Inl (GlobCompile rule fld pat))"

definition compileConnectionRule :: "db_env \<Rightarrow> ConnectionRule \<Rightarrow> compile_error + compiledConnectionRule" where
  "compileConnectionRule env r =
     bindE (case conn_verb (cr_Decision r) of
              Some v \<Rightarrow> Inr v | None \<Rightarrow> Inl (UnhandledDecision (cr_Name r) (cr_Decision r))) (\<lambda>verb.
     bindE (case conn_matchKind (cr_MatchKind r) of
              Some k \<Rightarrow> Inr k | None \<Rightarrow> Inl (UnhandledMatchKind (cr_Name r) (cr_MatchKind r))) (\<lambda>kind.
     bindE (compile_opt_glob env (cr_Name r) ''application_name'' (cr_ApplicationName r)) (\<lambda>app.
     bindE (compile_opt_glob env (cr_Name r) ''client_identity'' (cr_ClientIdentity r)) (\<lambda>client.
     bindE (compile_message env (cr_Name r) (cr_Message r)) (\<lambda>msg.
     Inr \<lparr>cc_src = r, cc_verb = verb, cc_matchKind = kind, cc_dbUsers = set (cr_DBUser r),
          cc_database = cr_Database r, cc_applicationName = app, cc_clientIdentity = client,
          cc_timeout = compile_timeout (cr_Decision r) (cr_Timeout r), cc_msgTemplate = msg,
          cc_serviceFilter = \<lparr>sf_service = cr_DBService r, sf_family = '''', sf_dialect = ''''\<rparr>\<rparr>)))))"


section \<open>Validation (validate.go)\<close>

definition approveTimeoutMax :: Duration where
  "approveTimeoutMax = 600 * Second"

subsection \<open>Upstream addresses\<close>

fun index_byte :: "char \<Rightarrow> string \<Rightarrow> nat option" where
  "index_byte c [] = None"
| "index_byte c (x # xs) = (if x = c then Some 0 else map_option Suc (index_byte c xs))"

definition last_index_byte :: "char \<Rightarrow> string \<Rightarrow> nat option" where
  "last_index_byte c s = map_option (\<lambda>j. length s - 1 - j) (index_byte c (rev s))"

text \<open>The host of \<open>net.SplitHostPort\<close>; \<open>None\<close> for an error.\<close>

definition SplitHostPort :: "string \<Rightarrow> string option" where
  "SplitHostPort hostport =
     (case last_index_byte CHR '':'' hostport of
        None \<Rightarrow> None
      | Some i \<Rightarrow>
          if hostport ! 0 = CHR ''['' then
            (case index_byte CHR '']'' hostport of
               None \<Rightarrow> None
             | Some close \<Rightarrow>
                 if close + 1 = i \<and> index_byte CHR ''['' (drop 1 hostport) = None
                    \<and> index_byte CHR '']'' (drop (close + 1) hostport) = None
                 then Some (take (close - 1) (drop 1 hostport)) else None)
          else
            let host = take i hostport in
            if index_byte CHR '':'' host \<noteq> None \<or> index_byte CHR ''['' hostport \<noteq> None
               \<or> index_byte CHR '']'' hostport \<noteq> None
            then None else Some host)"

definition upstreamHost :: "string \<Rightarrow> string" where
  "upstreamHost upstream = (case SplitHostPort upstream of Some host \<Rightarrow> host | None \<Rightarrow> upstream)"

text \<open>
  \<open>strings.EqualFold host "localhost"\<close>: ASCII letters compare without case, and the code point
  U+017F (bytes C5 BF) is the only other one that folds to a letter of \<open>localhost\<close>.
\<close>

definition ascii_lower :: "char \<Rightarrow> char" where
  "ascii_lower c =
     (let n = of_char c :: nat in if 65 \<le> n \<and> n \<le> 90 then char_of (n + 32) else c)"

fun fold_long_s :: "string \<Rightarrow> string" where
  "fold_long_s (x # y # zs) =
     (if x = CHR 0xC5 \<and> y = CHR 0xBF then CHR ''s'' # fold_long_s zs
      else x # fold_long_s (y # zs))"
| "fold_long_s xs = xs"

definition equalFold_localhost :: "string \<Rightarrow> bool" where
  "equalFold_localhost host \<longleftrightarrow> map ascii_lower (fold_long_s host) = ''localhost''"

text \<open>\<open>IP.To4\<close>, \<open>IP.IsLoopback\<close> and \<open>IP.IsPrivate\<close> on the 16-byte form.\<close>

definition To4 :: "byte list \<Rightarrow> byte list option" where
  "To4 ip =
     (if length ip = 4 then Some ip
      else if length ip = 16 \<and> list_all (\<lambda>b. b = 0) (take 10 ip) \<and> ip ! 10 = 255 \<and> ip ! 11 = 255
      then Some (drop 12 ip) else None)"

definition IsLoopback :: "byte list \<Rightarrow> bool" where
  "IsLoopback ip =
     (case To4 ip of
        Some ip4 \<Rightarrow> ip4 ! 0 = 127
      | None \<Rightarrow> ip = replicate 15 0 @ [1])"

definition IsPrivate :: "byte list \<Rightarrow> bool" where
  "IsPrivate ip =
     (case To4 ip of
        Some ip4 \<Rightarrow> ip4 ! 0 = 10 \<or> (ip4 ! 0 = 172 \<and> ip4 ! 1 div 16 = 1) \<or>
                    (ip4 ! 0 = 192 \<and> ip4 ! 1 = 168)
      | None \<Rightarrow> length ip = 16 \<and> ip ! 0 div 2 = 126)"

definition isLoopbackOrPrivate :: "db_env \<Rightarrow> string \<Rightarrow> bool" where
  "isLoopbackOrPrivate env host =
     (if host = '''' then False
      else if equalFold_localhost host then True
      else case env_ParseIP env host of
        None \<Rightarrow> False
      | Some ip \<Rightarrow> IsLoopback ip \<or> IsPrivate ip)"

subsection \<open>Errors\<close>

datatype validation_error =
    service_tls_mode_required string
  | service_unknown_tls_mode string string
  | service_plaintext_unsafe_dest string string
  | rule_service_unknown string string
  | rule_service_passthrough string string
  | rule_unknown_decision string string
  | rule_operations_required string
  | rule_unknown_operation string string
  | rule_require_where_invalid_operation string
  | rule_unknown_subtype string string
  | rule_unknown_resolution string string
  | approve_timeout_exceeds_max string Duration
  | rule_too_broad_allow string
  | rule_deny_mode_in_tx_not_deny string
  | rule_deny_mode_in_tx_unknown string string
  | redirect_relation_required string
  | redirect_relation_not_canonical string string
  | redirect_source_relation_required string
  | redirect_source_relation_not_canonical string string
  | redirect_source_relation_exclusive string
  | redirect_requires_catalog_resolved string
  | redirect_operations_must_be_read string
  | redirect_requires_terminate_postgres_service string
  | conn_passthrough_field_unavailable string "string option"
  | conn_unknown_match_kind string string
  | conn_redirect_invalid string
  | cancel_rule_approve string

text \<open>\<open>if cond { errs = append(errs, e) }\<close>\<close>

definition err_if :: "bool \<Rightarrow> 'e \<Rightarrow> 'e list" where
  "err_if b e = (if b then [e] else [])"

definition validateService :: "db_env \<Rightarrow> DBService \<Rightarrow> validation_error list" where
  "validateService env s =
     (if svc_TLSMode s = '''' then [service_tls_mode_required (svc_Name s)]
      else if svc_TLSMode s \<in> {''passthrough'', ''terminate_reissue'', ''terminate_plaintext_upstream''}
      then []
      else [service_unknown_tls_mode (svc_Name s) (svc_TLSMode s)]) @
     (let host = upstreamHost (svc_Upstream s) in
      err_if (svc_TLSMode s = ''terminate_plaintext_upstream'' \<and> \<not> svc_TrustedNetwork s \<and>
              \<not> isLoopbackOrPrivate env host)
        (service_plaintext_unsafe_dest (svc_Name s) host))"

subsection \<open>Statement rules\<close>

definition ruleHasCanonicalSelectors :: "StatementRule \<Rightarrow> bool" where
  "ruleHasCanonicalSelectors r \<longleftrightarrow> sr_Relations r \<noteq> [] \<or> sr_Functions r \<noteq> []"

definition ruleHasAnyObjectSelector :: "StatementRule \<Rightarrow> bool" where
  "ruleHasAnyObjectSelector r \<longleftrightarrow> sr_Objects r \<noteq> [] \<or> sr_Relations r \<noteq> [] \<or> sr_Functions r \<noteq> []"

definition canonicalSelectorWarningField :: "StatementRule \<Rightarrow> string" where
  "canonicalSelectorWarningField r = (if sr_Relations r \<noteq> [] then ''relations'' else ''functions'')"

definition expandedGroups :: "StatementRule \<Rightarrow> Group set" where
  "expandedGroups r =
     set (concat (map (\<lambda>op. case ExpandAlias op of Some gs \<Rightarrow> gs | None \<Rightarrow> []) (sr_Operations r)))"

definition groupsOnlyRead :: "Group set \<Rightarrow> bool" where
  "groupsOnlyRead groups =
     (if card groups = 0 then False else if card groups \<noteq> 1 then False else GroupRead \<in> groups)"

definition groupsOnlyModifyDelete :: "Group set \<Rightarrow> bool" where
  "groupsOnlyModifyDelete groups =
     (if groups = {} then False else \<forall>g \<in> groups. g = GroupModify \<or> g = GroupDelete)"

definition isObjectlessGroup :: "Group \<Rightarrow> bool" where
  "isObjectlessGroup g \<longleftrightarrow> g \<in> {GroupTransaction, GroupSession, GroupNotify}"

definition allGroupsObjectless :: "Group set \<Rightarrow> bool" where
  "allGroupsObjectless groups = (if groups = {} then False else \<forall>g \<in> groups. isObjectlessGroup g)"

definition hasHighRisk :: "Group set \<Rightarrow> bool" where
  "hasHighRisk groups \<longleftrightarrow> (\<exists>g \<in> groups. Group_RiskTier g = High \<or> Group_RiskTier g = Critical)"

definition ruleMatchesTerminatePostgresService :: "StatementRule \<Rightarrow> Services \<Rightarrow> bool" where
  "ruleMatchesTerminatePostgresService r svcs =
     list_ex (\<lambda>(i, svc).
       svc_Family svc = ''postgres'' \<and> svc_TLSMode svc \<noteq> ''passthrough'' \<and>
       serviceFilter_matches
         \<lparr>sf_service = sr_DBService r, sf_family = sr_DBFamily r, sf_dialect = sr_DBDialect r\<rparr>
         i (Some svc)) svcs"

definition lower_or_underscore :: "char \<Rightarrow> bool" where
  "lower_or_underscore c \<longleftrightarrow> (97 \<le> (of_char c :: nat) \<and> of_char c \<le> (122 :: nat)) \<or> c = CHR ''_''"

definition ident_char :: "char \<Rightarrow> bool" where
  "ident_char c \<longleftrightarrow> lower_or_underscore c \<or> (48 \<le> (of_char c :: nat) \<and> of_char c \<le> (57 :: nat))"

fun isPlainIdentifier :: "string \<Rightarrow> bool" where
  "isPlainIdentifier [] = False"
| "isPlainIdentifier (c # cs) = (lower_or_underscore c \<and> list_all ident_char cs)"

definition isCanonicalRelationName :: "string \<Rightarrow> bool" where
  "isCanonicalRelationName s =
     (case split_byte CHR ''.'' s of
        [a, b] \<Rightarrow> isPlainIdentifier a \<and> isPlainIdentifier b
      | _ \<Rightarrow> False)"

definition validateRedirectStatementRule :: "StatementRule \<Rightarrow> Services \<Rightarrow> Group set \<Rightarrow> validation_error list" where
  "validateRedirectStatementRule r svcs groups =
     (case sr_Redirect r of
        None \<Rightarrow> [redirect_relation_required (sr_Name r)]
      | Some rel \<Rightarrow>
          if rel = '''' then [redirect_relation_required (sr_Name r)]
          else err_if (\<not> isCanonicalRelationName rel) (redirect_relation_not_canonical (sr_Name r) rel)) @
     (case sr_Relations r of
        [src] \<Rightarrow> err_if (\<not> isCanonicalRelationName src)
                   (redirect_source_relation_not_canonical (sr_Name r) src)
      | _ \<Rightarrow> [redirect_source_relation_required (sr_Name r)]) @
     err_if (sr_Objects r \<noteq> [] \<or> sr_Functions r \<noteq> []) (redirect_source_relation_exclusive (sr_Name r)) @
     err_if (sr_MatchObjectResolution r \<noteq> ''catalog_resolved'')
       (redirect_requires_catalog_resolved (sr_Name r)) @
     err_if (\<not> groupsOnlyRead groups) (redirect_operations_must_be_read (sr_Name r)) @
     err_if (\<not> ruleMatchesTerminatePostgresService r svcs)
       (redirect_requires_terminate_postgres_service (sr_Name r))"

definition validate_rule_service :: "StatementRule \<Rightarrow> Services \<Rightarrow> validation_error list" where
  "validate_rule_service r svcs =
     (if sr_DBService r = '''' then []
      else case map_lookup svcs (sr_DBService r) of
        None \<Rightarrow> [rule_service_unknown (sr_Name r) (sr_DBService r)]
      | Some svc \<Rightarrow> err_if (svc_TLSMode svc = ''passthrough'')
                      (rule_service_passthrough (sr_Name r) (sr_DBService r)))"

definition validate_deny_mode :: "StatementRule \<Rightarrow> validation_error list" where
  "validate_deny_mode r =
     (if sr_DenyModeInTx r = '''' then []
      else if sr_Decision r \<noteq> ''deny'' then [rule_deny_mode_in_tx_not_deny (sr_Name r)]
      else err_if (sr_DenyModeInTx r \<notin> {''terminate'', ''rollback_then_continue''})
             (rule_deny_mode_in_tx_unknown (sr_Name r) (sr_DenyModeInTx r)))"

definition statement_rule_errors :: "StatementRule \<Rightarrow> Services \<Rightarrow> validation_error list" where
  "statement_rule_errors r svcs =
     (let groups = expandedGroups r in
      validate_rule_service r svcs @
      err_if (sr_Decision r \<notin> {''allow'', ''deny'', ''approve'', ''audit'', ''redirect''})
        (rule_unknown_decision (sr_Name r) (sr_Decision r)) @
      err_if (sr_Operations r = []) (rule_operations_required (sr_Name r)) @
      map (rule_unknown_operation (sr_Name r)) (filter (\<lambda>op. ExpandAlias op = None) (sr_Operations r)) @
      err_if (sr_RequireWhere r \<and> \<not> groupsOnlyModifyDelete groups)
        (rule_require_where_invalid_operation (sr_Name r)) @
      map (rule_unknown_subtype (sr_Name r)) (filter (\<lambda>st. ParseSubtype st = None) (sr_Subtypes r)) @
      err_if (sr_MatchObjectResolution r \<noteq> '''' \<and> sr_MatchObjectResolution r \<noteq> ''*'' \<and>
              ParseResolution (sr_MatchObjectResolution r) = None)
        (rule_unknown_resolution (sr_Name r) (sr_MatchObjectResolution r)) @
      err_if (sr_Decision r = ''approve'' \<and> sr_Timeout r > approveTimeoutMax)
        (approve_timeout_exceeds_max (sr_Name r) (sr_Timeout r)) @
      (if sr_Decision r = ''redirect'' then validateRedirectStatementRule r svcs groups else []) @
      err_if (sr_Decision r = ''allow'' \<and> sr_DBService r = '''' \<and> sr_DBFamily r = '''' \<and>
              ''*'' \<in> set (sr_Operations r))
        (rule_too_broad_allow (sr_Name r)) @
      validate_deny_mode r)"

definition statement_rule_warnings :: "StatementRule \<Rightarrow> Services \<Rightarrow> Warning list" where
  "statement_rule_warnings r svcs =
     (let groups = expandedGroups r in
      err_if (sr_Decision r = ''audit'' \<and> \<not> sr_AcknowledgeAuditOnDangerous r \<and> hasHighRisk groups)
        \<lparr>w_Rule = sr_Name r, w_Field = ''decision'', w_Code = ''audit_on_dangerous''\<rparr> @
      (if ruleHasCanonicalSelectors r then
         err_if (sr_MatchObjectResolution r \<noteq> ''catalog_resolved'')
           \<lparr>w_Rule = sr_Name r, w_Field = ''match_object_resolution'',
            w_Code = ''canonical_selector_without_resolution_guard''\<rparr> @
         err_if (\<not> ruleMatchesTerminatePostgresService r svcs)
           \<lparr>w_Rule = sr_Name r, w_Field = canonicalSelectorWarningField r,
            w_Code = ''canonical_selector_without_catalog_service''\<rparr>
       else []) @
      err_if (ruleHasAnyObjectSelector r \<and> allGroupsObjectless groups)
        \<lparr>w_Rule = sr_Name r, w_Field = ''objects'', w_Code = ''selector_on_objectless_operation''\<rparr>)"

definition validateStatementRule :: "StatementRule \<Rightarrow> Services \<Rightarrow> validation_error list \<times> Warning list" where
  "validateStatementRule r svcs = (statement_rule_errors r svcs, statement_rule_warnings r svcs)"

subsection \<open>Connection rules\<close>

definition validateConnectionRuleVsService :: "ConnectionRule \<Rightarrow> DBService \<Rightarrow> validation_error option" where
  "validateConnectionRuleVsService r svc =
     (if svc_TLSMode svc \<noteq> ''passthrough'' then None
      else if cr_DBUser r \<noteq> [] then Some (conn_passthrough_field_unavailable (cr_Name r) None)
      else if cr_Database r \<noteq> '''' then Some (conn_passthrough_field_unavailable (cr_Name r) None)
      else if cr_ApplicationName r \<noteq> '''' then Some (conn_passthrough_field_unavailable (cr_Name r) None)
      else None)"

text \<open>The loop over all services of a rule without \<open>db_service\<close>: it stops at the first error.\<close>

fun wildcard_service_errors :: "ConnectionRule \<Rightarrow> Services \<Rightarrow> validation_error list" where
  "wildcard_service_errors r [] = []"
| "wildcard_service_errors r ((i, s) # svcs) =
     (case validateConnectionRuleVsService r s of
        Some _ \<Rightarrow> [conn_passthrough_field_unavailable (cr_Name r) (Some (svc_Name s))]
      | None \<Rightarrow> wildcard_service_errors r svcs)"

definition connection_service_errors :: "ConnectionRule \<Rightarrow> Services \<Rightarrow> validation_error list" where
  "connection_service_errors r svcs =
     (if cr_DBService r \<noteq> '''' then
        (case map_lookup svcs (cr_DBService r) of
           None \<Rightarrow> [rule_service_unknown (cr_Name r) (cr_DBService r)]
         | Some s \<Rightarrow> (case validateConnectionRuleVsService r s of Some e \<Rightarrow> [e] | None \<Rightarrow> []))
      else wildcard_service_errors r svcs)"

definition validateConnectionRule :: "ConnectionRule \<Rightarrow> Services \<Rightarrow> validation_error list \<times> Warning list" where
  "validateConnectionRule r svcs =
     (let mk = (if cr_MatchKind r = '''' then ''connect'' else cr_MatchKind r) in
      (connection_service_errors r svcs @
       err_if (mk \<notin> {''connect'', ''cancel'', ''replication''})
         (conn_unknown_match_kind (cr_Name r) (cr_MatchKind r)) @
       (if cr_Decision r \<in> {''allow'', ''deny'', ''approve'', ''audit''} then []
        else if cr_Decision r = ''redirect'' then [conn_redirect_invalid (cr_Name r)]
        else [rule_unknown_decision (cr_Name r) (cr_Decision r)]) @
       err_if (mk = ''cancel'' \<and> cr_Decision r = ''approve'') (cancel_rule_approve (cr_Name r)) @
       err_if (cr_Decision r = ''approve'' \<and> cr_Timeout r > approveTimeoutMax)
         (approve_timeout_exceeds_max (cr_Name r) (cr_Timeout r)),
       err_if (mk = ''replication'' \<and> cr_Decision r = ''approve'')
         \<lparr>w_Rule = cr_Name r, w_Field = ''decision'', w_Code = ''approve_on_replication''\<rparr>))"

definition validate :: "db_env \<Rightarrow> Services \<Rightarrow> StatementRule list \<Rightarrow> ConnectionRule list \<Rightarrow>
    Warning list \<times> validation_error list" where
  "validate env svcs stmt conn =
     (concat (map (\<lambda>r. snd (validateStatementRule r svcs)) stmt) @
      concat (map (\<lambda>r. snd (validateConnectionRule r svcs)) conn),
      concat (map (\<lambda>s. validateService env (snd s)) svcs) @
      concat (map (\<lambda>r. fst (validateStatementRule r svcs)) stmt) @
      concat (map (\<lambda>r. fst (validateConnectionRule r svcs)) conn))"


section \<open>Rule sets (types.go, decode.go)\<close>

datatype Unavoidability = UnavoidabilityOff | UnavoidabilityObserve | UnavoidabilityEnforce

fun Unavoidability_String :: "Unavoidability \<Rightarrow> string" where
  "Unavoidability_String UnavoidabilityOff = ''off''"
| "Unavoidability_String UnavoidabilityObserve = ''observe''"
| "Unavoidability_String UnavoidabilityEnforce = ''enforce''"

definition ParseUnavoidability :: "string \<Rightarrow> Unavoidability option" where
  "ParseUnavoidability s =
     (if s = ''off'' then Some UnavoidabilityOff
      else if s = ''observe'' then Some UnavoidabilityObserve
      else if s = ''enforce'' then Some UnavoidabilityEnforce
      else None)"

record RuleSet =
  rs_services :: Services
  rs_statement :: "compiledStatementRule list"
  rs_connection :: "compiledConnectionRule list"
  rs_redaction :: RedactionConfig
  rs_unavoidability :: Unavoidability

record redactionYAML =
  y_LogStatements :: string
  y_ApprovalStatementPreview :: string
  y_ApprovalStatementPreviewChars :: int
  y_Unavoidability :: string
  y_EscalateUnknownFunctions :: bool
  y_SafeFunctionAllowlist :: "string list"

datatype decode_error =
    redaction_unknown_log_statements string
  | redaction_unknown_approval_preview string
  | unknown_unavoidability string
  | Invalid "validation_error list"
  | CompileFailed compile_error

definition parseApprovalPreviewTier :: "string \<Rightarrow> RedactionTier option" where
  "parseApprovalPreviewTier s =
     (if s = ''redacted'' then Some RedactParametersRedacted else ParseRedactionTier s)"

definition default_redaction :: RedactionConfig where
  "default_redaction = \<lparr>rc_LogStatements = RedactParametersRedacted,
     rc_ApprovalStatementPreview = RedactParametersRedacted, rc_ApprovalStatementChars = 200,
     rc_EscalateUnknownFunctions = False, rc_SafeFunctionAllowlist = []\<rparr>"

text \<open>
  \<open>decodeRedaction\<close> on the decoded \<open>policies.db\<close> block (\<open>None\<close>: no \<open>policies\<close> node). The builtin
  allowlist of \<open>classify/postgres/builtins\<close> is the argument \<open>builtin\<close>.
\<close>

definition decodeRedaction :: "string list \<Rightarrow> redactionYAML option \<Rightarrow> decode_error + RedactionConfig" where
  "decodeRedaction builtin y =
     (case y of
        None \<Rightarrow> Inr default_redaction
      | Some rb \<Rightarrow>
          bindE (if y_LogStatements rb \<noteq> '''' then
                   (case ParseRedactionTier (y_LogStatements rb) of
                      Some t \<Rightarrow> Inr t
                    | None \<Rightarrow> Inl (redaction_unknown_log_statements (y_LogStatements rb)))
                 else Inr RedactParametersRedacted) (\<lambda>logs.
          bindE (if y_ApprovalStatementPreview rb \<noteq> '''' then
                   (case parseApprovalPreviewTier (y_ApprovalStatementPreview rb) of
                      Some t \<Rightarrow> Inr t
                    | None \<Rightarrow> Inl (redaction_unknown_approval_preview (y_ApprovalStatementPreview rb)))
                 else Inr RedactParametersRedacted) (\<lambda>preview.
          Inr \<lparr>rc_LogStatements = logs, rc_ApprovalStatementPreview = preview,
               rc_ApprovalStatementChars =
                 (if y_ApprovalStatementPreviewChars rb > 0
                  then y_ApprovalStatementPreviewChars rb else 200),
               rc_EscalateUnknownFunctions = y_EscalateUnknownFunctions rb,
               rc_SafeFunctionAllowlist =
                 (if y_SafeFunctionAllowlist rb \<noteq> [] then y_SafeFunctionAllowlist rb
                  else if y_EscalateUnknownFunctions rb then builtin else [])\<rparr>)))"

definition decodeUnavoidability :: "redactionYAML option \<Rightarrow> decode_error + Unavoidability" where
  "decodeUnavoidability y =
     (case y of
        None \<Rightarrow> Inr UnavoidabilityOff
      | Some rb \<Rightarrow>
          if y_Unavoidability rb = '''' then Inr UnavoidabilityOff
          else case ParseUnavoidability (y_Unavoidability rb) of
            Some u \<Rightarrow> Inr u
          | None \<Rightarrow> Inl (unknown_unavoidability (y_Unavoidability rb)))"

definition lift_compile :: "compile_error + 'a \<Rightarrow> decode_error + 'a" where
  "lift_compile m = (case m of Inl e \<Rightarrow> Inl (CompileFailed e) | Inr a \<Rightarrow> Inr a)"

definition Decode :: "db_env \<Rightarrow> string list \<Rightarrow> Services \<Rightarrow> StatementRule list \<Rightarrow> ConnectionRule list \<Rightarrow>
    redactionYAML option \<Rightarrow> (decode_error + RuleSet) \<times> Warning list" where
  "Decode env builtin svcs stmt conn y =
     (case decodeRedaction builtin y of
        Inl e \<Rightarrow> (Inl e, [])
      | Inr red \<Rightarrow>
     (case decodeUnavoidability y of
        Inl e \<Rightarrow> (Inl e, [])
      | Inr unavoid \<Rightarrow>
          let (warns, errs) = validate env svcs stmt conn in
          if errs \<noteq> [] then (Inl (Invalid errs), warns)
          else (bindE (lift_compile (traverse (compileStatementRule env) stmt)) (\<lambda>cs.
                bindE (lift_compile (traverse (compileConnectionRule env) conn)) (\<lambda>cc.
                Inr \<lparr>rs_services = svcs, rs_statement = cs, rs_connection = cc,
                     rs_redaction = red, rs_unavoidability = unavoid\<rparr>)), warns)))"

definition RuleSet_Service :: "RuleSet option \<Rightarrow> ServiceID \<Rightarrow> DBService option" where
  "RuleSet_Service rs i = (case rs of None \<Rightarrow> None | Some s \<Rightarrow> map_lookup (rs_services s) i)"

definition RuleSet_Redaction :: "RuleSet option \<Rightarrow> RedactionConfig" where
  "RuleSet_Redaction rs =
     (case rs of
        None \<Rightarrow> \<lparr>rc_LogStatements = RedactNone, rc_ApprovalStatementPreview = RedactNone,
                 rc_ApprovalStatementChars = 0, rc_EscalateUnknownFunctions = False,
                 rc_SafeFunctionAllowlist = []\<rparr>
      | Some s \<Rightarrow> rs_redaction s)"

definition RuleSet_Unavoidability :: "RuleSet option \<Rightarrow> Unavoidability" where
  "RuleSet_Unavoidability rs =
     (case rs of None \<Rightarrow> UnavoidabilityOff | Some s \<Rightarrow> rs_unavoidability s)"

definition AllServices :: "RuleSet option \<Rightarrow> DBService list" where
  "AllServices rs = (case rs of None \<Rightarrow> [] | Some s \<Rightarrow> map snd (rs_services s))"

definition AllStatementRules :: "RuleSet option \<Rightarrow> StatementRule list" where
  "AllStatementRules rs = (case rs of None \<Rightarrow> [] | Some s \<Rightarrow> map c_src (rs_statement s))"


section \<open>Validated rules compile\<close>

lemma err_if_Nil [simp]: "err_if b e = [] \<longleftrightarrow> \<not> b"
  by (simp add: err_if_def)

lemma compile_verb_Some_iff: "compile_verb d = Some v \<longleftrightarrow> DecisionVerb_String v = d"
  by (cases v) (auto simp: compile_verb.simps)

lemma compile_verb_None_iff:
  "compile_verb d = None \<longleftrightarrow> d \<notin> {''allow'', ''deny'', ''approve'', ''audit'', ''redirect''}"
  by (auto simp: compile_verb.simps)

lemma conn_verb_None_iff: "conn_verb d = None \<longleftrightarrow> d \<notin> {''allow'', ''deny'', ''approve'', ''audit''}"
  by (auto simp: conn_verb_def)

lemma conn_verb_not_redirect: "conn_verb d = Some v \<Longrightarrow> v \<noteq> VerbRedirect"
  by (auto simp: conn_verb_def split: if_splits)

lemma conn_matchKind_None_iff:
  "conn_matchKind k = None \<longleftrightarrow> (if k = '''' then ''connect'' else k) \<notin> {''connect'', ''cancel'', ''replication''}"
  by (auto simp: conn_matchKind_def)

lemma compile_globs_Inr: "compile_globs env rule fld pats = Inr gs \<Longrightarrow> gs = pats"
  unfolding compile_globs_def traverse_Inr_iff
  by (auto simp: list_all2_conv_all_nth intro!: nth_equalityI split: if_splits)

lemma compile_globs_Inl: "compile_globs env rule fld pats = Inl e \<Longrightarrow> \<exists>pat. e = GlobCompile rule fld pat"
  unfolding compile_globs_def by (auto dest!: traverse_Inl split: if_splits)

lemma compile_message_Inl: "compile_message env rule msg = Inl e \<Longrightarrow> e = MessageTemplateParse rule"
  by (auto simp: compile_message_def split: if_splits)

lemma compile_operations_Inr:
  "compile_operations r = Inr gs \<Longrightarrow> gs = expandedGroups r \<and> (\<forall>op \<in> set (sr_Operations r). ExpandAlias op \<noteq> None)"
proof -
  assume "compile_operations r = Inr gs"
  then obtain gss where gss: "list_all2 (\<lambda>op g. ExpandAlias op = Some g) (sr_Operations r) gss"
    and gs: "gs = set (concat gss)"
    by (auto simp: compile_operations_def bindE_Inr_iff traverse_Inr_iff)
  from gss have "gss = map (\<lambda>op. case ExpandAlias op of Some g \<Rightarrow> g | None \<Rightarrow> []) (sr_Operations r)"
    by (induction) auto
  moreover from gss have "\<forall>op \<in> set (sr_Operations r). ExpandAlias op \<noteq> None"
    by (induction) auto
  ultimately show ?thesis using gs by (simp add: expandedGroups_def)
qed

lemma mem_expandedGroups_iff:
  "g \<in> expandedGroups r \<longleftrightarrow> (\<exists>op \<in> set (sr_Operations r). \<exists>gs. ExpandAlias op = Some gs \<and> g \<in> set gs)"
proof -
  have "g \<in> set (case x of Some gs \<Rightarrow> gs | None \<Rightarrow> []) \<longleftrightarrow> (\<exists>gs. x = Some gs \<and> g \<in> set gs)" for x
    by (cases x) auto
  then show ?thesis by (simp add: expandedGroups_def)
qed

lemma expandedGroups_no_zero: "GroupZero \<notin> expandedGroups r"
  by (auto simp: mem_expandedGroups_iff dest: ExpandAlias_no_zero)

lemma expandedGroups_not_empty:
  "sr_Operations r \<noteq> [] \<Longrightarrow> \<forall>op \<in> set (sr_Operations r). ExpandAlias op \<noteq> None \<Longrightarrow> expandedGroups r \<noteq> {}"
  using ExpandAlias_not_Nil by (cases "sr_Operations r") (fastforce simp: expandedGroups_def split: option.splits)+

lemma finite_expandedGroups [simp]: "finite (expandedGroups r)"
  unfolding expandedGroups_def by (rule finite_set)

lemma groupsOnlyRead_iff: "groupsOnlyRead gs \<longleftrightarrow> gs = {GroupRead}"
  by (auto simp: groupsOnlyRead_def card_1_singleton_iff)

lemma compile_subtypes_Inr: "compile_subtypes r = Inr ss \<Longrightarrow> SubtypeNone \<notin> ss"
proof -
  assume "compile_subtypes r = Inr ss"
  then obtain xs where "list_all2 (\<lambda>st s. ParseSubtype st = Some s) (sr_Subtypes r) xs" "ss = set xs"
    by (auto simp: compile_subtypes_def bindE_Inr_iff traverse_Inr_iff)
  then show ?thesis
    by (auto simp: list_all2_conv_all_nth in_set_conv_nth ParseSubtype_Some_iff)
qed

text \<open>What a successful compilation says, field by field.\<close>

lemma compileStatementRule_InrD:
  assumes "compileStatementRule env r = Inr c"
  shows "c_src c = r" "compile_verb (sr_Decision r) = Some (c_verb c)"
    "compile_redirect r (c_verb c) = Inr (c_redirect c)" "compile_operations r = Inr (c_groups c)"
    "compile_subtypes r = Inr (c_subtypes c)" "c_requireWhere c = sr_RequireWhere r"
    "compile_resolution r = Inr (c_resolution c)" "c_schemas c = sr_Schemas r"
    "c_objects c = sr_Objects r" "c_relations c = sr_Relations r" "c_functions c = sr_Functions r"
    "c_timeout c = compile_timeout (sr_Decision r) (sr_Timeout r)"
    "c_serviceFilter c = \<lparr>sf_service = sr_DBService r, sf_family = sr_DBFamily r, sf_dialect = sr_DBDialect r\<rparr>"
  using assms
  by (auto simp: compileStatementRule_def bindE_Inr_iff dest!: compile_globs_Inr split: option.splits)

lemma statement_rule_errors_Nil_iff:
  "statement_rule_errors r svcs = [] \<longleftrightarrow>
     validate_rule_service r svcs = [] \<and>
     sr_Decision r \<in> {''allow'', ''deny'', ''approve'', ''audit'', ''redirect''} \<and>
     sr_Operations r \<noteq> [] \<and>
     (\<forall>op \<in> set (sr_Operations r). ExpandAlias op \<noteq> None) \<and>
     \<not> (sr_RequireWhere r \<and> \<not> groupsOnlyModifyDelete (expandedGroups r)) \<and>
     (\<forall>st \<in> set (sr_Subtypes r). ParseSubtype st \<noteq> None) \<and>
     \<not> (sr_MatchObjectResolution r \<noteq> '''' \<and> sr_MatchObjectResolution r \<noteq> ''*'' \<and>
        ParseResolution (sr_MatchObjectResolution r) = None) \<and>
     \<not> (sr_Decision r = ''approve'' \<and> sr_Timeout r > approveTimeoutMax) \<and>
     (if sr_Decision r = ''redirect'' then validateRedirectStatementRule r svcs (expandedGroups r) else []) = [] \<and>
     \<not> (sr_Decision r = ''allow'' \<and> sr_DBService r = '''' \<and> sr_DBFamily r = '''' \<and>
        ''*'' \<in> set (sr_Operations r)) \<and>
     validate_deny_mode r = []"
  unfolding statement_rule_errors_def Let_def append_is_Nil_conv err_if_Nil map_is_Nil_conv filter_empty_conv
  by (simp only: not_not)

lemma statement_rule_errors_NilD:
  assumes "statement_rule_errors r svcs = []"
  shows "sr_Decision r \<in> {''allow'', ''deny'', ''approve'', ''audit'', ''redirect''}"
    "sr_Operations r \<noteq> []" "\<forall>op \<in> set (sr_Operations r). ExpandAlias op \<noteq> None"
    "\<forall>st \<in> set (sr_Subtypes r). ParseSubtype st \<noteq> None"
    "sr_RequireWhere r \<longrightarrow> groupsOnlyModifyDelete (expandedGroups r)"
    "sr_MatchObjectResolution r \<noteq> '''' \<and> sr_MatchObjectResolution r \<noteq> ''*'' \<longrightarrow>
       ParseResolution (sr_MatchObjectResolution r) \<noteq> None"
    "sr_Decision r = ''approve'' \<longrightarrow> sr_Timeout r \<le> approveTimeoutMax"
    "sr_Decision r = ''redirect'' \<longrightarrow> validateRedirectStatementRule r svcs (expandedGroups r) = []"
    "sr_Decision r = ''allow'' \<and> sr_DBService r = '''' \<and> sr_DBFamily r = '''' \<longrightarrow>
       ''*'' \<notin> set (sr_Operations r)"
    "validate_rule_service r svcs = []" "validate_deny_mode r = []"
  using assms unfolding statement_rule_errors_Nil_iff by (metis linorder_not_less)+

lemma validateRedirect_NilD:
  assumes "validateRedirectStatementRule r svcs gs = []"
  obtains src tgt where "sr_Redirect r = Some tgt" "isCanonicalRelationName tgt" "tgt \<noteq> ''''"
    "sr_Relations r = [src]" "isCanonicalRelationName src" "sr_Objects r = []" "sr_Functions r = []"
    "sr_MatchObjectResolution r = ''catalog_resolved''" "gs = {GroupRead}"
    "ruleMatchesTerminatePostgresService r svcs"
  using assms
  by (auto simp: validateRedirectStatementRule_def groupsOnlyRead_iff split: option.splits list.splits if_splits)

text \<open>
  A rule that passed validation fails to compile only because of a glob or a message template:
  the branches marked \<open>validate should have rejected\<close> are unreachable.
\<close>

lemma validated_statement_rule_compiles:
  assumes "statement_rule_errors r svcs = []" and "compileStatementRule env r = Inl e"
  shows "(\<exists>fld pat. e = GlobCompile (sr_Name r) fld pat) \<or> e = MessageTemplateParse (sr_Name r)"
proof -
  note v = statement_rule_errors_NilD [OF assms(1)]
  obtain verb where verb: "compile_verb (sr_Decision r) = Some verb"
    using v(1) compile_verb_None_iff by fastforce
  have "\<exists>rd. compile_redirect r verb = Inr rd"
  proof (cases "verb = VerbRedirect")
    case True
    with verb have "sr_Decision r = ''redirect''" by (simp add: compile_verb_Some_iff)
    with v(8) show ?thesis by (auto elim!: validateRedirect_NilD simp: compile_redirect_def)
  qed (simp add: compile_redirect_def)
  moreover have "\<exists>gs. compile_operations r = Inr gs"
    using v(3) traverse_total [of "sr_Operations r"
        "\<lambda>op. case ExpandAlias op of Some gs \<Rightarrow> Inr gs | None \<Rightarrow> Inl (UnknownOperation (sr_Name r) op)"]
    by (fastforce simp: compile_operations_def)
  moreover have "\<exists>ss. compile_subtypes r = Inr ss"
    using v(4) traverse_total [of "sr_Subtypes r"
        "\<lambda>st. case ParseSubtype st of Some s \<Rightarrow> Inr s | None \<Rightarrow> Inl (UnknownSubtype (sr_Name r) st)"]
    by (fastforce simp: compile_subtypes_def)
  moreover have "\<exists>m. compile_resolution r = Inr m"
    using v(6) by (cases "sr_MatchObjectResolution r = ''''") (auto simp: compile_resolution_def Let_def split: option.splits)
  ultimately show ?thesis
    using assms(2) verb
    by (auto simp: compileStatementRule_def bindE_Inl_iff dest!: compile_globs_Inl compile_message_Inl)
qed

lemma validated_connection_rule_compiles:
  assumes "fst (validateConnectionRule r svcs) = []" and "compileConnectionRule env r = Inl e"
  shows "(\<exists>fld pat. e = GlobCompile (cr_Name r) fld pat) \<or> e = MessageTemplateParse (cr_Name r)"
proof -
  have "cr_Decision r \<in> {''allow'', ''deny'', ''approve'', ''audit''}"
    using assms(1) by (auto simp: validateConnectionRule_def Let_def split: if_splits)
  then have "conn_verb (cr_Decision r) \<noteq> None" by (simp add: conn_verb_None_iff)
  moreover have "conn_matchKind (cr_MatchKind r) \<noteq> None"
    using assms(1) by (auto simp: conn_matchKind_None_iff validateConnectionRule_def Let_def split: if_splits)
  ultimately show ?thesis using assms(2)
    by (auto simp: compileConnectionRule_def bindE_Inl_iff compile_opt_glob_def
        dest!: compile_message_Inl split: if_splits)
qed


section \<open>Well-formed rule sets\<close>

definition wf_statement_rule :: "compiledStatementRule \<Rightarrow> bool" where
  "wf_statement_rule c \<longleftrightarrow>
     DecisionVerb_String (c_verb c) = sr_Decision (c_src c) \<and>
     c_groups c \<noteq> {} \<and> GroupZero \<notin> c_groups c \<and> SubtypeNone \<notin> c_subtypes c \<and>
     (c_requireWhere c \<longrightarrow> c_groups c \<subseteq> {GroupModify, GroupDelete}) \<and>
     (c_verb c = VerbApprove \<longrightarrow> c_timeout c \<noteq> 0 \<and> c_timeout c \<le> approveTimeoutMax) \<and>
     (c_verb c = VerbRedirect \<longleftrightarrow> c_redirect c \<noteq> None) \<and>
     (c_verb c = VerbRedirect \<longrightarrow>
        c_groups c = {GroupRead} \<and> c_resolution c = resEq ResolutionCatalogResolved \<and>
        c_objects c = [] \<and> c_functions c = [] \<and> length (c_relations c) = 1) \<and>
     (c_verb c = VerbAllow \<and> sf_service (c_serviceFilter c) = '''' \<and> sf_family (c_serviceFilter c) = '''' \<longrightarrow>
        ''*'' \<notin> set (sr_Operations (c_src c)))"

definition wf_connection_rule :: "compiledConnectionRule \<Rightarrow> bool" where
  "wf_connection_rule c \<longleftrightarrow>
     cc_verb c \<noteq> VerbRedirect \<and>
     (cc_matchKind c = MatchCancel \<longrightarrow> cc_verb c \<noteq> VerbApprove) \<and>
     (cc_verb c = VerbApprove \<longrightarrow> cc_timeout c \<noteq> 0 \<and> cc_timeout c \<le> approveTimeoutMax)"

definition wf_ruleset :: "RuleSet \<Rightarrow> bool" where
  "wf_ruleset rs \<longleftrightarrow>
     list_all wf_statement_rule (rs_statement rs) \<and> list_all wf_connection_rule (rs_connection rs)"

lemma compile_timeout_bounds:
  "t \<le> approveTimeoutMax \<Longrightarrow> compile_timeout ''approve'' t \<noteq> 0 \<and> compile_timeout ''approve'' t \<le> approveTimeoutMax"
  by (simp add: compile_timeout_def defaultApproveTimeout_def approveTimeoutMax_def Second_def)

lemma compile_redirect_Inr: "compile_redirect r v = Inr rd \<Longrightarrow> v = VerbRedirect \<longleftrightarrow> rd \<noteq> None"
  by (auto simp: compile_redirect_def split: if_splits list.splits option.splits)

lemma compiled_statement_rule_wf:
  assumes "statement_rule_errors r svcs = []" and "compileStatementRule env r = Inr c"
  shows "wf_statement_rule c"
proof -
  note v = statement_rule_errors_NilD [OF assms(1)] and c = compileStatementRule_InrD [OF assms(2)]
  have groups: "c_groups c = expandedGroups r" using compile_operations_Inr [OF c(4)] by simp
  have dec: "DecisionVerb_String (c_verb c) = sr_Decision r" using c(2) by (simp add: compile_verb_Some_iff)
  have "c_groups c \<noteq> {}" using v(2,3) by (simp add: groups expandedGroups_not_empty)
  moreover have "GroupZero \<notin> c_groups c" by (simp add: groups expandedGroups_no_zero)
  moreover have "SubtypeNone \<notin> c_subtypes c" using c(5) by (rule compile_subtypes_Inr)
  moreover have "c_requireWhere c \<Longrightarrow> c_groups c \<subseteq> {GroupModify, GroupDelete}"
    using v(5) by (auto simp: c(6) groups groupsOnlyModifyDelete_def split: if_splits)
  moreover have "c_verb c = VerbApprove \<Longrightarrow> c_timeout c \<noteq> 0 \<and> c_timeout c \<le> approveTimeoutMax"
    using dec v(7) compile_timeout_bounds by (simp add: c(12))
  moreover have "c_verb c = VerbRedirect \<longleftrightarrow> c_redirect c \<noteq> None"
    using c(3) by (rule compile_redirect_Inr)
  moreover have "c_groups c = {GroupRead} \<and> c_resolution c = resEq ResolutionCatalogResolved \<and>
      c_objects c = [] \<and> c_functions c = [] \<and> length (c_relations c) = 1" if "c_verb c = VerbRedirect"
  proof -
    from that dec v(8) have "validateRedirectStatementRule r svcs (expandedGroups r) = []" by simp
    then obtain src where "sr_Relations r = [src]" "sr_Objects r = []" "sr_Functions r = []"
      "sr_MatchObjectResolution r = ''catalog_resolved''" "expandedGroups r = {GroupRead}"
      by (rule validateRedirect_NilD)
    moreover have "ParseResolution ''catalog_resolved'' = Some ResolutionCatalogResolved"
      by (simp add: ParseResolution_Some_iff Resolution_String_def map_lookup_def resolutionNames_def)
    ultimately show ?thesis using c(7) by (simp add: c(9-11) groups compile_resolution_def)
  qed
  moreover have "c_verb c = VerbAllow \<Longrightarrow> sr_DBService r = '''' \<Longrightarrow> sr_DBFamily r = '''' \<Longrightarrow>
      ''*'' \<notin> set (sr_Operations r)"
    using dec v(9) by simp
  ultimately show ?thesis using dec by (auto simp: wf_statement_rule_def c(1,13))
qed

lemma compiled_connection_rule_wf:
  assumes "fst (validateConnectionRule r svcs) = []" and "compileConnectionRule env r = Inr c"
  shows "wf_connection_rule c"
proof -
  from assms(2) have c: "conn_verb (cr_Decision r) = Some (cc_verb c)"
      "conn_matchKind (cr_MatchKind r) = Some (cc_matchKind c)"
      "cc_timeout c = compile_timeout (cr_Decision r) (cr_Timeout r)"
    by (auto simp: compileConnectionRule_def bindE_Inr_iff split: option.splits)
  have approve: "cc_verb c = VerbApprove \<Longrightarrow> cr_Decision r = ''approve''"
    using c(1) by (auto simp: conn_verb_def split: if_splits)
  have cancel: "cc_matchKind c = MatchCancel \<Longrightarrow> cr_MatchKind r = ''cancel''"
    using c(2) by (auto simp: conn_matchKind_def split: if_splits)
  have "cr_Decision r = ''approve'' \<Longrightarrow> cr_Timeout r \<le> approveTimeoutMax \<and> cr_MatchKind r \<noteq> ''cancel''"
    using assms(1) by (auto simp: validateConnectionRule_def Let_def split: if_splits)
  then show ?thesis
    using c(1) approve cancel compile_timeout_bounds
    by (auto simp: wf_connection_rule_def c(3) dest: conn_verb_not_redirect)
qed

lemma Decode_Inr_unfold:
  assumes "fst (Decode env builtin svcs stmt conn y) = Inr rs"
  shows "\<forall>r \<in> set stmt. statement_rule_errors r svcs = []"
    "\<forall>r \<in> set conn. fst (validateConnectionRule r svcs) = []"
    "list_all2 (\<lambda>r c. compileStatementRule env r = Inr c) stmt (rs_statement rs)"
    "list_all2 (\<lambda>r c. compileConnectionRule env r = Inr c) conn (rs_connection rs)"
    "rs_services rs = svcs"
  using assms
  by (auto simp: Decode_def validate_def validateStatementRule_def lift_compile_def bindE_Inr_iff
      traverse_Inr_iff Let_def split: sum.splits if_splits)

lemma Decode_wf:
  assumes "fst (Decode env builtin svcs stmt conn y) = Inr rs"
  shows "wf_ruleset rs"
proof -
  note d = Decode_Inr_unfold [OF assms]
  have "list_all wf_statement_rule (rs_statement rs)"
    using d(1,3) compiled_statement_rule_wf
    by (fastforce simp: list_all_iff list_all2_conv_all_nth in_set_conv_nth)
  moreover have "list_all wf_connection_rule (rs_connection rs)"
    using d(2,4) compiled_connection_rule_wf
    by (fastforce simp: list_all_iff list_all2_conv_all_nth in_set_conv_nth)
  ultimately show ?thesis by (simp add: wf_ruleset_def)
qed

lemma Decode_sources:
  "fst (Decode env builtin svcs stmt conn y) = Inr rs \<Longrightarrow> map c_src (rs_statement rs) = stmt"
proof -
  assume "fst (Decode env builtin svcs stmt conn y) = Inr rs"
  then have "list_all2 (\<lambda>r c. compileStatementRule env r = Inr c) stmt (rs_statement rs)"
    by (rule Decode_Inr_unfold)
  then show ?thesis by (induction) (simp_all add: compileStatementRule_InrD)
qed

lemma Decode_CompileFailed:
  assumes "fst (Decode env builtin svcs stmt conn y) = Inl (CompileFailed e)"
  shows "(\<exists>rule fld pat. e = GlobCompile rule fld pat) \<or> (\<exists>rule. e = MessageTemplateParse rule)"
proof -
  have red: "decodeRedaction builtin y \<noteq> Inl (CompileFailed e)" "decodeUnavoidability y \<noteq> Inl (CompileFailed e)"
    by (auto simp: decodeRedaction_def decodeUnavoidability_def bindE_def split: option.splits if_splits sum.splits)
  have valid: "\<forall>r \<in> set stmt. statement_rule_errors r svcs = []"
      "\<forall>r \<in> set conn. fst (validateConnectionRule r svcs) = []"
    and fail: "traverse (compileStatementRule env) stmt = Inl e \<or> traverse (compileConnectionRule env) conn = Inl e"
    using assms red
    by (auto simp: Decode_def validate_def validateStatementRule_def lift_compile_def bindE_Inl_iff
        Let_def split: sum.splits if_splits)
  from fail show ?thesis
  proof
    assume "traverse (compileStatementRule env) stmt = Inl e"
    then obtain r where r: "r \<in> set stmt" "compileStatementRule env r = Inl e" using traverse_Inl by metis
    have "statement_rule_errors r svcs = []" using valid(1) r(1) by (rule bspec)
    from validated_statement_rule_compiles [OF this r(2)] show ?thesis by metis
  next
    assume "traverse (compileConnectionRule env) conn = Inl e"
    then obtain r where r: "r \<in> set conn" "compileConnectionRule env r = Inl e" using traverse_Inl by metis
    have "fst (validateConnectionRule r svcs) = []" using valid(2) r(1) by (rule bspec)
    from validated_connection_rule_compiles [OF this r(2)] show ?thesis by metis
  qed
qed


section \<open>Properties\<close>

definition sample_env :: db_env where
  "sample_env = \<lparr>env_glob_ok = (\<lambda>_. True), env_glob_match = (\<lambda>g s. g = s), env_tmpl_ok = (\<lambda>_. True),
     env_tmpl_exec = (\<lambda>t _. Inr t), env_ParseIP = (\<lambda>_. None), env_Quote = (\<lambda>s. s)\<rparr>"

text \<open>A one-rule policy: deny reads.\<close>

definition sample_policy :: "string list \<Rightarrow> StatementRule" where
  "sample_policy objs = zeroStatementRule\<lparr>sr_Name := ''no-reads'', sr_Operations := [''read''],
     sr_Objects := objs, sr_Decision := ''deny''\<rparr>"

lemma ExpandAlias_read: "ExpandAlias ''read'' = Some [GroupRead]"
  by (simp add: ExpandAlias_def map_lookup_def aliasTable_def ParseGroup_def map_find_def groupTable_def)

lemma sample_policy_valid: "statement_rule_errors (sample_policy objs) [] = []"
  by (simp add: statement_rule_errors_Nil_iff sample_policy_def zeroStatementRule_def ExpandAlias_read
      validate_rule_service_def validate_deny_mode_def err_if_def)

lemma Decode_sample:
  "fst (Decode env [] [] [sample_policy objs] [] None) =
     bindE (lift_compile (traverse (compileStatementRule env) [sample_policy objs])) (\<lambda>cs.
       Inr \<lparr>rs_services = [], rs_statement = cs, rs_connection = [], rs_redaction = default_redaction,
            rs_unavoidability = UnavoidabilityOff\<rparr>)"
  by (simp add: Decode_def decodeRedaction_def decodeUnavoidability_def validate_def validateStatementRule_def
      sample_policy_valid lift_compile_def)

lemmas compile_sample = compileStatementRule_def sample_policy_def zeroStatementRule_def compile_verb.simps
  compile_redirect_def compile_operations_def compile_subtypes_def compile_resolution_def compile_globs_def
  compile_message_def ExpandAlias_read

text \<open>
  C10: a rule set that \<open>Decode\<close> returns is well formed. The rules are those of the file, in its order,
  and each compiled rule has the verb its decision names, at least one group and no zero group or
  subtype, an approval timeout of at most ten minutes that is not zero, a redirect target exactly
  when it redirects (then it is restricted to catalog-resolved reads of one relation), and an
  unscoped allow of every operation is not among them.
\<close>

theorem decode_well_formed:
  "fst (Decode env builtin svcs stmt conn y) = Inr rs \<Longrightarrow>
     wf_ruleset rs \<and> map c_src (rs_statement rs) = stmt \<and> rs_services rs = svcs"
  by (intro conjI) (rule Decode_wf Decode_sources Decode_Inr_unfold(5), assumption)+

theorem decode_well_formed_witness:
  "\<exists>rs. fst (Decode sample_env [] [] [sample_policy []] [] None) = Inr rs \<and> wf_ruleset rs"
proof -
  obtain rs where rs: "fst (Decode sample_env [] [] [sample_policy []] [] None) = Inr rs"
    unfolding Decode_sample by (simp add: compile_sample lift_compile_def sample_env_def)
  from decode_well_formed [OF rs] rs show ?thesis by blast
qed

text \<open>
  C16: validation and compilation agree: once the validators have accepted a policy, compiling it can
  fail only on a pattern the glob library rejects or on a message template that does not parse.
  The other error branches of the compiler, which the code marks as already rejected by
  validation, are unreachable.
\<close>

theorem decode_compile_errors:
  "fst (Decode env builtin svcs stmt conn y) = Inl (CompileFailed e) \<Longrightarrow>
     (\<exists>rule fld pat. e = GlobCompile rule fld pat) \<or> (\<exists>rule. e = MessageTemplateParse rule)"
  by (rule Decode_CompileFailed)

theorem decode_compile_errors_witness:
  "\<exists>e. fst (Decode (sample_env\<lparr>env_glob_ok := (\<lambda>_. False)\<rparr>) [] [] [sample_policy [''[x'']] [] None) = Inl (CompileFailed e) \<and>
     ((\<exists>rule fld pat. e = GlobCompile rule fld pat) \<or> (\<exists>rule. e = MessageTemplateParse rule))"
proof -
  obtain e where e: "fst (Decode (sample_env\<lparr>env_glob_ok := (\<lambda>_. False)\<rparr>) [] [] [sample_policy [''[x'']] [] None) = Inl (CompileFailed e)"
    unfolding Decode_sample by (simp add: compile_sample lift_compile_def)
  from decode_compile_errors [OF e] e show ?thesis by blast
qed

end
