(* ===== verification/Db_Evaluate.thy ===== *)
theory Db_Evaluate
  imports Db_Rules
begin

text \<open>
  The policy evaluator, \<open>src/internal/db/policy/evaluate.go\<close>: its definitions, a declarative
  reading of its verdicts and the proof that it implements it.

  A Go panic (an index out of range, a nil dereference) is the value \<open>None\<close>; the lemmas show
  that no call panics. A matched selector (the \<open>(bool, string)\<close> result of
  \<open>ruleMatchesObjectSlot\<close>) is a \<open>string option\<close>. The coverage map of a statement's effect is the
  list of its values, indexed by object slot.
\<close>


section \<open>Verdicts\<close>

datatype internalVerb = verbAllow | verbAudit | verbRedirect | verbApprove | verbImplicitDeny | verbDeny

fun iverb_val :: "internalVerb \<Rightarrow> nat" where
  "iverb_val verbAllow = 0"
| "iverb_val verbAudit = 1"
| "iverb_val verbRedirect = 2"
| "iverb_val verbApprove = 3"
| "iverb_val verbImplicitDeny = 4"
| "iverb_val verbDeny = 5"

instantiation internalVerb :: linorder
begin

definition less_eq_internalVerb :: "internalVerb \<Rightarrow> internalVerb \<Rightarrow> bool" where
  "less_eq_internalVerb v w \<longleftrightarrow> iverb_val v \<le> iverb_val w"

definition less_internalVerb :: "internalVerb \<Rightarrow> internalVerb \<Rightarrow> bool" where
  "less_internalVerb v w \<longleftrightarrow> iverb_val v < iverb_val w"

instance
proof
  fix v w :: internalVerb
  show "v \<le> w \<Longrightarrow> w \<le> v \<Longrightarrow> v = w"
    by (cases v; cases w) (simp_all add: less_eq_internalVerb_def)
qed (auto simp: less_eq_internalVerb_def less_internalVerb_def)

end

definition compareInternalVerb :: "internalVerb \<Rightarrow> internalVerb \<Rightarrow> int" where
  "compareInternalVerb a b = (if a > b then 1 else if a < b then - 1 else 0)"

text \<open>The zero \<open>ObjectRef{}\<close> and the zero \<open>effectDecision{}\<close>.\<close>

definition zeroObjectRef :: ObjectRef where
  "zeroObjectRef = \<lparr>o_Kind = ObjectKindZero, o_Schema = '''', o_Name = '''', o_Host = '''', o_Port = 0,
     o_Path = '''', o_Argv0 = ''''\<rparr>"

record effectDecision =
  ed_verb :: internalVerb
  ed_rule :: "compiledStatementRule option"
  ed_contributingApprove :: "compiledStatementRule list"
  ed_contributingAudit :: "compiledStatementRule list"
  ed_uncoveredObject :: ObjectRef
  ed_denyMatchingObject :: ObjectRef

definition zeroEffectDecision :: effectDecision where
  "zeroEffectDecision = \<lparr>ed_verb = verbAllow, ed_rule = None, ed_contributingApprove = [],
     ed_contributingAudit = [], ed_uncoveredObject = zeroObjectRef, ed_denyMatchingObject = zeroObjectRef\<rparr>"


section \<open>Object slots and their resolved objects\<close>

definition isRelationObjectKind :: "ObjectKind \<Rightarrow> bool" where
  "isRelationObjectKind kind \<longleftrightarrow> kind \<in> {ObjectTable, ObjectView, ObjectSequence}"

text \<open>
  The counting loop of the two \<open>SlotOrdinal\<close> functions, from the remaining objects, the remaining
  distance to \<open>idx\<close> and the ordinal so far; \<open>- 1\<close> when the slot is not of the counted kind.
\<close>

fun slot_ordinal_loop :: "(ObjectKind \<Rightarrow> bool) \<Rightarrow> ObjectRef list \<Rightarrow> nat \<Rightarrow> int \<Rightarrow> int" where
  "slot_ordinal_loop p [] idx ordinal = - 1"
| "slot_ordinal_loop p (ob # obs) 0 ordinal = (if \<not> p (o_Kind ob) then - 1 else ordinal)"
| "slot_ordinal_loop p (ob # obs) (Suc idx) ordinal =
     slot_ordinal_loop p obs idx (if \<not> p (o_Kind ob) then ordinal else ordinal + 1)"

definition relationObjectSlotOrdinal :: "ObjectRef list \<Rightarrow> nat \<Rightarrow> int" where
  "relationObjectSlotOrdinal objects idx = slot_ordinal_loop isRelationObjectKind objects idx 0"

definition functionObjectSlotOrdinal :: "ObjectRef list \<Rightarrow> nat \<Rightarrow> int" where
  "functionObjectSlotOrdinal objects idx = slot_ordinal_loop (\<lambda>k. k = ObjectFunction) objects idx 0"

fun at_ordinal_loop :: "string \<Rightarrow> ResolvedObjectRef list \<Rightarrow> int \<Rightarrow> int \<Rightarrow> ResolvedObjectRef option" where
  "at_ordinal_loop kind [] ordinal cnt = None"
| "at_ordinal_loop kind (r # rs) ordinal cnt =
     (if r_Kind r \<noteq> kind then at_ordinal_loop kind rs ordinal cnt
      else if cnt = ordinal then Some r
      else at_ordinal_loop kind rs ordinal (cnt + 1))"

definition resolvedRelationObjectAtOrdinal :: "ResolvedObjectRef list \<Rightarrow> int \<Rightarrow> ResolvedObjectRef option" where
  "resolvedRelationObjectAtOrdinal rs ordinal =
     (if ordinal < 0 then None else at_ordinal_loop ResolvedObjectRelation rs ordinal 0)"

definition resolvedFunctionObjectAtOrdinal :: "ResolvedObjectRef list \<Rightarrow> int \<Rightarrow> ResolvedObjectRef option" where
  "resolvedFunctionObjectAtOrdinal rs ordinal =
     (if ordinal < 0 then None else at_ordinal_loop ResolvedObjectFunction rs ordinal 0)"

definition resolvedObjectCompatibleWithSlot :: "ObjectRef \<Rightarrow> ResolvedObjectRef \<Rightarrow> bool" where
  "resolvedObjectCompatibleWithSlot ob resolved =
     (if o_Name ob = '''' \<or> r_Name resolved = '''' \<or> o_Name ob \<noteq> r_Name resolved then False
      else if o_Schema ob \<noteq> '''' \<and> o_Schema ob \<noteq> r_Schema resolved then False
      else if r_Kind resolved = ResolvedObjectRelation then isRelationObjectKind (o_Kind ob)
      else if r_Kind resolved = ResolvedObjectFunction then o_Kind ob = ObjectFunction
      else False)"

definition resolvedObjectForSlot :: "Effect \<Rightarrow> nat \<Rightarrow> ResolvedObjectRef option" where
  "resolvedObjectForSlot e idx =
     (if idx \<ge> length (e_Objects e) then None
      else
        let ob = e_Objects e ! idx;
            compatible = (\<lambda>found. case found of
              None \<Rightarrow> None
            | Some resolved \<Rightarrow>
                if \<not> resolvedObjectCompatibleWithSlot ob resolved then None else Some resolved)
        in
          if isRelationObjectKind (o_Kind ob) then
            compatible (resolvedRelationObjectAtOrdinal (e_ResolvedObjects e)
              (relationObjectSlotOrdinal (e_Objects e) idx))
          else if o_Kind ob = ObjectFunction then
            compatible (resolvedFunctionObjectAtOrdinal (e_ResolvedObjects e)
              (functionObjectSlotOrdinal (e_Objects e) idx))
          else find (resolvedObjectCompatibleWithSlot ob) (e_ResolvedObjects e))"


section \<open>Matching one rule\<close>

definition ruleMatchesEffectMeta :: "compiledStatementRule \<Rightarrow> Effect \<Rightarrow> bool" where
  "ruleMatchesEffectMeta r e =
     (if e_Group e \<notin> c_groups r then False
      else if c_requireWhere r \<and> \<not> e_HasWhere e then False
      else if c_subtypes r \<noteq> {} \<and> e_Subtype e \<notin> c_subtypes r then False
      else if \<not> matchesResolution r (e_Resolution e) then False
      else True)"

definition ruleMatchesObjectSlot :: "db_env \<Rightarrow> compiledStatementRule \<Rightarrow> Effect \<Rightarrow> nat \<Rightarrow> string option" where
  "ruleMatchesObjectSlot env r e idx =
     (if idx \<ge> length (e_Objects e) then None
      else
        let ob = e_Objects e ! idx; resolved = resolvedObjectForSlot e idx in
          if \<not> schemaMatchesObjectSlot env r ob resolved then None
          else if \<not> hasObjectSelectors r then Some ''all''
          else if c_objects r \<noteq> [] \<and> objectMatches env r ob then Some ''objects''
          else if (case resolved of None \<Rightarrow> False | Some x \<Rightarrow> relationMatches env r x) then Some ''relations''
          else if (case resolved of None \<Rightarrow> False | Some x \<Rightarrow> functionMatches env r x) then Some ''functions''
          else None)"

definition resolvedOnlyFunctionRuleMatches :: "db_env \<Rightarrow> compiledStatementRule \<Rightarrow> ResolvedObjectRef \<Rightarrow> bool" where
  "resolvedOnlyFunctionRuleMatches env r resolved \<longleftrightarrow>
     r_Kind resolved = ResolvedObjectFunction \<and> schemaMatchesResolvedObject env r resolved"

text \<open>The inner loop over the resolved objects of \<open>evaluateEffectResolvedOnly\<close>.\<close>

definition resolved_only_hit :: "db_env \<Rightarrow> compiledStatementRule \<Rightarrow> Effect \<Rightarrow> bool" where
  "resolved_only_hit env r e =
     list_ex (\<lambda>resolved. resolvedOnlyFunctionRuleMatches env r resolved \<and>
                (\<not> hasObjectSelectors r \<or> functionMatches env r resolved)) (e_ResolvedObjects e)"

definition isObjectlessEffect :: "Effect \<Rightarrow> bool" where
  "isObjectlessEffect e =
     (if isObjectlessGroup (e_Group e) then True
      else e_Subtype e = SubtypeFunctionCallProtocol \<and> e_ResolvedObjects e = [])"

definition isResolvedOnlyFunctionEffect :: "Effect \<Rightarrow> bool" where
  "isResolvedOnlyFunctionEffect e =
     (if e_Objects e \<noteq> [] \<or> e_Group e \<noteq> GroupProcedural then False
      else list_ex (\<lambda>r. r_Kind r = ResolvedObjectFunction) (e_ResolvedObjects e))"


section \<open>Folding the covering rules\<close>

record cover_state =
  cv_best :: internalVerb
  cv_approveRules :: "compiledStatementRule list"
  cv_auditRules :: "compiledStatementRule list"
  cv_redirectRule :: "compiledStatementRule option"
  cv_approveSeen :: "string set"
  cv_auditSeen :: "string set"

definition cover_init :: cover_state where
  "cover_init = \<lparr>cv_best = verbAllow, cv_approveRules = [], cv_auditRules = [], cv_redirectRule = None,
     cv_approveSeen = {}, cv_auditSeen = {}\<rparr>"

definition cover_step :: "cover_state \<Rightarrow> compiledStatementRule \<Rightarrow> cover_state" where
  "cover_step s r =
     (case c_verb r of
        VerbRedirect \<Rightarrow>
          s\<lparr>cv_best := (if verbRedirect > cv_best s then verbRedirect else cv_best s),
            cv_redirectRule := (if cv_redirectRule s = None then Some r else cv_redirectRule s)\<rparr>
      | VerbApprove \<Rightarrow>
          let s' = s\<lparr>cv_best := (if verbApprove > cv_best s then verbApprove else cv_best s)\<rparr> in
          if sr_Name (c_src r) \<notin> cv_approveSeen s'
          then s'\<lparr>cv_approveSeen := insert (sr_Name (c_src r)) (cv_approveSeen s'),
                  cv_approveRules := cv_approveRules s' @ [r]\<rparr>
          else s'
      | VerbAudit \<Rightarrow>
          let s' = s\<lparr>cv_best := (if verbAudit > cv_best s then verbAudit else cv_best s)\<rparr> in
          if sr_Name (c_src r) \<notin> cv_auditSeen s'
          then s'\<lparr>cv_auditSeen := insert (sr_Name (c_src r)) (cv_auditSeen s'),
                  cv_auditRules := cv_auditRules s' @ [r]\<rparr>
          else s'
      | _ \<Rightarrow> s)"

text \<open>\<open>xs[0]\<close>, which panics on an empty slice.\<close>

fun first_elem :: "'a list \<Rightarrow> 'a option" where
  "first_elem [] = None"
| "first_elem (x # xs) = Some x"

definition foldCoverageRules :: "compiledStatementRule list \<Rightarrow> effectDecision option" where
  "foldCoverageRules coverage =
     (let s = foldl cover_step cover_init coverage;
          result = (\<lambda>primary. zeroEffectDecision\<lparr>ed_verb := cv_best s, ed_rule := primary,
            ed_contributingApprove := cv_approveRules s, ed_contributingAudit := cv_auditRules s\<rparr>)
      in case cv_best s of
           verbApprove \<Rightarrow> map_option (\<lambda>r. result (Some r)) (first_elem (cv_approveRules s))
         | verbRedirect \<Rightarrow> Some (result (cv_redirectRule s))
         | verbAudit \<Rightarrow> map_option (\<lambda>r. result (Some r)) (first_elem (cv_auditRules s))
         | _ \<Rightarrow> map_option (\<lambda>r. result (Some r)) (first_elem coverage))"

definition coverageRulesInPolicyOrder ::
    "compiledStatementRule list \<Rightarrow> compiledStatementRule list list \<Rightarrow> compiledStatementRule list" where
  "coverageRulesInPolicyOrder applicable coverage =
     (let covered = set (concat coverage) in filter (\<lambda>r. r \<in> covered) applicable)"

text \<open>What one covering rule adds to the set of redirect sources.\<close>

definition redirect_source :: "compiledStatementRule \<Rightarrow> string list" where
  "redirect_source r =
     (if c_verb r \<noteq> VerbRedirect then []
      else case c_redirect r of None \<Rightarrow> [] | Some rd \<Rightarrow> [rd_SourceRelation rd])"

definition redirectSourceCount :: "compiledStatementRule list list \<Rightarrow> nat" where
  "redirectSourceCount coverage = card (set (concat (map (\<lambda>rs. concat (map redirect_source rs)) coverage)))"

definition foldObjectCoverageRules ::
    "compiledStatementRule list \<Rightarrow> compiledStatementRule list list \<Rightarrow> effectDecision option" where
  "foldObjectCoverageRules applicable coverage =
     (case foldCoverageRules (coverageRulesInPolicyOrder applicable coverage) of
        None \<Rightarrow> None
      | Some d \<Rightarrow>
          if ed_verb d \<noteq> verbRedirect then Some d
          else if redirectSourceCount coverage \<noteq> 1
          then Some (zeroEffectDecision\<lparr>ed_verb := verbImplicitDeny\<rparr>)
          else Some d)"


section \<open>One effect\<close>

fun deny_pass :: "db_env \<Rightarrow> Effect \<Rightarrow> compiledStatementRule list \<Rightarrow> effectDecision option" where
  "deny_pass env e [] = None"
| "deny_pass env e (r # rs) =
     (if c_verb r \<noteq> VerbDeny then deny_pass env e rs
      else if \<not> ruleMatchesEffectMeta r e then deny_pass env e rs
      else case find (\<lambda>i. ruleMatchesObjectSlot env r e i \<noteq> None) [0..<length (e_Objects e)] of
             Some i \<Rightarrow> Some (zeroEffectDecision\<lparr>ed_verb := verbDeny, ed_rule := Some r,
                               ed_denyMatchingObject := e_Objects e ! i\<rparr>)
           | None \<Rightarrow> deny_pass env e rs)"

definition slot_coverage :: "db_env \<Rightarrow> compiledStatementRule list \<Rightarrow> Effect \<Rightarrow> nat \<Rightarrow> compiledStatementRule list" where
  "slot_coverage env applicable e i =
     filter (\<lambda>r. c_verb r \<noteq> VerbDeny \<and> ruleMatchesEffectMeta r e \<and> ruleMatchesObjectSlot env r e i \<noteq> None)
       applicable"

definition evaluateEffectResolvedOnly :: "db_env \<Rightarrow> Effect \<Rightarrow> compiledStatementRule list \<Rightarrow> effectDecision option" where
  "evaluateEffectResolvedOnly env e applicable =
     (case find (\<lambda>r. c_verb r = VerbDeny \<and> ruleMatchesEffectMeta r e \<and> resolved_only_hit env r e) applicable of
        Some r \<Rightarrow> Some (zeroEffectDecision\<lparr>ed_verb := verbDeny, ed_rule := Some r\<rparr>)
      | None \<Rightarrow>
          let coverage = filter (\<lambda>r. c_verb r \<noteq> VerbDeny \<and> ruleMatchesEffectMeta r e \<and> resolved_only_hit env r e)
                           applicable in
          if coverage = [] then Some (zeroEffectDecision\<lparr>ed_verb := verbImplicitDeny\<rparr>)
          else foldCoverageRules coverage)"

definition evaluateEffectObjectless :: "Effect \<Rightarrow> compiledStatementRule list \<Rightarrow> effectDecision option" where
  "evaluateEffectObjectless e applicable =
     (case find (\<lambda>r. c_verb r = VerbDeny \<and> ruleMatchesEffectMeta r e \<and> coversAllObjects r) applicable of
        Some r \<Rightarrow> Some (zeroEffectDecision\<lparr>ed_verb := verbDeny, ed_rule := Some r\<rparr>)
      | None \<Rightarrow>
          let coverage = filter (\<lambda>r. c_verb r \<noteq> VerbDeny \<and> ruleMatchesEffectMeta r e \<and> coversAllObjects r)
                           applicable in
          if coverage = [] then Some (zeroEffectDecision\<lparr>ed_verb := verbImplicitDeny\<rparr>)
          else foldCoverageRules coverage)"

definition evaluateEffect :: "db_env \<Rightarrow> Effect \<Rightarrow> compiledStatementRule list \<Rightarrow> effectDecision option" where
  "evaluateEffect env e applicable =
     (if e_Objects e = [] then
        (if isResolvedOnlyFunctionEffect e then evaluateEffectResolvedOnly env e applicable
         else if isObjectlessEffect e then evaluateEffectObjectless e applicable
         else Some (zeroEffectDecision\<lparr>ed_verb := verbImplicitDeny\<rparr>))
      else
        case deny_pass env e applicable of
          Some d \<Rightarrow> Some d
        | None \<Rightarrow>
            let coverage = map (slot_coverage env applicable e) [0..<length (e_Objects e)] in
            case find (\<lambda>i. coverage ! i = []) [0..<length (e_Objects e)] of
              Some i \<Rightarrow> Some (zeroEffectDecision\<lparr>ed_verb := verbImplicitDeny,
                                ed_uncoveredObject := e_Objects e ! i\<rparr>)
            | None \<Rightarrow> foldObjectCoverageRules applicable coverage)"


section \<open>A statement\<close>

definition messageContextFor :: "Effect \<Rightarrow> ClassifiedStatement \<Rightarrow> messageContext" where
  "messageContextFor e stmt =
     \<lparr>mc_Operation = Group_String (e_Group e),
      mc_Subtype = (if e_Subtype e \<noteq> SubtypeNone then Subtype_String (e_Subtype e) else ''''),
      mc_Schema = (case e_Objects e of [] \<Rightarrow> '''' | ob # _ \<Rightarrow> o_Schema ob),
      mc_Object = (case e_Objects e of [] \<Rightarrow> '''' | ob # _ \<Rightarrow> objectMatchField ob),
      mc_Verb = cs_RawVerb stmt,
      mc_StatementPreview = ''''\<rparr>"

definition implicitDeny :: "ClassifiedStatement \<Rightarrow> int \<Rightarrow> string \<Rightarrow> Decision" where
  "implicitDeny stmt idx reason =
     (let d = zeroDecision\<lparr>d_Verb := VerbDeny, d_RuleKind := RuleKindStatement,
                d_MatchingEffectIndex := idx, d_Reason := reason\<rparr> in
      if idx \<ge> 0 \<and> idx < int (length (cs_Effects stmt))
      then d\<lparr>d_MatchingEffectGroup := e_Group (cs_Effects stmt ! nat idx)\<rparr> else d)"

definition copyRedirectDecision :: "RedirectDecision option \<Rightarrow> RedirectDecision option" where
  "copyRedirectDecision r =
     (case r of None \<Rightarrow> None
      | Some x \<Rightarrow> Some \<lparr>rd_SourceRelation = rd_SourceRelation x, rd_TargetRelation = rd_TargetRelation x\<rparr>)"

fun bestIdx_loop :: "effectDecision list \<Rightarrow> nat \<Rightarrow> nat list \<Rightarrow> nat" where
  "bestIdx_loop pe best [] = best"
| "bestIdx_loop pe best (i # is) =
     bestIdx_loop pe (if compareInternalVerb (ed_verb (pe ! i)) (ed_verb (pe ! best)) > 0 then i else best) is"

text \<open>The loop that takes the shortest timeout of the contributing approve rules.\<close>

fun timeout_loop :: "Duration \<Rightarrow> compiledStatementRule list \<Rightarrow> Duration" where
  "timeout_loop t [] = t"
| "timeout_loop t (r # rs) = timeout_loop (if c_timeout r < t then c_timeout r else t) rs"

text \<open>The fields that \<open>foldEffects\<close> sets for every verdict that has a rule.\<close>

definition rule_decision :: "db_env \<Rightarrow> ClassifiedStatement \<Rightarrow> DecisionVerb \<Rightarrow> compiledStatementRule \<Rightarrow> nat \<Rightarrow> Decision" where
  "rule_decision env stmt v r idx =
     (let e = cs_Effects stmt ! idx in
      zeroDecision\<lparr>d_Verb := v, d_RuleKind := RuleKindStatement, d_RuleName := sr_Name (c_src r),
        d_MatchingEffectIndex := int idx, d_MatchingEffectGroup := e_Group e,
        d_Reason := statement_renderMessage env r (messageContextFor e stmt)\<rparr>)"

definition foldEffects :: "db_env \<Rightarrow> ClassifiedStatement \<Rightarrow> effectDecision list \<Rightarrow> Decision option" where
  "foldEffects env stmt perEffect =
     (if perEffect = [] \<or> length perEffect > length (cs_Effects stmt) then None
      else
        let bestIdx = bestIdx_loop perEffect 0 [1..<length perEffect];
            d = perEffect ! bestIdx;
            e = cs_Effects stmt ! bestIdx
        in case ed_verb d of
          verbAllow \<Rightarrow> map_option (\<lambda>r. rule_decision env stmt VerbAllow r bestIdx) (ed_rule d)
        | verbAudit \<Rightarrow> map_option (\<lambda>r. rule_decision env stmt VerbAudit r bestIdx) (ed_rule d)
        | verbRedirect \<Rightarrow>
            map_option (\<lambda>r. (rule_decision env stmt VerbRedirect r bestIdx)
              \<lparr>d_Redirect := copyRedirectDecision (c_redirect r)\<rparr>) (ed_rule d)
        | verbApprove \<Rightarrow>
            (case ed_contributingApprove d of
               [] \<Rightarrow> None
             | a # _ \<Rightarrow>
                 map_option (\<lambda>r. (rule_decision env stmt VerbApprove r bestIdx)
                   \<lparr>d_ContributingAuditRules := map (\<lambda>x. sr_Name (c_src x)) (ed_contributingAudit d),
                    d_Approval := Some \<lparr>
                      ar_Timeout = timeout_loop (c_timeout a) (ed_contributingApprove d),
                      ar_ContributingApproveRules = map (\<lambda>x. sr_Name (c_src x)) (ed_contributingApprove d)\<rparr>\<rparr>)
                   (ed_rule d))
        | verbImplicitDeny \<Rightarrow>
            Some (implicitDeny stmt (int bestIdx)
              (''no rule covers '' @ env_Quote env (objectMatchField (ed_uncoveredObject d)) @
               '' in '' @ env_Quote env (Group_String (e_Group e)) @ '' effect''))
        | verbDeny \<Rightarrow> map_option (\<lambda>r. rule_decision env stmt VerbDeny r bestIdx) (ed_rule d))"

definition statementRulesFor :: "RuleSet \<Rightarrow> ServiceID \<Rightarrow> compiledStatementRule list" where
  "statementRulesFor rs svc =
     (let s = map_lookup (rs_services rs) svc in
      filter (\<lambda>r. serviceFilter_matches (c_serviceFilter r) svc s) (rs_statement rs))"

definition UsesCanonicalSelectors :: "RuleSet option \<Rightarrow> ServiceID \<Rightarrow> bool" where
  "UsesCanonicalSelectors rs svc =
     (case rs of None \<Rightarrow> False
      | Some s \<Rightarrow> list_ex (\<lambda>r. c_relations r \<noteq> [] \<or> c_functions r \<noteq> []) (statementRulesFor s svc))"

text \<open>\<open>None\<close> if one of the calls panics.\<close>

fun collect :: "'a option list \<Rightarrow> 'a list option" where
  "collect [] = Some []"
| "collect (None # xs) = None"
| "collect (Some x # xs) = map_option (\<lambda>ys. x # ys) (collect xs)"

definition Evaluate :: "db_env \<Rightarrow> ClassifiedStatement \<Rightarrow> RuleSet option \<Rightarrow> ServiceID \<Rightarrow> Decision option" where
  "Evaluate env stmt rs svc =
     (case rs of
        None \<Rightarrow> Some (implicitDeny stmt 0 ''policy not loaded'')
      | Some s \<Rightarrow>
          let applicable = statementRulesFor s svc in
          if cs_Effects stmt = [] then Some (implicitDeny stmt 0 ''no effects on statement'')
          else case collect (map (\<lambda>e. evaluateEffect env e applicable) (cs_Effects stmt)) of
                 None \<Rightarrow> None
               | Some perEffect \<Rightarrow> foldEffects env stmt perEffect)"


section \<open>The fold over covering rules\<close>

fun to_iverb :: "DecisionVerb \<Rightarrow> internalVerb" where
  "to_iverb VerbAllow = verbAllow"
| "to_iverb VerbAudit = verbAudit"
| "to_iverb VerbRedirect = verbRedirect"
| "to_iverb VerbApprove = verbApprove"
| "to_iverb VerbDeny = verbDeny"

text \<open>The rules of a list that are the first to carry their name.\<close>

fun first_by_name :: "string set \<Rightarrow> compiledStatementRule list \<Rightarrow> compiledStatementRule list" where
  "first_by_name seen [] = []"
| "first_by_name seen (r # rs) =
     (if sr_Name (c_src r) \<in> seen then first_by_name seen rs
      else r # first_by_name (insert (sr_Name (c_src r)) seen) rs)"

abbreviation has_verb :: "DecisionVerb \<Rightarrow> compiledStatementRule \<Rightarrow> bool" where
  "has_verb v r \<equiv> c_verb r = v"

lemma to_iverb_mono [simp]: "to_iverb v \<le> to_iverb w \<longleftrightarrow> v \<le> w"
  by (cases v; cases w) (simp_all add: less_eq_internalVerb_def less_eq_DecisionVerb_def)

lemma to_iverb_inj [simp]: "to_iverb v = to_iverb w \<longleftrightarrow> v = w"
  by (cases v; cases w) simp_all

lemma verbAllow_least [simp]: "verbAllow \<le> v"
  by (simp add: less_eq_internalVerb_def)

lemma le_verbAllow [simp]: "v \<le> verbAllow \<longleftrightarrow> v = verbAllow"
  by (cases v) (simp_all add: less_eq_internalVerb_def)

lemma cover_init_sel [simp]:
  "cv_best cover_init = verbAllow" "cv_approveRules cover_init = []" "cv_auditRules cover_init = []"
  "cv_redirectRule cover_init = None" "cv_approveSeen cover_init = {}" "cv_auditSeen cover_init = {}"
  by (simp_all add: cover_init_def)

lemma to_iverb_not_implicit [simp]: "to_iverb v \<noteq> verbImplicitDeny" "verbImplicitDeny \<noteq> to_iverb v"
  by (cases v; simp)+

lemma to_iverb_eqs [simp]:
  "to_iverb v = verbAllow \<longleftrightarrow> v = VerbAllow" "to_iverb v = verbAudit \<longleftrightarrow> v = VerbAudit"
  "to_iverb v = verbRedirect \<longleftrightarrow> v = VerbRedirect" "to_iverb v = verbDeny \<longleftrightarrow> v = VerbDeny"
  by (cases v; simp)+

lemma cover_step_best:
  "has_verb VerbDeny r \<or> cv_best (cover_step s r) = max (cv_best s) (to_iverb (c_verb r))"
  by (cases "c_verb r") (auto simp: cover_step_def Let_def max_def not_le)

lemma cover_best:
  "\<forall>r \<in> set rs. \<not> has_verb VerbDeny r \<Longrightarrow>
     cv_best (foldl cover_step s rs) = foldl max (cv_best s) (map (\<lambda>r. to_iverb (c_verb r)) rs)"
proof (induction rs arbitrary: s)
  case (Cons r rs)
  then show ?case using cover_step_best [of r s] by simp
qed simp

lemma cover_approve:
  "cv_approveRules (foldl cover_step s rs) =
     cv_approveRules s @ first_by_name (cv_approveSeen s) (filter (has_verb VerbApprove) rs)"
  by (induction rs arbitrary: s) (auto simp: cover_step_def Let_def split: DecisionVerb.splits)

lemma cover_audit:
  "cv_auditRules (foldl cover_step s rs) =
     cv_auditRules s @ first_by_name (cv_auditSeen s) (filter (has_verb VerbAudit) rs)"
  by (induction rs arbitrary: s) (auto simp: cover_step_def Let_def split: DecisionVerb.splits)

lemma cover_redirect:
  "cv_redirectRule (foldl cover_step s rs) =
     (case cv_redirectRule s of Some r \<Rightarrow> Some r | None \<Rightarrow> find (has_verb VerbRedirect) rs)"
  by (induction rs arbitrary: s) (auto simp: cover_step_def Let_def split: DecisionVerb.splits option.splits)

lemma foldl_max_Max:
  fixes a :: "'a::linorder"
  shows "foldl max a xs = Max (insert a (set xs))"
proof (induction xs arbitrary: a)
  case (Cons x xs)
  then show ?case by (cases "xs = []") (simp_all add: max.assoc)
qed simp

lemma first_elem_filter_name: "first_elem (first_by_name {} (filter P rs)) = find P rs"
proof -
  have "first_elem (first_by_name {} xs) = first_elem xs" for xs by (cases xs) simp_all
  moreover have "first_elem (filter P rs) = find P rs" by (induction rs) simp_all
  ultimately show ?thesis by simp
qed

lemma find_SomeD: "find P xs = Some x \<Longrightarrow> x \<in> set xs \<and> P x"
  by (induction xs) (auto split: if_splits)

text \<open>The most restrictive verb of a set of rules, and what the fold returns on a covering list.\<close>

definition worst_verb :: "compiledStatementRule set \<Rightarrow> DecisionVerb" where
  "worst_verb R = Max (c_verb ` R)"

definition covered_decision :: "compiledStatementRule list \<Rightarrow> effectDecision" where
  "covered_decision rs = zeroEffectDecision\<lparr>ed_verb := to_iverb (worst_verb (set rs)),
     ed_rule := find (has_verb (worst_verb (set rs))) rs,
     ed_contributingApprove := first_by_name {} (filter (has_verb VerbApprove) rs),
     ed_contributingAudit := first_by_name {} (filter (has_verb VerbAudit) rs)\<rparr>"

lemma worst_verb_mem: "finite R \<Longrightarrow> R \<noteq> {} \<Longrightarrow> \<exists>r \<in> R. c_verb r = worst_verb R"
  unfolding worst_verb_def using Max_in [of "c_verb ` R"] by fastforce

lemma worst_verb_ge: "finite R \<Longrightarrow> r \<in> R \<Longrightarrow> c_verb r \<le> worst_verb R"
  by (simp add: worst_verb_def)

lemma cover_best_worst:
  assumes "rs \<noteq> []" "\<forall>r \<in> set rs. \<not> has_verb VerbDeny r"
  shows "cv_best (foldl cover_step cover_init rs) = to_iverb (worst_verb (set rs))"
proof -
  have "cv_best (foldl cover_step cover_init rs) = Max (insert verbAllow ((to_iverb \<circ> c_verb) ` set rs))"
    by (simp add: cover_best [OF assms(2)] foldl_max_Max comp_def)
  also have "\<dots> = Max ((to_iverb \<circ> c_verb) ` set rs)"
    using assms(1) by (simp add: max_def)
  also have "\<dots> = to_iverb (worst_verb (set rs))"
    using assms(1) mono_Max_commute [of to_iverb "c_verb ` set rs"]
    by (simp add: worst_verb_def image_comp mono_def)
  finally show ?thesis .
qed

lemma find_has_verb: "rs \<noteq> [] \<Longrightarrow> \<exists>r. find (has_verb (worst_verb (set rs))) rs = Some r"
  using worst_verb_mem [of "set rs"] by (cases "find (has_verb (worst_verb (set rs))) rs") (auto simp: find_None_iff)

lemma foldCoverageRules_eq:
  assumes "rs \<noteq> []" "\<forall>r \<in> set rs. \<not> has_verb VerbDeny r"
  shows "foldCoverageRules rs = Some (covered_decision rs)"
proof -
  let ?v = "worst_verb (set rs)"
  note best = cover_best_worst [OF assms]
  obtain r where r: "find (has_verb ?v) rs = Some r" using find_has_verb [OF assms(1)] by blast
  have "?v \<noteq> VerbDeny" using worst_verb_mem [of "set rs"] assms by fastforce
  moreover have "first_elem rs = Some r" if "?v = VerbAllow"
  proof -
    have "c_verb x = VerbAllow" if "x \<in> set rs" for x
      using worst_verb_ge [of "set rs" x] that \<open>?v = VerbAllow\<close>
      by (cases "c_verb x") (simp_all add: less_eq_DecisionVerb_def)
    then show ?thesis using r assms(1) \<open>?v = VerbAllow\<close> by (cases rs) auto
  qed
  ultimately show ?thesis
    using r by (cases ?v) (simp_all add: foldCoverageRules_def covered_decision_def best Let_def
        cover_approve cover_audit cover_redirect first_elem_filter_name)
qed


section \<open>What a verdict means\<close>

text \<open>
  The declarative reading. An effect has slots: its objects, or the one slot of an effect without
  objects. A rule hits a slot when the effect's meta data and the slot's object match it. An
  effect is denied when a deny rule hits a slot, implicitly denied when a slot is hit by no rule,
  and otherwise gets the most restrictive verb of the rules that hit; a redirect with no unique
  source is an implicit deny. Only the set of rules matters.
\<close>

definition slots :: "Effect \<Rightarrow> nat list" where
  "slots e = (if e_Objects e = [] then [0] else [0..<length (e_Objects e)])"

definition slot_hit :: "db_env \<Rightarrow> Effect \<Rightarrow> compiledStatementRule \<Rightarrow> nat \<Rightarrow> bool" where
  "slot_hit env e r i \<longleftrightarrow> ruleMatchesEffectMeta r e \<and>
     (if e_Objects e \<noteq> [] then ruleMatchesObjectSlot env r e i \<noteq> None
      else if isResolvedOnlyFunctionEffect e then resolved_only_hit env r e
      else isObjectlessEffect e \<and> coversAllObjects r)"

definition rule_hits :: "db_env \<Rightarrow> Effect \<Rightarrow> compiledStatementRule \<Rightarrow> bool" where
  "rule_hits env e r \<longleftrightarrow> (\<exists>i \<in> set (slots e). slot_hit env e r i)"

definition redirect_sources :: "compiledStatementRule set \<Rightarrow> string set" where
  "redirect_sources R = {rd_SourceRelation rd | r rd. r \<in> R \<and> has_verb VerbRedirect r \<and> c_redirect r = Some rd}"

definition effect_spec :: "db_env \<Rightarrow> compiledStatementRule set \<Rightarrow> Effect \<Rightarrow> internalVerb" where
  "effect_spec env R e =
     (let H = {r \<in> R. rule_hits env e r} in
      if \<exists>r \<in> H. has_verb VerbDeny r then verbDeny
      else if \<exists>i \<in> set (slots e). \<forall>r \<in> R. \<not> slot_hit env e r i then verbImplicitDeny
      else if worst_verb H = VerbRedirect \<and> e_Objects e \<noteq> [] \<and> card (redirect_sources H) \<noteq> 1
      then verbImplicitDeny
      else to_iverb (worst_verb H))"

lemma slots_not_Nil [simp]: "slots e \<noteq> []"
  by (simp add: slots_def)

lemma slots_objects: "e_Objects e \<noteq> [] \<Longrightarrow> slots e = [0..<length (e_Objects e)]"
  by (simp add: slots_def)

lemma rule_hits_objects:
  "e_Objects e \<noteq> [] \<Longrightarrow> rule_hits env e r \<longleftrightarrow> (\<exists>i < length (e_Objects e). slot_hit env e r i)"
  by (auto simp: rule_hits_def slots_objects Bex_def)

lemma rule_hits_no_objects: "e_Objects e = [] \<Longrightarrow> rule_hits env e r \<longleftrightarrow> slot_hit env e r 0"
  by (simp add: rule_hits_def slots_def)

lemma effect_spec_deny:
  "\<exists>r \<in> R. has_verb VerbDeny r \<and> rule_hits env e r \<Longrightarrow> effect_spec env R e = verbDeny"
  by (auto simp: effect_spec_def Let_def)

lemma effect_spec_uncovered:
  "\<forall>r \<in> R. has_verb VerbDeny r \<longrightarrow> \<not> rule_hits env e r \<Longrightarrow>
   \<exists>i \<in> set (slots e). \<forall>r \<in> R. \<not> slot_hit env e r i \<Longrightarrow> effect_spec env R e = verbImplicitDeny"
  by (auto simp: effect_spec_def Let_def)

lemma effect_spec_covered:
  assumes "\<forall>r \<in> R. has_verb VerbDeny r \<longrightarrow> \<not> rule_hits env e r"
    and "\<forall>i \<in> set (slots e). \<exists>r \<in> R. slot_hit env e r i"
  shows "effect_spec env R e =
     (if worst_verb {r \<in> R. rule_hits env e r} = VerbRedirect \<and> e_Objects e \<noteq> [] \<and>
         card (redirect_sources {r \<in> R. rule_hits env e r}) \<noteq> 1
      then verbImplicitDeny else to_iverb (worst_verb {r \<in> R. rule_hits env e r}))"
proof -
  have "\<not> (\<exists>r \<in> {r \<in> R. rule_hits env e r}. has_verb VerbDeny r)"
    "\<not> (\<exists>i \<in> set (slots e). \<forall>r \<in> R. \<not> slot_hit env e r i)" using assms by blast+
  then show ?thesis unfolding effect_spec_def Let_def by (simp only: if_False)
qed

subsection \<open>The deny pass\<close>

lemma deny_pass_None_iff:
  "e_Objects e \<noteq> [] \<Longrightarrow>
     deny_pass env e rs = None \<longleftrightarrow> (\<forall>r \<in> set rs. has_verb VerbDeny r \<longrightarrow> \<not> rule_hits env e r)"
  by (induction rs)
     (auto simp: rule_hits_def slot_hit_def slots_objects find_None_iff find_Some_iff split: option.splits)

lemma deny_pass_SomeD:
  "e_Objects e \<noteq> [] \<Longrightarrow> deny_pass env e rs = Some d \<Longrightarrow>
     ed_verb d = verbDeny \<and> ed_rule d = find (\<lambda>r. has_verb VerbDeny r \<and> rule_hits env e r) rs"
proof (induction rs)
  case (Cons r rs)
  have hit: "has_verb VerbDeny r \<Longrightarrow> ruleMatchesEffectMeta r e \<Longrightarrow>
      find (\<lambda>i. ruleMatchesObjectSlot env r e i \<noteq> None) [0..<length (e_Objects e)] = None \<longleftrightarrow> \<not> rule_hits env e r"
    using Cons.prems(1) by (auto simp: rule_hits_def slot_hit_def slots_objects find_None_iff)
  have meta: "\<not> ruleMatchesEffectMeta r e \<Longrightarrow> \<not> rule_hits env e r"
    by (simp add: rule_hits_def slot_hit_def)
  show ?case
    using Cons hit meta by (auto simp: zeroEffectDecision_def split: if_splits option.splits)
qed simp

text \<open>The two paths for effects without objects have the same shape.\<close>

lemma no_object_pass:
  assumes "\<And>r. P r \<longleftrightarrow> rule_hits env e r"
  shows "(case find (\<lambda>r. has_verb VerbDeny r \<and> P r) app of
        Some r \<Rightarrow> Some (zeroEffectDecision\<lparr>ed_verb := verbDeny, ed_rule := Some r\<rparr>)
      | None \<Rightarrow>
          let coverage = filter (\<lambda>r. \<not> has_verb VerbDeny r \<and> P r) app in
          if coverage = [] then Some (zeroEffectDecision\<lparr>ed_verb := verbImplicitDeny\<rparr>)
          else foldCoverageRules coverage) =
     (if \<exists>r \<in> set app. has_verb VerbDeny r \<and> rule_hits env e r
      then Some (zeroEffectDecision\<lparr>ed_verb := verbDeny,
             ed_rule := find (\<lambda>r. has_verb VerbDeny r \<and> rule_hits env e r) app\<rparr>)
      else if \<forall>r \<in> set app. \<not> rule_hits env e r
      then Some (zeroEffectDecision\<lparr>ed_verb := verbImplicitDeny\<rparr>)
      else Some (covered_decision (filter (rule_hits env e) app)))"
proof (cases "\<exists>r \<in> set app. has_verb VerbDeny r \<and> rule_hits env e r")
  case True
  then show ?thesis by (auto simp: assms find_None_iff split: option.splits)
next
  case False
  then have "find (\<lambda>r. has_verb VerbDeny r \<and> P r) app = None" by (auto simp: assms find_None_iff)
  moreover have "filter (\<lambda>r. \<not> has_verb VerbDeny r \<and> P r) app = filter (rule_hits env e) app"
    using False by (intro filter_cong) (auto simp: assms)
  moreover have "foldCoverageRules (filter (rule_hits env e) app) = Some (covered_decision (filter (rule_hits env e) app))"
    if "filter (rule_hits env e) app \<noteq> []"
    using that False by (intro foldCoverageRules_eq) auto
  ultimately show ?thesis using False by (auto simp: filter_empty_conv)
qed

subsection \<open>Coverage of the object slots\<close>

lemma slot_coverage_set:
  "e_Objects e \<noteq> [] \<Longrightarrow>
     set (slot_coverage env app e i) = {r \<in> set app. \<not> has_verb VerbDeny r \<and> slot_hit env e r i}"
  by (auto simp: slot_coverage_def slot_hit_def)

lemma coverage_policy_order:
  assumes "e_Objects e \<noteq> []" "\<forall>r \<in> set app. has_verb VerbDeny r \<longrightarrow> \<not> rule_hits env e r"
  shows "coverageRulesInPolicyOrder app (map (slot_coverage env app e) [0..<length (e_Objects e)]) =
     filter (rule_hits env e) app"
  unfolding coverageRulesInPolicyOrder_def Let_def
  using assms by (intro filter_cong refl) (auto simp: slot_coverage_set rule_hits_def slots_objects)

lemma set_redirect_source:
  "s \<in> set (redirect_source r) \<longleftrightarrow>
     has_verb VerbRedirect r \<and> (\<exists>rd. c_redirect r = Some rd \<and> s = rd_SourceRelation rd)"
  by (cases "c_redirect r") (auto simp: redirect_source_def)

lemma redirectSourceCount_eq:
  assumes "e_Objects e \<noteq> []"
  shows "redirectSourceCount (map (slot_coverage env app e) [0..<length (e_Objects e)]) =
     card (redirect_sources {r \<in> set app. rule_hits env e r})"
proof -
  have "set (concat (map (\<lambda>rs. concat (map redirect_source rs))
         (map (slot_coverage env app e) [0..<length (e_Objects e)]))) =
      redirect_sources {r \<in> set app. rule_hits env e r}"
    using assms
    by (fastforce simp: redirect_sources_def set_redirect_source slot_coverage_set rule_hits_objects)
  then show ?thesis by (simp only: redirectSourceCount_def)
qed
subsection \<open>The evaluator implements the reading\<close>

lemma evaluateEffect_no_objects:
  assumes "e_Objects e = []"
  shows "evaluateEffect env e app =
     (if \<exists>r \<in> set app. has_verb VerbDeny r \<and> rule_hits env e r
      then Some (zeroEffectDecision\<lparr>ed_verb := verbDeny,
             ed_rule := find (\<lambda>r. has_verb VerbDeny r \<and> rule_hits env e r) app\<rparr>)
      else if \<forall>r \<in> set app. \<not> rule_hits env e r
      then Some (zeroEffectDecision\<lparr>ed_verb := verbImplicitDeny\<rparr>)
      else Some (covered_decision (filter (rule_hits env e) app)))"
proof -
  note hits = rule_hits_no_objects [OF assms] slot_hit_def
  show ?thesis
  proof (cases "isResolvedOnlyFunctionEffect e")
    case True
    then show ?thesis using assms
      unfolding evaluateEffect_def evaluateEffectResolvedOnly_def
      by (subst no_object_pass [of _ env e]) (simp_all add: hits)
  next
    case False
    then show ?thesis
    proof (cases "isObjectlessEffect e")
      case True
      then show ?thesis using False assms
        unfolding evaluateEffect_def evaluateEffectObjectless_def
        by (subst no_object_pass [of _ env e]) (simp_all add: hits)
    next
      case F: False
      with False assms show ?thesis by (simp add: evaluateEffect_def hits)
    qed
  qed
qed

lemma evaluateEffect_deny:
  assumes "\<exists>r \<in> set app. has_verb VerbDeny r \<and> rule_hits env e r"
  shows "\<exists>d. evaluateEffect env e app = Some d \<and> ed_verb d = verbDeny \<and>
     ed_rule d = find (\<lambda>r. has_verb VerbDeny r \<and> rule_hits env e r) app"
proof (cases "e_Objects e = []")
  case False
  then obtain d where d: "deny_pass env e app = Some d" using deny_pass_None_iff [of e env app] assms by auto
  then show ?thesis using False deny_pass_SomeD [OF False d] by (simp add: evaluateEffect_def)
next
  case True
  then show ?thesis using assms by (simp add: evaluateEffect_no_objects)
qed

lemma evaluateEffect_uncovered:
  assumes "\<forall>r \<in> set app. has_verb VerbDeny r \<longrightarrow> \<not> rule_hits env e r"
    and "\<exists>i \<in> set (slots e). \<forall>r \<in> set app. \<not> slot_hit env e r i"
  shows "\<exists>d. evaluateEffect env e app = Some d \<and> ed_verb d = verbImplicitDeny"
proof (cases "e_Objects e = []")
  case False
  have pass: "deny_pass env e app = None" using assms(1) by (simp add: deny_pass_None_iff [OF False])
  from assms(2) False obtain i where i: "i < length (e_Objects e)" "slot_coverage env app e i = []"
    using slot_coverage_set [OF False, of env app] by (fastforce simp: slots_objects simp flip: set_empty)
  then obtain j where "find (\<lambda>i. map (slot_coverage env app e) [0..<length (e_Objects e)] ! i = [])
      [0..<length (e_Objects e)] = Some j"
    by (cases "find (\<lambda>i. map (slot_coverage env app e) [0..<length (e_Objects e)] ! i = [])
      [0..<length (e_Objects e)]") (auto simp: find_None_iff)
  then show ?thesis using False by (simp add: evaluateEffect_def pass Let_def)
next
  case True
  then have "\<forall>r \<in> set app. \<not> rule_hits env e r" using assms(2) by (simp add: rule_hits_def slots_def)
  then show ?thesis using True assms(1) by (simp add: evaluateEffect_no_objects)
qed

lemma evaluateEffect_covered:
  assumes "\<forall>r \<in> set app. has_verb VerbDeny r \<longrightarrow> \<not> rule_hits env e r"
    and "\<forall>i \<in> set (slots e). \<exists>r \<in> set app. slot_hit env e r i"
  shows "filter (rule_hits env e) app \<noteq> []"
    and "evaluateEffect env e app =
     (if worst_verb {r \<in> set app. rule_hits env e r} = VerbRedirect \<and> e_Objects e \<noteq> [] \<and>
         card (redirect_sources {r \<in> set app. rule_hits env e r}) \<noteq> 1
      then Some (zeroEffectDecision\<lparr>ed_verb := verbImplicitDeny\<rparr>)
      else Some (covered_decision (filter (rule_hits env e) app)))"
proof -
  let ?rs = "filter (rule_hits env e) app"
  obtain i where "i \<in> set (slots e)" by (cases "slots e") auto
  then show ne: "?rs \<noteq> []" using assms(2) unfolding filter_empty_conv rule_hits_def by blast
  have fold: "foldCoverageRules ?rs = Some (covered_decision ?rs)"
    using ne assms(1) by (intro foldCoverageRules_eq) auto
  have verb: "ed_verb (covered_decision ?rs) = verbRedirect \<longleftrightarrow>
      worst_verb {r \<in> set app. rule_hits env e r} = VerbRedirect"
    by (cases "worst_verb {r \<in> set app. rule_hits env e r}") (simp_all add: covered_decision_def)
  show "evaluateEffect env e app =
     (if worst_verb {r \<in> set app. rule_hits env e r} = VerbRedirect \<and> e_Objects e \<noteq> [] \<and>
         card (redirect_sources {r \<in> set app. rule_hits env e r}) \<noteq> 1
      then Some (zeroEffectDecision\<lparr>ed_verb := verbImplicitDeny\<rparr>)
      else Some (covered_decision ?rs))"
  proof (cases "e_Objects e = []")
    case True
    then show ?thesis using assms ne by (auto simp: evaluateEffect_no_objects filter_empty_conv)
  next
    case False
    have "deny_pass env e app = None" using assms(1) by (simp add: deny_pass_None_iff [OF False])
    moreover have "find (\<lambda>i. map (slot_coverage env app e) [0..<length (e_Objects e)] ! i = [])
        [0..<length (e_Objects e)] = None"
    proof -
      have "slot_coverage env app e i \<noteq> []" if "i < length (e_Objects e)" for i
      proof -
        have "i \<in> set (slots e)" using that False by (simp add: slots_objects)
        with assms(2) obtain r where r: "r \<in> set app" "slot_hit env e r i" by blast
        then have "rule_hits env e r" using that False by (auto simp: rule_hits_objects)
        then have "r \<in> set (slot_coverage env app e i)"
          using r assms(1) by (auto simp: slot_coverage_set [OF False])
        then show ?thesis by auto
      qed
      then show ?thesis by (simp add: find_None_iff)
    qed
    ultimately show ?thesis
      using False fold verb assms(1)
      by (simp add: evaluateEffect_def Let_def foldObjectCoverageRules_def coverage_policy_order
          redirectSourceCount_eq)
  qed
qed

lemma evaluateEffect_spec:
  "\<exists>d. evaluateEffect env e app = Some d \<and> ed_verb d = effect_spec env (set app) e"
proof (cases "\<exists>r \<in> set app. has_verb VerbDeny r \<and> rule_hits env e r")
  case True
  then show ?thesis using evaluateEffect_deny [OF True] effect_spec_deny by metis
next
  case no_deny: False
  then have nd: "\<forall>r \<in> set app. has_verb VerbDeny r \<longrightarrow> \<not> rule_hits env e r" by blast
  show ?thesis
  proof (cases "\<exists>i \<in> set (slots e). \<forall>r \<in> set app. \<not> slot_hit env e r i")
    case True
    then show ?thesis using evaluateEffect_uncovered [OF nd True] effect_spec_uncovered [OF nd True] by simp
  next
    case False
    then have cov: "\<forall>i \<in> set (slots e). \<exists>r \<in> set app. slot_hit env e r i" by blast
    have "ed_verb (covered_decision (filter (rule_hits env e) app)) =
        to_iverb (worst_verb {r \<in> set app. rule_hits env e r})"
      by (simp add: covered_decision_def)
    then show ?thesis unfolding evaluateEffect_covered(2) [OF nd cov] effect_spec_covered [OF nd cov]
      by simp
  qed
qed

section \<open>Statements\<close>

fun public_verb :: "internalVerb \<Rightarrow> DecisionVerb" where
  "public_verb verbAllow = VerbAllow"
| "public_verb verbAudit = VerbAudit"
| "public_verb verbRedirect = VerbRedirect"
| "public_verb verbApprove = VerbApprove"
| "public_verb verbImplicitDeny = VerbDeny"
| "public_verb verbDeny = VerbDeny"

lemma public_to_iverb [simp]: "public_verb (to_iverb v) = v"
  by (cases v) simp_all

lemma public_verb_mono: "v \<le> w \<Longrightarrow> public_verb v \<le> public_verb w"
  by (cases v; cases w) (simp_all add: less_eq_internalVerb_def less_eq_DecisionVerb_def)

lemma public_verb_deny_iff: "public_verb v = VerbDeny \<longleftrightarrow> verbImplicitDeny \<le> v"
  by (cases v) (simp_all add: less_eq_internalVerb_def)

interpretation effect_scan: worst_scan "\<lambda>i. ed_verb (pe ! i)" "bestIdx_loop pe" for pe
  by unfold_locales (simp_all add: compareInternalVerb_def)

lemma bestIdx_first_max:
  assumes "pe \<noteq> []" and b: "b = bestIdx_loop pe 0 [1..<length pe]"
  shows "b < length pe" "i < length pe \<Longrightarrow> ed_verb (pe ! i) \<le> ed_verb (pe ! b)"
    "i < b \<Longrightarrow> ed_verb (pe ! i) < ed_verb (pe ! b)"
proof -
  have idx: "0 # [1..<length pe] = [0..<length pe]" using assms(1) by (simp add: upt_conv_Cons)
  show "b < length pe" using effect_scan.scan_mem [of pe 0 "[1..<length pe]"] unfolding idx b by simp
  show "i < length pe \<Longrightarrow> ed_verb (pe ! i) \<le> ed_verb (pe ! b)"
    using effect_scan.scan_max [of i 0 "[1..<length pe]" pe] unfolding idx b by simp
  obtain ys zs where ys: "[0..<length pe] = ys @ b # zs" "\<forall>y \<in> set ys. ed_verb (pe ! y) < ed_verb (pe ! b)"
    using effect_scan.scan_first [of 0 "[1..<length pe]" pe] unfolding idx b by blast
  have "length ys < length [0..<length pe]" by (simp only: ys(1)) simp
  then have "b = length ys" using arg_cong [OF ys(1), of "\<lambda>xs. xs ! length ys"] by (simp add: nth_append)
  moreover have "take (length ys) [0..<length pe] = ys" by (simp only: ys(1)) simp
  ultimately have "ys = [0..<b]" using \<open>b < length pe\<close> by (simp add: take_upt)
  then show "i < b \<Longrightarrow> ed_verb (pe ! i) < ed_verb (pe ! b)" using ys(2) by simp
qed

text \<open>A verdict carries what \<open>foldEffects\<close> dereferences.\<close>

definition wf_verdict :: "effectDecision \<Rightarrow> bool" where
  "wf_verdict d \<longleftrightarrow> (ed_verb d \<noteq> verbImplicitDeny \<longrightarrow> ed_rule d \<noteq> None) \<and>
     (ed_verb d = verbApprove \<longrightarrow> ed_contributingApprove d \<noteq> [])"

lemma to_iverb_eq_approve [simp]: "to_iverb v = verbApprove \<longleftrightarrow> v = VerbApprove"
  by (cases v) simp_all

lemma covered_decision_wf: "rs \<noteq> [] \<Longrightarrow> wf_verdict (covered_decision rs)"
proof -
  assume "rs \<noteq> []"
  then obtain r where r: "find (has_verb (worst_verb (set rs))) rs = Some r" using find_has_verb by blast
  have "worst_verb (set rs) = VerbApprove \<Longrightarrow> first_by_name {} (filter (has_verb VerbApprove) rs) \<noteq> []"
    using r first_elem_filter_name [of "has_verb VerbApprove" rs] by auto
  then show ?thesis using r by (simp add: wf_verdict_def covered_decision_def)
qed

lemma evaluateEffect_wf: "evaluateEffect env e app = Some d \<Longrightarrow> wf_verdict d"
proof -
  assume d: "evaluateEffect env e app = Some d"
  consider "\<exists>r \<in> set app. has_verb VerbDeny r \<and> rule_hits env e r"
    | (u) "\<forall>r \<in> set app. has_verb VerbDeny r \<longrightarrow> \<not> rule_hits env e r"
          "\<exists>i \<in> set (slots e). \<forall>r \<in> set app. \<not> slot_hit env e r i"
    | (c) "\<forall>r \<in> set app. has_verb VerbDeny r \<longrightarrow> \<not> rule_hits env e r"
          "\<forall>i \<in> set (slots e). \<exists>r \<in> set app. slot_hit env e r i" by blast
  then show ?thesis
  proof cases
    case 1
    then show ?thesis using evaluateEffect_deny [OF 1] d by (auto simp: wf_verdict_def find_None_iff)
  next
    case u
    then show ?thesis using evaluateEffect_uncovered [OF u] d by (auto simp: wf_verdict_def)
  next
    case c
    then show ?thesis using evaluateEffect_covered [OF c] d covered_decision_wf
      by (auto simp: wf_verdict_def zeroEffectDecision_def split: if_splits)
  qed
qed

definition verdicts :: "db_env \<Rightarrow> compiledStatementRule list \<Rightarrow> ClassifiedStatement \<Rightarrow> effectDecision list" where
  "verdicts env app stmt = map (\<lambda>e. the (evaluateEffect env e app)) (cs_Effects stmt)"

definition decider :: "db_env \<Rightarrow> compiledStatementRule list \<Rightarrow> ClassifiedStatement \<Rightarrow> nat" where
  "decider env app stmt = bestIdx_loop (verdicts env app stmt) 0 [1..<length (cs_Effects stmt)]"

lemma verdict_nth:
  "i < length (cs_Effects stmt) \<Longrightarrow>
     evaluateEffect env (cs_Effects stmt ! i) app = Some (verdicts env app stmt ! i) \<and>
     ed_verb (verdicts env app stmt ! i) = effect_spec env (set app) (cs_Effects stmt ! i)"
  using evaluateEffect_spec [of env "cs_Effects stmt ! i" app] by (auto simp: verdicts_def)

lemma collect_map: "(\<And>x. x \<in> set xs \<Longrightarrow> f x = Some (g x)) \<Longrightarrow> collect (map f xs) = Some (map g xs)"
  by (induction xs) auto

lemma Evaluate_foldEffects:
  "cs_Effects stmt \<noteq> [] \<Longrightarrow>
     Evaluate env stmt (Some s) svc = foldEffects env stmt (verdicts env (statementRulesFor s svc) stmt)"
proof -
  let ?app = "statementRulesFor s svc"
  have "collect (map (\<lambda>e. evaluateEffect env e ?app) (cs_Effects stmt)) = Some (verdicts env ?app stmt)"
    unfolding verdicts_def
    by (rule collect_map) (metis evaluateEffect_spec option.sel)
  then show "cs_Effects stmt \<noteq> [] \<Longrightarrow> ?thesis" by (simp add: Evaluate_def Let_def)
qed

lemma decider_first_max:
  assumes "cs_Effects stmt \<noteq> []"
  shows "decider env app stmt < length (cs_Effects stmt)"
    "e \<in> set (cs_Effects stmt) \<Longrightarrow>
       effect_spec env (set app) e \<le> effect_spec env (set app) (cs_Effects stmt ! decider env app stmt)"
    "i < decider env app stmt \<Longrightarrow>
       effect_spec env (set app) (cs_Effects stmt ! i) <
       effect_spec env (set app) (cs_Effects stmt ! decider env app stmt)"
proof -
  have ne: "verdicts env app stmt \<noteq> []" and len: "length (verdicts env app stmt) = length (cs_Effects stmt)"
    using assms by (simp_all add: verdicts_def)
  have b: "decider env app stmt = bestIdx_loop (verdicts env app stmt) 0 [1..<length (verdicts env app stmt)]"
    by (simp add: decider_def len)
  note best = bestIdx_first_max [OF ne b]
  show lt: "decider env app stmt < length (cs_Effects stmt)" using best(1) by (simp add: len)
  show "e \<in> set (cs_Effects stmt) \<Longrightarrow>
       effect_spec env (set app) e \<le> effect_spec env (set app) (cs_Effects stmt ! decider env app stmt)"
    using best(2) lt verdict_nth [of _ stmt env app] by (metis in_set_conv_nth len)
  show "i < decider env app stmt \<Longrightarrow>
       effect_spec env (set app) (cs_Effects stmt ! i) <
       effect_spec env (set app) (cs_Effects stmt ! decider env app stmt)"
    using best(3) lt verdict_nth [of _ stmt env app] by (metis less_trans)
qed

lemma Max_decider:
  assumes "cs_Effects stmt \<noteq> []"
  shows "effect_spec env (set app) (cs_Effects stmt ! decider env app stmt) =
     Max (effect_spec env (set app) ` set (cs_Effects stmt))"
  using decider_first_max [OF assms, where env = env and app = app] by (intro Max_eqI [symmetric]) auto

lemma foldEffects_verdict:
  assumes "cs_Effects stmt \<noteq> []" and b: "b = decider env app stmt" and v: "v = verdicts env app stmt ! b"
  shows "\<exists>d. foldEffects env stmt (verdicts env app stmt) = Some d \<and>
     d_Verb d = public_verb (ed_verb v) \<and> d_RuleKind d = RuleKindStatement \<and>
     d_MatchingEffectIndex d = int b \<and> d_MatchingEffectGroup d = e_Group (cs_Effects stmt ! b) \<and>
     d_RuleName d = (if ed_verb v = verbImplicitDeny then '''' else sr_Name (c_src (the (ed_rule v)))) \<and>
     d_Redirect d = (if ed_verb v = verbRedirect then copyRedirectDecision (c_redirect (the (ed_rule v))) else None) \<and>
     d_Approval d = (if ed_verb v = verbApprove then Some \<lparr>
         ar_Timeout = timeout_loop (c_timeout (hd (ed_contributingApprove v))) (ed_contributingApprove v),
         ar_ContributingApproveRules = map (\<lambda>x. sr_Name (c_src x)) (ed_contributingApprove v)\<rparr> else None)"
proof -
  have lt: "b < length (cs_Effects stmt)" using decider_first_max(1) [OF assms(1)] b by simp
  have len: "length (verdicts env app stmt) = length (cs_Effects stmt)" by (simp add: verdicts_def)
  have ne: "verdicts env app stmt \<noteq> []" using assms(1) by (simp add: verdicts_def)
  have wf: "wf_verdict v" using verdict_nth [OF lt, of env app] evaluateEffect_wf v by blast
  have best: "bestIdx_loop (verdicts env app stmt) 0 [Suc 0..<length (cs_Effects stmt)] = b"
    by (simp add: b decider_def)
  note unf = foldEffects_def ne len best v [symmetric] Let_def rule_decision_def zeroDecision_def
  show ?thesis
  proof (cases "ed_verb v = verbImplicitDeny")
    case True
    then show ?thesis using lt by (simp add: unf implicitDeny_def)
  next
    case False
    with wf obtain r where r: "ed_rule v = Some r" by (auto simp: wf_verdict_def)
    show ?thesis
    proof (cases "ed_verb v = verbApprove")
      case True
      with wf obtain a as where "ed_contributingApprove v = a # as" by (cases "ed_contributingApprove v") (auto simp: wf_verdict_def)
      then show ?thesis using True r by (simp add: unf)
    next
      case False
      with \<open>ed_verb v \<noteq> verbImplicitDeny\<close> show ?thesis using r by (cases "ed_verb v") (simp_all add: unf)
    qed
  qed
qed

lemma Evaluate_Some_verb:
  assumes "cs_Effects stmt \<noteq> []"
  shows "\<exists>d. Evaluate env stmt (Some s) svc = Some d \<and>
     d_Verb d = public_verb (Max (effect_spec env (set (statementRulesFor s svc)) ` set (cs_Effects stmt)))"
proof -
  let ?app = "statementRulesFor s svc"
  note lt = decider_first_max(1) [OF assms, of env ?app]
  show ?thesis
    using foldEffects_verdict [OF assms refl refl, where env = env and app = ?app]
      verdict_nth [OF lt, where env = env and app = ?app]
    by (auto simp: Evaluate_foldEffects [OF assms] Max_decider [OF assms])
qed

lemma Evaluate_rs_None: "Evaluate env stmt None svc = Some (implicitDeny stmt 0 ''policy not loaded'')"
  by (simp add: Evaluate_def)

lemma Evaluate_no_effects:
  "cs_Effects stmt = [] \<Longrightarrow> Evaluate env stmt (Some s) svc = Some (implicitDeny stmt 0 ''no effects on statement'')"
  by (simp add: Evaluate_def)

lemma implicitDeny_sel [simp]: "d_Verb (implicitDeny stmt i reason) = VerbDeny" "d_RuleName (implicitDeny stmt i reason) = ''''"
  by (simp_all add: implicitDeny_def zeroDecision_def Let_def)

text \<open>An effect that is not denied is covered: what the verdict of one effect says about the rules.\<close>

lemma effect_spec_not_denied:
  assumes "effect_spec env R e < verbImplicitDeny"
  shows "\<forall>r \<in> R. has_verb VerbDeny r \<longrightarrow> \<not> rule_hits env e r"
    "\<forall>i \<in> set (slots e). \<exists>r \<in> R. \<not> has_verb VerbDeny r \<and> slot_hit env e r i"
proof -
  have "\<not> verbDeny < verbImplicitDeny" by (simp add: less_internalVerb_def)
  then show nd: "\<forall>r \<in> R. has_verb VerbDeny r \<longrightarrow> \<not> rule_hits env e r"
    using assms effect_spec_deny [of R env e] by metis
  then show "\<forall>i \<in> set (slots e). \<exists>r \<in> R. \<not> has_verb VerbDeny r \<and> slot_hit env e r i"
    using assms effect_spec_uncovered [OF nd] unfolding rule_hits_def by (metis less_irrefl)
qed

lemma effect_spec_denyD:
  assumes "effect_spec env R e = verbDeny" "finite R"
  shows "\<exists>r \<in> R. has_verb VerbDeny r \<and> rule_hits env e r"
proof (rule ccontr)
  assume no: "\<not> ?thesis"
  then have nd: "\<forall>r \<in> R. has_verb VerbDeny r \<longrightarrow> \<not> rule_hits env e r" by blast
  let ?H = "{r \<in> R. rule_hits env e r}"
  have cov: "\<forall>i \<in> set (slots e). \<exists>r \<in> R. slot_hit env e r i"
    using assms(1) effect_spec_uncovered [OF nd] by fastforce
  have "worst_verb ?H = VerbDeny"
    using assms(1) unfolding effect_spec_covered [OF nd cov] by (auto split: if_splits)
  moreover have "?H \<noteq> {}" using cov by (cases "slots e") (auto simp: rule_hits_def)
  ultimately show False using worst_verb_mem [of ?H] assms(2) nd by auto
qed

lemma effect_spec_le_deny: "effect_spec env R e \<le> verbDeny"
  by (cases "effect_spec env R e") (simp_all add: less_eq_internalVerb_def)

lemma Evaluate_not_deny:
  assumes "Evaluate env stmt rs svc = Some d" "d_Verb d \<noteq> VerbDeny"
  obtains s where "rs = Some s" "cs_Effects stmt \<noteq> []"
    "\<And>e. e \<in> set (cs_Effects stmt) \<Longrightarrow> effect_spec env (set (statementRulesFor s svc)) e < verbImplicitDeny"
proof -
  obtain s where s: "rs = Some s" using assms by (cases rs) (auto simp: Evaluate_rs_None)
  have ne: "cs_Effects stmt \<noteq> []" using assms s by (auto simp: Evaluate_no_effects)
  let ?S = "effect_spec env (set (statementRulesFor s svc)) ` set (cs_Effects stmt)"
  have "Max ?S < verbImplicitDeny"
    using Evaluate_Some_verb [OF ne, of env s svc] assms s by (auto simp: public_verb_deny_iff not_le)
  then show thesis using s ne by (intro that) (auto simp: Max_less_iff)
qed

text \<open>Adding deny rules to a rule set moves an effect's verdict only to deny.\<close>

lemma effect_spec_add_deny:
  assumes "\<forall>r \<in> D. has_verb VerbDeny r"
  shows "effect_spec env (R \<union> D) e = verbDeny \<or> effect_spec env (R \<union> D) e = effect_spec env R e"
proof (cases "\<exists>r \<in> R \<union> D. has_verb VerbDeny r \<and> rule_hits env e r")
  case True
  then show ?thesis using effect_spec_deny by blast
next
  case False
  then have "\<forall>r \<in> D. \<not> rule_hits env e r" using assms by blast
  then have "{r \<in> R \<union> D. rule_hits env e r} = {r \<in> R. rule_hits env e r}"
    and "\<And>i. i \<in> set (slots e) \<Longrightarrow> (\<forall>r \<in> R \<union> D. \<not> slot_hit env e r i) \<longleftrightarrow> (\<forall>r \<in> R. \<not> slot_hit env e r i)"
    by (auto simp: rule_hits_def)
  then show ?thesis by (simp add: effect_spec_def Let_def cong: bex_cong)
qed


section \<open>Approval and redirect details\<close>

lemma timeout_loop_Min: "timeout_loop t rs = Min (insert t (c_timeout ` set rs))"
proof (induction rs arbitrary: t)
  case (Cons r rs)
  have "(if c_timeout r < t then c_timeout r else t) = min t (c_timeout r)" by auto
  then show ?case using Cons by (cases "rs = []") (simp_all add: min.assoc)
qed simp

lemma first_by_name_distinct:
  "distinct (map (\<lambda>r. sr_Name (c_src r)) rs) \<Longrightarrow> seen \<inter> (\<lambda>r. sr_Name (c_src r)) ` set rs = {} \<Longrightarrow>
     first_by_name seen rs = rs"
  by (induction rs arbitrary: seen) auto

lemma set_first_by_name: "set (first_by_name seen rs) \<subseteq> set rs"
  by (induction rs arbitrary: seen) auto

lemma distinct_names_filter:
  "distinct (map f xs) \<Longrightarrow> distinct (map f (filter P xs))"
  by (simp add: distinct_map_filter)

lemma set_statementRulesFor: "set (statementRulesFor s svc) \<subseteq> set (rs_statement s)"
  by (auto simp: statementRulesFor_def Let_def)

lemma statementRulesFor_names:
  "distinct (map (\<lambda>r. sr_Name (c_src r)) (rs_statement s)) \<Longrightarrow>
   distinct (map (\<lambda>r. sr_Name (c_src r)) (statementRulesFor s svc))"
  by (simp add: statementRulesFor_def Let_def distinct_names_filter)

text \<open>The verdict of the effect that decides a statement which is not denied.\<close>

lemma verdict_covered:
  assumes "evaluateEffect env e app = Some v" "ed_verb v < verbImplicitDeny"
  shows "v = covered_decision (filter (rule_hits env e) app)"
    "filter (rule_hits env e) app \<noteq> []"
    "worst_verb {r \<in> set app. rule_hits env e r} = VerbRedirect \<longrightarrow> e_Objects e \<noteq> [] \<longrightarrow>
       card (redirect_sources {r \<in> set app. rule_hits env e r}) = 1"
proof -
  have lt: "effect_spec env (set app) e < verbImplicitDeny"
    using evaluateEffect_spec [of env e app] assms by auto
  note nd = effect_spec_not_denied(1) [OF lt]
  have cov: "\<forall>i \<in> set (slots e). \<exists>r \<in> set app. slot_hit env e r i"
    using effect_spec_not_denied(2) [OF lt] by blast
  note eq = evaluateEffect_covered [OF nd cov]
  show "filter (rule_hits env e) app \<noteq> []" by (rule eq(1))
  have *: "\<not> (worst_verb {r \<in> set app. rule_hits env e r} = VerbRedirect \<and> e_Objects e \<noteq> [] \<and>
         card (redirect_sources {r \<in> set app. rule_hits env e r}) \<noteq> 1)"
    using assms eq(2) by (auto split: if_splits)
  then show "v = covered_decision (filter (rule_hits env e) app)" using assms(1) eq(2) by (simp only: if_False) simp
  show "worst_verb {r \<in> set app. rule_hits env e r} = VerbRedirect \<longrightarrow> e_Objects e \<noteq> [] \<longrightarrow>
       card (redirect_sources {r \<in> set app. rule_hits env e r}) = 1" using * by blast
qed

text \<open>Everything a decision that is not a denial says, by the effect at its index.\<close>

lemma Evaluate_decision:
  assumes ev: "Evaluate env stmt (Some s) svc = Some d" and nd: "d_Verb d \<noteq> VerbDeny"
    and rs: "rs = filter (rule_hits env (cs_Effects stmt ! nat (d_MatchingEffectIndex d))) (statementRulesFor s svc)"
  shows "0 \<le> d_MatchingEffectIndex d \<and> nat (d_MatchingEffectIndex d) < length (cs_Effects stmt)"
    "rs \<noteq> []" "d_Verb d = worst_verb (set rs)"
    "d_RuleName d = sr_Name (c_src (the (find (has_verb (d_Verb d)) rs)))"
    "d_Redirect d = (if d_Verb d = VerbRedirect then c_redirect (the (find (has_verb VerbRedirect) rs)) else None)"
    "d_Verb d = VerbApprove \<longrightarrow> d_Approval d = Some \<lparr>
       ar_Timeout = Min (c_timeout ` set (first_by_name {} (filter (has_verb VerbApprove) rs))),
       ar_ContributingApproveRules = map (\<lambda>x. sr_Name (c_src x)) (first_by_name {} (filter (has_verb VerbApprove) rs))\<rparr>"
    "d_Verb d = VerbRedirect \<longrightarrow> e_Objects (cs_Effects stmt ! nat (d_MatchingEffectIndex d)) \<noteq> [] \<longrightarrow>
       card (redirect_sources (set rs)) = 1"
proof -
  let ?app = "statementRulesFor s svc"
  let ?b = "decider env ?app stmt"
  let ?v = "verdicts env ?app stmt ! ?b"
  have ne: "cs_Effects stmt \<noteq> []" using ev nd by (auto simp: Evaluate_no_effects)
  note lt = decider_first_max(1) [OF ne, of env ?app]
  have d: "d_Verb d = public_verb (ed_verb ?v)" "d_MatchingEffectIndex d = int ?b"
     "d_RuleName d = (if ed_verb ?v = verbImplicitDeny then '''' else sr_Name (c_src (the (ed_rule ?v))))"
     "d_Redirect d = (if ed_verb ?v = verbRedirect then copyRedirectDecision (c_redirect (the (ed_rule ?v))) else None)"
     "d_Approval d = (if ed_verb ?v = verbApprove then Some \<lparr>
         ar_Timeout = timeout_loop (c_timeout (hd (ed_contributingApprove ?v))) (ed_contributingApprove ?v),
         ar_ContributingApproveRules = map (\<lambda>x. sr_Name (c_src x)) (ed_contributingApprove ?v)\<rparr> else None)"
    using foldEffects_verdict [OF ne refl refl, where env = env and app = ?app] ev
    by (simp_all add: Evaluate_foldEffects [OF ne])
  have low: "ed_verb ?v < verbImplicitDeny" using nd d(1) by (simp add: public_verb_deny_iff not_le)
  have idx: "nat (d_MatchingEffectIndex d) = ?b" using d(2) by simp
  have "evaluateEffect env (cs_Effects stmt ! ?b) ?app = Some ?v" using verdict_nth [OF lt] by blast
  note v = verdict_covered [OF this low, folded rs [unfolded idx]]
  show "0 \<le> d_MatchingEffectIndex d \<and> nat (d_MatchingEffectIndex d) < length (cs_Effects stmt)"
    using d(2) lt by simp
  show "rs \<noteq> []" by (rule v(2))
  show verb: "d_Verb d = worst_verb (set rs)" using d(1) v(1) by (simp add: covered_decision_def)
  show "d_RuleName d = sr_Name (c_src (the (find (has_verb (d_Verb d)) rs)))"
    unfolding verb using d(3) v(1) by (simp add: covered_decision_def)
  have copy: "copyRedirectDecision x = x" for x by (cases x) (simp_all add: copyRedirectDecision_def)
  show "d_Redirect d = (if d_Verb d = VerbRedirect then c_redirect (the (find (has_verb VerbRedirect) rs)) else None)"
    unfolding verb using d(4) v(1) by (simp add: covered_decision_def copy)
  have H: "{r \<in> set ?app. rule_hits env (cs_Effects stmt ! ?b) r} = set rs" by (simp add: rs idx)
  show "d_Verb d = VerbRedirect \<longrightarrow> e_Objects (cs_Effects stmt ! nat (d_MatchingEffectIndex d)) \<noteq> [] \<longrightarrow>
       card (redirect_sources (set rs)) = 1" unfolding verb idx using v(3) unfolding H .
  let ?as = "first_by_name {} (filter (has_verb VerbApprove) rs)"
  have "d_Verb d = VerbApprove \<Longrightarrow> ?as \<noteq> []"
    using covered_decision_wf [OF v(2)] verb by (simp add: wf_verdict_def covered_decision_def)
  then have "d_Verb d = VerbApprove \<Longrightarrow> timeout_loop (c_timeout (hd ?as)) ?as = Min (c_timeout ` set ?as)"
    by (simp add: timeout_loop_Min insert_absorb)
  then show "d_Verb d = VerbApprove \<longrightarrow> d_Approval d = Some \<lparr>
       ar_Timeout = Min (c_timeout ` set ?as), ar_ContributingApproveRules = map (\<lambda>x. sr_Name (c_src x)) ?as\<rparr>"
    using d(5) v(1) verb by (simp add: covered_decision_def)
qed


section \<open>Properties\<close>

lemma Evaluate_total: "\<exists>d. Evaluate env stmt rs svc = Some d"
proof (cases rs)
  case (Some s)
  then show ?thesis
    using Evaluate_Some_verb [of stmt env s svc] Evaluate_no_effects [of stmt env s svc]
    by (cases "cs_Effects stmt = []") auto
qed (simp add: Evaluate_rs_None)

text \<open>Sample data for the witnesses: rules over transaction statements, which carry no objects.\<close>

definition sample_rule :: "string \<Rightarrow> DecisionVerb \<Rightarrow> Duration \<Rightarrow> compiledStatementRule" where
  "sample_rule n v t = \<lparr>c_src = zeroStatementRule\<lparr>sr_Name := n, sr_Decision := DecisionVerb_String v\<rparr>, c_verb = v, c_groups = {GroupTransaction},
     c_subtypes = {}, c_requireWhere = False, c_resolution = resAny, c_schemas = [], c_objects = [],
     c_relations = [], c_functions = [], c_timeout = t, c_msgTemplate = None, c_redirect = None,
     c_serviceFilter = \<lparr>sf_service = '''', sf_family = '''', sf_dialect = ''''\<rparr>\<rparr>"

definition sample_ruleset :: "compiledStatementRule list \<Rightarrow> RuleSet" where
  "sample_ruleset rs = \<lparr>rs_services = [], rs_statement = rs, rs_connection = [],
     rs_redaction = default_redaction, rs_unavoidability = UnavoidabilityOff\<rparr>"

definition sample_stmt :: "Effect list \<Rightarrow> ClassifiedStatement" where
  "sample_stmt es = \<lparr>cs_Effects = es, cs_RawVerb = ''BEGIN'', cs_ParserBackend = ParserBackendLibPgQuery, cs_Error = '''',
     cs_SourceStart = 0, cs_SourceEnd = 0, cs_PreparedName = '''', cs_BulkOp = BulkOpNone\<rparr>"

abbreviation begin_stmt :: ClassifiedStatement where
  "begin_stmt \<equiv> sample_stmt [sample_effect GroupTransaction]"

lemma sample_stmt_effects [simp]: "cs_Effects (sample_stmt es) = es"
  by (simp add: sample_stmt_def)

lemma sample_rulesFor [simp]:
  "\<forall>r \<in> set rs. c_serviceFilter r = \<lparr>sf_service = '''', sf_family = '''', sf_dialect = ''''\<rparr> \<Longrightarrow>
     statementRulesFor (sample_ruleset rs) svc = rs"
  by (simp add: statementRulesFor_def sample_ruleset_def serviceFilter_matches_def Let_def)

lemma sample_rule_sel [simp]:
  "c_verb (sample_rule n v t) = v" "sr_Name (c_src (sample_rule n v t)) = n" "c_timeout (sample_rule n v t) = t"
  "c_serviceFilter (sample_rule n v t) = \<lparr>sf_service = '''', sf_family = '''', sf_dialect = ''''\<rparr>"
  by (simp_all add: sample_rule_def)

lemma sample_slots [simp]: "slots (sample_effect g) = [0]"
  by (simp add: slots_def sample_effect_def)

lemma sample_slot_hit [simp]: "slot_hit env (sample_effect g) (sample_rule n v t) i \<longleftrightarrow> g = GroupTransaction"
  by (simp add: slot_hit_def sample_effect_def sample_rule_def ruleMatchesEffectMeta_def matchesResolution_def
      isResolvedOnlyFunctionEffect_def isObjectlessEffect_def isObjectlessGroup_def coversAllObjects_def
      hasObjectSelectors_def)

lemma sample_hits [simp]: "rule_hits env (sample_effect g) (sample_rule n v t) \<longleftrightarrow> g = GroupTransaction"
  by (simp add: rule_hits_def)

lemma sample_rule_wf:
  "v \<noteq> VerbRedirect \<Longrightarrow> v = VerbApprove \<longrightarrow> t \<noteq> 0 \<and> t \<le> approveTimeoutMax \<Longrightarrow> wf_statement_rule (sample_rule n v t)"
  by (simp add: wf_statement_rule_def sample_rule_def zeroStatementRule_def)

lemma sample_evaluate_list:
  assumes "rs \<noteq> []" "\<forall>r \<in> set rs. \<exists>n t. r = sample_rule n v t"
    and d: "Evaluate env begin_stmt (Some (sample_ruleset rs)) svc = Some d"
  shows "d_Verb d = v"
proof -
  let ?e = "sample_effect GroupTransaction"
  have H: "{r \<in> set rs. rule_hits env ?e r} = set rs" using assms(2) by auto
  have "c_verb ` set rs = {v}" using assms(1,2) by (cases rs) auto
  then have worst: "worst_verb (set rs) = v" by (simp add: worst_verb_def)
  have cov: "\<not> (\<exists>i \<in> set (slots ?e). \<forall>r \<in> set rs. \<not> slot_hit env ?e r i)" using assms(1,2) by (cases rs) auto
  have "e_Objects ?e = []" by (simp add: sample_effect_def)
  then have "effect_spec env (set rs) ?e = to_iverb v"
    unfolding effect_spec_def H Let_def worst
    using cov assms(1,2) by (cases rs; cases v) auto
  moreover have "statementRulesFor (sample_ruleset rs) svc = rs" using assms(2) by (intro sample_rulesFor) auto
  ultimately show ?thesis using Evaluate_Some_verb [of begin_stmt env "sample_ruleset rs" svc] d by simp
qed

lemma sample_evaluate:
  "Evaluate env begin_stmt (Some (sample_ruleset [sample_rule n v t])) svc = Some d \<Longrightarrow> d_Verb d = v"
  by (rule sample_evaluate_list [of "[sample_rule n v t]"]) auto

text \<open>
  C2: \<open>Evaluate\<close> never panics, and its verb is the declarative one: a missing rule set or a statement
  without effects is denied, and otherwise the verb is the most restrictive one over the effects,
  where each effect's verdict is read off the set of applicable rules alone (a deny rule that hits
  wins, an uncovered slot is denied, else the most restrictive covering rule decides).
\<close>

theorem evaluate_refines_spec:
  "\<exists>d. Evaluate env stmt rs svc = Some d \<and>
     d_Verb d = (case rs of
        None \<Rightarrow> VerbDeny
      | Some s \<Rightarrow>
          if cs_Effects stmt = [] then VerbDeny
          else public_verb (Max (effect_spec env (set (statementRulesFor s svc)) ` set (cs_Effects stmt))))"
  using Evaluate_Some_verb [of stmt env _ svc] Evaluate_no_effects [of stmt env _ svc]
  by (cases rs) (auto simp: Evaluate_rs_None)

text \<open>
  C5: a statement that is not denied is fully covered: a rule set is loaded, the statement has
  effects, and for each of them no applicable deny rule hits it and every slot is hit by an
  applicable rule with another verb.
\<close>

theorem evaluate_not_deny_sound:
  assumes "Evaluate env stmt rs svc = Some d" "d_Verb d \<noteq> VerbDeny"
  shows "\<exists>s. rs = Some s \<and> cs_Effects stmt \<noteq> [] \<and>
     (\<forall>e \<in> set (cs_Effects stmt).
        (\<forall>r \<in> set (statementRulesFor s svc). has_verb VerbDeny r \<longrightarrow> \<not> rule_hits env e r) \<and>
        (\<forall>i \<in> set (slots e). \<exists>r \<in> set (statementRulesFor s svc). \<not> has_verb VerbDeny r \<and> slot_hit env e r i))"
proof -
  obtain s where "rs = Some s" "cs_Effects stmt \<noteq> []"
    "\<And>e. e \<in> set (cs_Effects stmt) \<Longrightarrow> effect_spec env (set (statementRulesFor s svc)) e < verbImplicitDeny"
    using Evaluate_not_deny [OF assms] by blast
  then show ?thesis using effect_spec_not_denied by blast
qed

theorem evaluate_not_deny_sound_witness:
  "\<exists>s. Some (sample_ruleset [sample_rule ''tx'' VerbAllow 0]) = Some s \<and>
     (\<forall>r \<in> set (statementRulesFor s ''db''). has_verb VerbDeny r \<longrightarrow> \<not> rule_hits sample_env (sample_effect GroupTransaction) r)"
proof -
  let ?rs = "Some (sample_ruleset [sample_rule ''tx'' VerbAllow 0])"
  obtain d where d: "Evaluate sample_env begin_stmt ?rs ''db'' = Some d" using Evaluate_total by blast
  then have "d_Verb d \<noteq> VerbDeny" by (simp add: sample_evaluate)
  then show ?thesis using evaluate_not_deny_sound [OF d] by simp
qed

text \<open>
  C6: deny takes precedence. If an applicable deny rule hits any effect, the statement is denied, and
  the decision names a deny rule of the policy that hits the effect it points at, whatever the
  other rules and effects are.
\<close>

theorem evaluate_deny_precedence:
  assumes "e \<in> set (cs_Effects stmt)" "r \<in> set (statementRulesFor s svc)" "has_verb VerbDeny r" "rule_hits env e r"
  shows "\<exists>d r'. Evaluate env stmt (Some s) svc = Some d \<and> d_Verb d = VerbDeny \<and>
     r' \<in> set (statementRulesFor s svc) \<and> has_verb VerbDeny r' \<and> d_RuleName d = sr_Name (c_src r') \<and>
     rule_hits env (cs_Effects stmt ! nat (d_MatchingEffectIndex d)) r'"
proof -
  let ?app = "statementRulesFor s svc"
  let ?b = "decider env ?app stmt"
  let ?v = "verdicts env ?app stmt ! ?b" and ?e = "cs_Effects stmt ! ?b"
  have ne: "cs_Effects stmt \<noteq> []" using assms(1) by auto
  have "verbDeny \<le> effect_spec env (set ?app) ?e"
    using decider_first_max(2) [OF ne assms(1), of env ?app] effect_spec_deny [of "set ?app" env e] assms by metis
  then have deny: "effect_spec env (set ?app) ?e = verbDeny" using effect_spec_le_deny by (simp add: order_antisym)
  have v: "evaluateEffect env ?e ?app = Some ?v" "ed_verb ?v = verbDeny"
    using verdict_nth [OF decider_first_max(1) [OF ne], where env = env and app = ?app] deny by auto
  have "\<exists>r \<in> set ?app. has_verb VerbDeny r \<and> rule_hits env ?e r"
    using effect_spec_denyD [OF deny] by simp
  note hit = this
  then obtain r' where r': "find (\<lambda>r. has_verb VerbDeny r \<and> rule_hits env ?e r) ?app = Some r'"
    by (cases "find (\<lambda>r. has_verb VerbDeny r \<and> rule_hits env ?e r) ?app") (auto simp: find_None_iff)
  then have "has_verb VerbDeny r'" "rule_hits env ?e r'" "r' \<in> set ?app"
    using find_SomeD by fastforce+
  moreover have "ed_rule ?v = Some r'" using evaluateEffect_deny [OF hit] v(1) r' by simp
  ultimately show ?thesis
    using foldEffects_verdict [OF ne refl refl, where env = env and app = ?app] v(2)
    by (auto simp: Evaluate_foldEffects [OF ne])
qed

theorem evaluate_deny_precedence_witness:
  "\<exists>d r'. Evaluate sample_env begin_stmt
      (Some (sample_ruleset [sample_rule ''ok'' VerbAllow 0, sample_rule ''no'' VerbDeny 0])) ''db'' = Some d \<and>
     d_Verb d = VerbDeny \<and> has_verb VerbDeny r' \<and> d_RuleName d = sr_Name (c_src r')"
  using evaluate_deny_precedence [of "sample_effect GroupTransaction" begin_stmt "sample_rule ''no'' VerbDeny 0"
      "sample_ruleset [sample_rule ''ok'' VerbAllow 0, sample_rule ''no'' VerbDeny 0]" "''db''" sample_env]
  by auto

lemma set_statementRulesFor_eq:
  "set (rs_statement s) = set (rs_statement s') \<Longrightarrow> rs_services s = rs_services s' \<Longrightarrow>
     set (statementRulesFor s svc) = set (statementRulesFor s' svc)"
  by (simp add: statementRulesFor_def Let_def)

text \<open>
  C7: the verb does not depend on the order or the multiplicity of the rules in the policy: two rule
  sets with the same services and the same set of statement rules decide alike.
\<close>

theorem evaluate_order_independent:
  assumes "set (rs_statement s) = set (rs_statement s')" "rs_services s = rs_services s'"
  shows "map_option d_Verb (Evaluate env stmt (Some s) svc) = map_option d_Verb (Evaluate env stmt (Some s') svc)"
proof (cases "cs_Effects stmt = []")
  case False
  then show ?thesis
    using Evaluate_Some_verb [OF False, of env s svc] Evaluate_Some_verb [OF False, of env s' svc]
      set_statementRulesFor_eq [OF assms, of svc] by auto
qed (simp add: Evaluate_no_effects)

theorem evaluate_order_independent_witness:
  "map_option d_Verb (Evaluate sample_env begin_stmt
      (Some (sample_ruleset [sample_rule ''a'' VerbAudit 0, sample_rule ''b'' VerbAllow 0])) ''db'') =
   map_option d_Verb (Evaluate sample_env begin_stmt
      (Some (sample_ruleset [sample_rule ''b'' VerbAllow 0, sample_rule ''a'' VerbAudit 0])) ''db'')"
  by (rule evaluate_order_independent) (auto simp: sample_ruleset_def)

text \<open>
  C8: adding deny rules is monotone: it either leaves the verb of a statement as it was or turns it
  into deny. In particular it never turns a denied statement into anything else.
\<close>

theorem evaluate_add_deny:
  assumes "set (rs_statement s') = set (rs_statement s) \<union> D" "\<forall>r \<in> D. has_verb VerbDeny r"
    and "rs_services s' = rs_services s"
    and "Evaluate env stmt (Some s) svc = Some d" "Evaluate env stmt (Some s') svc = Some d'"
  shows "d_Verb d' = VerbDeny \<or> d_Verb d' = d_Verb d"
proof (cases "cs_Effects stmt = []")
  case False
  let ?R = "set (statementRulesFor s svc)" and ?R' = "set (statementRulesFor s' svc)"
  let ?D = "{r \<in> D. serviceFilter_matches (c_serviceFilter r) svc (map_lookup (rs_services s) svc)}"
  have R': "?R' = ?R \<union> ?D" using assms(1,3) by (auto simp: statementRulesFor_def Let_def)
  have step: "effect_spec env ?R' e = verbDeny \<or> effect_spec env ?R' e = effect_spec env ?R e" for e
    unfolding R' by (rule effect_spec_add_deny) (use assms(2) in auto)
  have v: "d_Verb d = public_verb (Max (effect_spec env ?R ` set (cs_Effects stmt)))"
      "d_Verb d' = public_verb (Max (effect_spec env ?R' ` set (cs_Effects stmt)))"
    using Evaluate_Some_verb [OF False, of env s svc] Evaluate_Some_verb [OF False, of env s' svc] assms(4,5) by auto
  show ?thesis
  proof (cases "\<exists>e \<in> set (cs_Effects stmt). effect_spec env ?R' e = verbDeny")
    case True
    then have "verbDeny \<le> Max (effect_spec env ?R' ` set (cs_Effects stmt))" by (metis Max_ge finite_imageI finite_set imageI)
    then have "verbImplicitDeny \<le> Max (effect_spec env ?R' ` set (cs_Effects stmt))"
      by (rule order_trans [rotated]) (simp add: less_eq_internalVerb_def)
    then show ?thesis by (simp add: v public_verb_deny_iff)
  next
    case False
    then have "effect_spec env ?R' ` set (cs_Effects stmt) = effect_spec env ?R ` set (cs_Effects stmt)"
      using step by (intro image_cong) auto
    then show ?thesis by (simp add: v)
  qed
qed (use assms in \<open>simp add: Evaluate_no_effects\<close>)

theorem evaluate_add_deny_witness:
  "\<exists>d d'. Evaluate sample_env begin_stmt (Some (sample_ruleset [sample_rule ''a'' VerbAllow 0])) ''db'' = Some d \<and>
     Evaluate sample_env begin_stmt (Some (sample_ruleset [sample_rule ''a'' VerbAllow 0, sample_rule ''n'' VerbDeny 0])) ''db'' = Some d' \<and>
     (d_Verb d' = VerbDeny \<or> d_Verb d' = d_Verb d)"
proof -
  let ?s = "sample_ruleset [sample_rule ''a'' VerbAllow 0]"
  let ?s' = "sample_ruleset [sample_rule ''a'' VerbAllow 0, sample_rule ''n'' VerbDeny 0]"
  obtain d d' where d: "Evaluate sample_env begin_stmt (Some ?s) ''db'' = Some d"
      "Evaluate sample_env begin_stmt (Some ?s') ''db'' = Some d'" using Evaluate_total by metis
  have "set (rs_statement ?s') = set (rs_statement ?s) \<union> {sample_rule ''n'' VerbDeny 0}"
      "\<forall>r \<in> {sample_rule ''n'' VerbDeny 0}. has_verb VerbDeny r" "rs_services ?s' = rs_services ?s"
    by (auto simp: sample_ruleset_def)
  from evaluate_add_deny [OF this d] d show ?thesis by blast
qed

lemma Evaluate_index:
  assumes "Evaluate env stmt (Some s) svc = Some d" "cs_Effects stmt \<noteq> []"
  shows "d_MatchingEffectIndex d = int (decider env (statementRulesFor s svc) stmt)"
  using foldEffects_verdict [OF assms(2) refl refl, where env = env and app = "statementRulesFor s svc"]
    assms(1) by (auto simp: Evaluate_foldEffects [OF assms(2)])

text \<open>
  C9: a decision that is not a denial is attributed correctly: it points at an effect of the statement
  with the most restrictive verdict, the first such one, its verb is the most restrictive one of
  the applicable rules that hit this effect, and it names the first of them in policy order that
  has this verb.
\<close>

theorem evaluate_attribution:
  assumes "Evaluate env stmt (Some s) svc = Some d" "d_Verb d \<noteq> VerbDeny"
  defines "i \<equiv> nat (d_MatchingEffectIndex d)" and "app \<equiv> statementRulesFor s svc"
  defines "rs \<equiv> filter (rule_hits env (cs_Effects stmt ! i)) app"
  shows "i < length (cs_Effects stmt) \<and>
     (\<forall>e \<in> set (cs_Effects stmt). effect_spec env (set app) e \<le> effect_spec env (set app) (cs_Effects stmt ! i)) \<and>
     (\<forall>j < i. effect_spec env (set app) (cs_Effects stmt ! j) < effect_spec env (set app) (cs_Effects stmt ! i)) \<and>
     (\<exists>r. find (has_verb (d_Verb d)) rs = Some r \<and> d_RuleName d = sr_Name (c_src r)) \<and>
     (\<forall>r \<in> set rs. c_verb r \<le> d_Verb d)"
proof -
  note dec = Evaluate_decision [OF assms(1,2) rs_def [unfolded i_def app_def, THEN meta_eq_to_obj_eq]]
  have ne: "cs_Effects stmt \<noteq> []" using dec(1) by auto
  have i: "i = decider env app stmt" using Evaluate_index [OF assms(1) ne] by (simp add: i_def app_def)
  have "\<exists>r. find (has_verb (d_Verb d)) rs = Some r \<and> d_RuleName d = sr_Name (c_src r)"
    using find_has_verb [OF dec(2)] dec(3,4) by auto
  moreover have "\<forall>r \<in> set rs. c_verb r \<le> d_Verb d" by (simp add: dec(3) worst_verb_ge)
  ultimately show ?thesis unfolding i using decider_first_max [OF ne, where env = env and app = app] by blast
qed

theorem evaluate_attribution_witness:
  "\<exists>d. Evaluate sample_env begin_stmt (Some (sample_ruleset [sample_rule ''a'' VerbAllow 0])) ''db'' = Some d \<and>
     nat (d_MatchingEffectIndex d) < 1"
proof -
  let ?rs = "sample_ruleset [sample_rule ''a'' VerbAllow 0]"
  obtain d where d: "Evaluate sample_env begin_stmt (Some ?rs) ''db'' = Some d" using Evaluate_total by blast
  then have "d_Verb d \<noteq> VerbDeny" by (simp add: sample_evaluate)
  then show ?thesis using evaluate_attribution [OF d] d by simp
qed

lemma decided_approve_rules:
  assumes "Evaluate env stmt (Some s) svc = Some d" "d_Verb d = VerbApprove"
    and "distinct (map (\<lambda>r. sr_Name (c_src r)) (rs_statement s))"
    and rs: "rs = filter (has_verb VerbApprove) (filter (rule_hits env (cs_Effects stmt ! nat (d_MatchingEffectIndex d)))
               (statementRulesFor s svc))"
  shows "rs \<noteq> []" "set rs \<subseteq> set (rs_statement s)"
    "d_Approval d = Some \<lparr>ar_Timeout = Min (c_timeout ` set rs), ar_ContributingApproveRules = map (\<lambda>x. sr_Name (c_src x)) rs\<rparr>"
proof -
  note dec = Evaluate_decision [OF assms(1) _ refl]
  have nd: "d_Verb d \<noteq> VerbDeny" using assms(2) by simp
  show "rs \<noteq> []" using find_has_verb [OF dec(2) [OF nd]] dec(3) [OF nd] assms(2)
    by (auto simp: rs filter_empty_conv dest!: find_SomeD)
  show "set rs \<subseteq> set (rs_statement s)" using set_statementRulesFor by (auto simp: rs)
  have "first_by_name {} rs = rs"
    using statementRulesFor_names [OF assms(3), of svc]
    by (intro first_by_name_distinct) (simp_all add: rs distinct_names_filter)
  then show "d_Approval d = Some \<lparr>ar_Timeout = Min (c_timeout ` set rs), ar_ContributingApproveRules = map (\<lambda>x. sr_Name (c_src x)) rs\<rparr>"
    using dec(6) [OF nd] assms(2) rs by simp
qed



text \<open>The read of one catalog-resolved table and a redirect rule for it.\<close>

definition users_effect :: Effect where
  "users_effect = \<lparr>e_Group = GroupRead, e_Subtype = SubtypeNone,
     e_Objects = [\<lparr>o_Kind = ObjectTable, o_Schema = ''public'', o_Name = ''users'', o_Host = '''', o_Port = 0,
                   o_Path = '''', o_Argv0 = ''''\<rparr>],
     e_ResolvedObjects = [\<lparr>r_Source = ResolvedObjectSourceCatalog, r_Kind = ResolvedObjectRelation, r_OID = 1,
                   r_Schema = ''public'', r_Name = ''users'', r_RelationKind = ''r'', r_FunctionIdentityArgs = '''',
                   r_FunctionVolatility = '''', r_UnresolvedReason = ''''\<rparr>],
     e_Resolution = ResolutionCatalogResolved, e_HasWhere = False, e_FunctionOID = None\<rparr>"

definition users_redirect :: compiledStatementRule where
  "users_redirect = (sample_rule ''mask'' VerbRedirect 0)\<lparr>c_groups := {GroupRead},
     c_resolution := resEq ResolutionCatalogResolved, c_relations := [''public.users''],
     c_redirect := Some \<lparr>rd_SourceRelation = ''public.users'', rd_TargetRelation = ''public.users_masked''\<rparr>\<rparr>"

lemma users_redirect_sel [simp]:
  "c_verb users_redirect = VerbRedirect"
  "c_redirect users_redirect = Some \<lparr>rd_SourceRelation = ''public.users'', rd_TargetRelation = ''public.users_masked''\<rparr>"
  "c_serviceFilter users_redirect = \<lparr>sf_service = '''', sf_family = '''', sf_dialect = ''''\<rparr>"
  "wf_statement_rule users_redirect"
  by (simp_all add: users_redirect_def wf_statement_rule_def sample_rule_def)

lemma users_slot_hit: "slot_hit sample_env users_effect users_redirect 0"
  by (simp add: slot_hit_def users_effect_def users_redirect_def sample_rule_def ruleMatchesEffectMeta_def
      matchesResolution_def ruleMatchesObjectSlot_def schemaMatchesObjectSlot_def resolvedObjectForSlot_def
      isRelationObjectKind_def relationObjectSlotOrdinal_def resolvedRelationObjectAtOrdinal_def
      resolvedObjectCompatibleWithSlot_def hasObjectSelectors_def relationMatches_def any_glob_def
      CanonicalName_def sample_env_def)

lemma users_evaluate:
  "Evaluate sample_env (sample_stmt [users_effect]) (Some (sample_ruleset [users_redirect])) ''db'' = Some d \<Longrightarrow>
     d_Verb d = VerbRedirect"
proof -
  have slots: "slots users_effect = [0]" by (simp add: slots_def users_effect_def)
  then have hit: "rule_hits sample_env users_effect users_redirect" using users_slot_hit by (simp add: rule_hits_def)
  then have H: "{r \<in> {users_redirect}. rule_hits sample_env users_effect r} = {users_redirect}" by auto
  have "redirect_sources {users_redirect} = {''public.users''}" by (auto simp: redirect_sources_def)
  then have "effect_spec sample_env {users_redirect} users_effect = verbRedirect"
    unfolding effect_spec_def H Let_def using users_slot_hit by (simp add: slots worst_verb_def)
  then show "Evaluate sample_env (sample_stmt [users_effect]) (Some (sample_ruleset [users_redirect])) ''db'' = Some d \<Longrightarrow>
     d_Verb d = VerbRedirect"
    using Evaluate_Some_verb [of "sample_stmt [users_effect]" sample_env "sample_ruleset [users_redirect]" "''db''"]
    by simp
qed

text \<open>A well-formed redirect rule hits only reads of catalog-resolved objects.\<close>

lemma wf_redirectD:
  assumes "wf_statement_rule r" "has_verb VerbRedirect r"
  shows "c_groups r = {GroupRead}" "c_resolution r = resEq ResolutionCatalogResolved" "c_relations r \<noteq> []"
    "\<exists>rd. c_redirect r = Some rd"
proof -
  have len: "length (c_relations r) = 1" using assms by (simp add: wf_statement_rule_def)
  then show "c_relations r \<noteq> []" by (metis list.size(3) zero_neq_one)
  show "c_groups r = {GroupRead}" "c_resolution r = resEq ResolutionCatalogResolved" 
    using assms by (simp_all add: wf_statement_rule_def)
  have "c_redirect r \<noteq> None" using assms by (simp add: wf_statement_rule_def)
  then show "\<exists>rd. c_redirect r = Some rd" by simp
qed

lemma redirect_hit:
  assumes "wf_statement_rule r" "has_verb VerbRedirect r" "rule_hits env e r"
  shows "e_Group e = GroupRead" "e_Resolution e = ResolutionCatalogResolved" "e_Objects e \<noteq> []"
proof -
  note r = wf_redirectD [OF assms(1,2)]
  obtain i where hit: "slot_hit env e r i" using assms(3) by (auto simp: rule_hits_def)
  then have meta: "ruleMatchesEffectMeta r e" by (simp add: slot_hit_def)
  then show g: "e_Group e = GroupRead" "e_Resolution e = ResolutionCatalogResolved"
    using r by (auto simp: ruleMatchesEffectMeta_def matchesResolution_def split: if_splits)
  show "e_Objects e \<noteq> []"
    using hit r(3) g(1)
    by (simp add: slot_hit_def isResolvedOnlyFunctionEffect_def coversAllObjects_def hasObjectSelectors_def
        split: if_splits)
qed

text \<open>
  C12: redirects are unambiguous. A redirect decision of a well-formed rule set carries a redirect,
  decides a read whose objects the catalog resolved, and every applicable redirect rule that hits
  the deciding effect has the same source relation.
\<close>

theorem redirect_unique_source:
  assumes "wf_ruleset s" "Evaluate env stmt (Some s) svc = Some d" "d_Verb d = VerbRedirect"
  defines "e \<equiv> cs_Effects stmt ! nat (d_MatchingEffectIndex d)"
  shows "\<exists>rd. d_Redirect d = Some rd \<and> e_Group e = GroupRead \<and>
     e_Resolution e = ResolutionCatalogResolved \<and> e_Objects e \<noteq> [] \<and>
     (\<forall>r rd'. r \<in> set (statementRulesFor s svc) \<longrightarrow> has_verb VerbRedirect r \<longrightarrow> rule_hits env e r \<longrightarrow>
        c_redirect r = Some rd' \<longrightarrow> rd_SourceRelation rd' = rd_SourceRelation rd)"
proof -
  let ?rs = "filter (rule_hits env e) (statementRulesFor s svc)"
  have nd: "d_Verb d \<noteq> VerbDeny" using assms(3) by simp
  note dec = Evaluate_decision [OF assms(2) nd refl, folded e_def]
  obtain r where r: "find (has_verb VerbRedirect) ?rs = Some r"
    using find_has_verb [OF dec(2)] dec(3) assms(3) by auto
  then have r': "r \<in> set ?rs" "has_verb VerbRedirect r" using find_SomeD [OF r] by blast+
  have wf: "wf_statement_rule r"
    using r'(1) set_statementRulesFor assms(1) by (auto simp: wf_ruleset_def list_all_iff)
  obtain rd where rd: "c_redirect r = Some rd" using wf_redirectD(4) [OF wf r'(2)] by blast
  have hit: "rule_hits env e r" using r'(1) by simp
  note e = redirect_hit [OF wf r'(2) hit]
  have "card (redirect_sources (set ?rs)) = 1" using dec(7) assms(3) e(3) by simp
  then obtain src where src: "redirect_sources (set ?rs) = {src}" by (auto simp: card_1_singleton_iff)
  have "rd_SourceRelation rd' = src" if "x \<in> set ?rs" "has_verb VerbRedirect x" "c_redirect x = Some rd'" for x rd'
    using that src by (auto simp: redirect_sources_def)
  then show ?thesis using e rd r r' dec(5) assms(3) by (intro exI [of _ rd]) auto
qed

theorem redirect_unique_source_witness:
  "\<exists>d rd. Evaluate sample_env (sample_stmt [users_effect]) (Some (sample_ruleset [users_redirect])) ''db'' = Some d \<and>
     d_Redirect d = Some rd"
proof -
  let ?s = "sample_ruleset [users_redirect]"
  obtain d where d: "Evaluate sample_env (sample_stmt [users_effect]) (Some ?s) ''db'' = Some d"
    using Evaluate_total by blast
  have "wf_ruleset ?s" by (simp add: wf_ruleset_def sample_ruleset_def)
  from redirect_unique_source [OF this d users_evaluate [OF d]] d show ?thesis by blast
qed

end
