(* ===== verification/Db_Explain.thy ===== *)
theory Db_Explain
  imports Db_Evaluate
begin

text \<open>
  Connection policy, \<open>src/internal/db/policy/evaluate_conn.go\<close>, and explanations of statement
  decisions, \<open>src/internal/db/policy/explain.go\<close>. The \<open>seen\<close> maps that the code passes by reference
  are passed and returned.
\<close>


section \<open>Connections (evaluate_conn.go)\<close>

fun conn_rank :: "DecisionVerb \<Rightarrow> int" where
  "conn_rank VerbAllow = 0"
| "conn_rank VerbAudit = 1"
| "conn_rank VerbApprove = 2"
| "conn_rank VerbDeny = 3"
| "conn_rank VerbRedirect = - 1"

definition compareConnVerb :: "DecisionVerb \<Rightarrow> DecisionVerb \<Rightarrow> int" where
  "compareConnVerb a b = conn_rank a - conn_rank b"

fun connKindString :: "ConnectionMatchKind \<Rightarrow> string" where
  "connKindString MatchConnect = ''connect''"
| "connKindString MatchCancel = ''cancel''"
| "connKindString MatchReplication = ''replication''"

fun connectionRuleKindFor :: "ConnectionMatchKind \<Rightarrow> RuleKind" where
  "connectionRuleKindFor MatchCancel = RuleKindCancel"
| "connectionRuleKindFor _ = RuleKindConnection"

definition connRuleMatchesInfo :: "db_env \<Rightarrow> compiledConnectionRule \<Rightarrow> ConnectionInfo \<Rightarrow> bool" where
  "connRuleMatchesInfo env r info =
     (if cc_dbUsers r \<noteq> {} \<and> ci_DBUser info \<notin> cc_dbUsers r then False
      else if cc_database r \<noteq> '''' \<and> cc_database r \<noteq> ci_Database info then False
      else if (case cc_applicationName r of None \<Rightarrow> False
               | Some g \<Rightarrow> \<not> env_glob_match env g (ci_ApplicationName info)) then False
      else if (case cc_clientIdentity r of None \<Rightarrow> False
               | Some g \<Rightarrow> \<not> env_glob_match env g (ci_ClientIdentity info)) then False
      else True)"

definition conn_matched :: "db_env \<Rightarrow> ConnectionInfo \<Rightarrow> compiledConnectionRule list \<Rightarrow> compiledConnectionRule list" where
  "conn_matched env info rules =
     filter (\<lambda>r. cc_matchKind r = ci_MatchKind info \<and>
       (sf_service (cc_serviceFilter r) = '''' \<or> sf_service (cc_serviceFilter r) = ci_Service info) \<and>
       connRuleMatchesInfo env r info) rules"

fun conn_best_loop :: "compiledConnectionRule \<Rightarrow> compiledConnectionRule list \<Rightarrow> compiledConnectionRule" where
  "conn_best_loop best [] = best"
| "conn_best_loop best (r # rs) =
     conn_best_loop (if compareConnVerb (cc_verb r) (cc_verb best) > 0 then r else best) rs"

definition conn_implicitDeny :: "ConnectionInfo \<Rightarrow> string \<Rightarrow> Decision" where
  "conn_implicitDeny info reason =
     zeroDecision\<lparr>d_Verb := VerbDeny, d_RuleKind := connectionRuleKindFor (ci_MatchKind info),
       d_MatchingEffectIndex := - 1, d_MatchingEffectGroup := GroupUnknown, d_Reason := reason\<rparr>"

definition EvaluateConnection :: "db_env \<Rightarrow> ConnectionInfo \<Rightarrow> RuleSet option \<Rightarrow> Decision" where
  "EvaluateConnection env info rs =
     (case rs of
        None \<Rightarrow> conn_implicitDeny info ''policy not loaded''
      | Some s \<Rightarrow>
          (case conn_matched env info (rs_connection s) of
             [] \<Rightarrow> conn_implicitDeny info ''no connection rule matched''
           | m # ms \<Rightarrow>
               let best = conn_best_loop m ms;
                   d = zeroDecision\<lparr>d_Verb := cc_verb best,
                         d_RuleKind := connectionRuleKindFor (ci_MatchKind info),
                         d_RuleName := cr_Name (cc_src best),
                         d_MatchingEffectIndex := - 1, d_MatchingEffectGroup := GroupUnknown,
                         d_Reason := connection_renderMessage env best
                           \<lparr>mc_Operation = connKindString (ci_MatchKind info), mc_Subtype = '''', mc_Schema = '''',
                            mc_Object = '''', mc_Verb = '''', mc_StatementPreview = ''''\<rparr>\<rparr>
               in if cc_verb best = VerbApprove
                  then d\<lparr>d_Approval := Some \<lparr>ar_Timeout = cc_timeout best,
                           ar_ContributingApproveRules = [cr_Name (cc_src best)]\<rparr>\<rparr>
                  else d))"


section \<open>Explanations (explain.go)\<close>

record RuleMatch =
  rm_RuleName :: string
  rm_Verb :: DecisionVerb
  rm_Selector :: string

record ObjectCoverage =
  oc_Index :: nat
  oc_Object :: ObjectRef
  oc_ResolvedObject :: "ResolvedObjectRef option"
  oc_Covered :: bool
  oc_CoveringRules :: "RuleMatch list"
  oc_UncoveredReason :: string

record EffectExplanation =
  ex_Index :: nat
  ex_Group :: Group
  ex_Subtype :: Subtype
  ex_Resolution :: Resolution
  ex_Coverage :: "ObjectCoverage list"
  ex_CoveringRules :: "RuleMatch list"
  ex_DenyRules :: "RuleMatch list"

record StatementExplanation =
  se_Decision :: Decision
  se_ApplicableRules :: "string list"
  se_Effects :: "EffectExplanation list"

definition appendRuleMatchUnique :: "RuleMatch list \<Rightarrow> string set \<Rightarrow> RuleMatch \<Rightarrow> RuleMatch list \<times> string set" where
  "appendRuleMatchUnique matches seen match =
     (let key = rm_RuleName match @ [CHR 0x00] @ rm_Selector match in
      if key \<in> seen then (matches, seen) else (matches @ [match], insert key seen))"

definition resolvedOnlyFunctionRuleSelector :: "db_env \<Rightarrow> compiledStatementRule \<Rightarrow> Effect \<Rightarrow> string option" where
  "resolvedOnlyFunctionRuleSelector env r e =
     (case find (\<lambda>resolved. resolvedOnlyFunctionRuleMatches env r resolved \<and>
                   (\<not> hasObjectSelectors r \<or> functionMatches env r resolved)) (e_ResolvedObjects e) of
        None \<Rightarrow> None
      | Some _ \<Rightarrow> if \<not> hasObjectSelectors r then Some ''all'' else Some ''functions'')"

text \<open>One iteration of the loops of the two explanations for effects without objects.\<close>

definition explain_rule_step ::
    "(compiledStatementRule \<Rightarrow> string option) \<Rightarrow> Effect \<Rightarrow> EffectExplanation \<times> string set \<times> string set \<Rightarrow>
     compiledStatementRule \<Rightarrow> EffectExplanation \<times> string set \<times> string set" where
  "explain_rule_step selector e st r =
     (case st of (ex, coverSeen, denySeen) \<Rightarrow>
        if \<not> ruleMatchesEffectMeta r e then st
        else case selector r of
          None \<Rightarrow> st
        | Some sel \<Rightarrow>
            let match = \<lparr>rm_RuleName = sr_Name (c_src r), rm_Verb = c_verb r, rm_Selector = sel\<rparr> in
            if c_verb r = VerbDeny then
              (case appendRuleMatchUnique (ex_DenyRules ex) denySeen match of
                 (ms, seen) \<Rightarrow> (ex\<lparr>ex_DenyRules := ms\<rparr>, coverSeen, seen))
            else
              (case appendRuleMatchUnique (ex_CoveringRules ex) coverSeen match of
                 (ms, seen) \<Rightarrow> (ex\<lparr>ex_CoveringRules := ms\<rparr>, seen, denySeen)))"

definition explainResolvedOnlyFunctionEffect ::
    "db_env \<Rightarrow> Effect \<Rightarrow> compiledStatementRule list \<Rightarrow> EffectExplanation \<Rightarrow> EffectExplanation" where
  "explainResolvedOnlyFunctionEffect env e applicable ex =
     fst (foldl (explain_rule_step (\<lambda>r. resolvedOnlyFunctionRuleSelector env r e) e) (ex, {}, {}) applicable)"

definition explainObjectlessEffect ::
    "Effect \<Rightarrow> compiledStatementRule list \<Rightarrow> EffectExplanation \<Rightarrow> EffectExplanation" where
  "explainObjectlessEffect e applicable ex =
     fst (foldl (explain_rule_step (\<lambda>r. if coversAllObjects r then Some ''all'' else None) e) (ex, {}, {}) applicable)"

definition explainNoObjectEffect ::
    "db_env \<Rightarrow> Effect \<Rightarrow> compiledStatementRule list \<Rightarrow> EffectExplanation \<Rightarrow> EffectExplanation" where
  "explainNoObjectEffect env e applicable ex =
     (if isResolvedOnlyFunctionEffect e then explainResolvedOnlyFunctionEffect env e applicable ex
      else if isObjectlessEffect e then explainObjectlessEffect e applicable ex
      else ex)"

definition explain_slot_step ::
    "db_env \<Rightarrow> Effect \<Rightarrow> nat \<Rightarrow> ObjectCoverage \<times> RuleMatch list \<times> string set \<Rightarrow> compiledStatementRule \<Rightarrow>
     ObjectCoverage \<times> RuleMatch list \<times> string set" where
  "explain_slot_step env e i st r =
     (case st of (cov, deny, denySeen) \<Rightarrow>
        if \<not> ruleMatchesEffectMeta r e then st
        else case ruleMatchesObjectSlot env r e i of
          None \<Rightarrow> st
        | Some sel \<Rightarrow>
            let match = \<lparr>rm_RuleName = sr_Name (c_src r), rm_Verb = c_verb r, rm_Selector = sel\<rparr> in
            if c_verb r = VerbDeny then (cov, appendRuleMatchUnique deny denySeen match)
            else (cov\<lparr>oc_Covered := True, oc_CoveringRules := oc_CoveringRules cov @ [match]\<rparr>, deny, denySeen))"

definition explain_slot ::
    "db_env \<Rightarrow> Effect \<Rightarrow> compiledStatementRule list \<Rightarrow> EffectExplanation \<times> string set \<Rightarrow> nat \<Rightarrow>
     EffectExplanation \<times> string set" where
  "explain_slot env e applicable st i =
     (case st of (ex, denySeen) \<Rightarrow>
        let cov = \<lparr>oc_Index = i, oc_Object = e_Objects e ! i, oc_ResolvedObject = resolvedObjectForSlot e i,
                   oc_Covered = False, oc_CoveringRules = [], oc_UncoveredReason = ''''\<rparr>;
            (cov', deny, seen) = foldl (explain_slot_step env e i) (cov, ex_DenyRules ex, denySeen) applicable;
            cov'' = (if \<not> oc_Covered cov'
                     then cov'\<lparr>oc_UncoveredReason := ''no matching non-deny rule covers object''\<rparr> else cov')
        in (ex\<lparr>ex_DenyRules := deny, ex_Coverage := ex_Coverage ex @ [cov'']\<rparr>, seen))"

definition explainEffect ::
    "db_env \<Rightarrow> nat \<Rightarrow> Effect \<Rightarrow> compiledStatementRule list \<Rightarrow> (effectDecision \<times> EffectExplanation) option" where
  "explainEffect env index e applicable =
     (case evaluateEffect env e applicable of
        None \<Rightarrow> None
      | Some d \<Rightarrow>
          let ex = \<lparr>ex_Index = index, ex_Group = e_Group e, ex_Subtype = e_Subtype e, ex_Resolution = e_Resolution e,
                    ex_Coverage = [], ex_CoveringRules = [], ex_DenyRules = []\<rparr> in
          Some (d, if e_Objects e = [] then explainNoObjectEffect env e applicable ex
                   else fst (foldl (explain_slot env e applicable) (ex, {}) [0..<length (e_Objects e)])))"

definition ExplainStatement ::
    "db_env \<Rightarrow> ClassifiedStatement \<Rightarrow> RuleSet option \<Rightarrow> ServiceID \<Rightarrow> StatementExplanation option" where
  "ExplainStatement env stmt rs svc =
     (case rs of
        None \<Rightarrow> Some \<lparr>se_Decision = implicitDeny stmt 0 ''policy not loaded'', se_ApplicableRules = [], se_Effects = []\<rparr>
      | Some s \<Rightarrow>
          let applicable = statementRulesFor s svc;
              names = map (\<lambda>r. sr_Name (c_src r)) applicable
          in case collect (map (\<lambda>i. explainEffect env i (cs_Effects stmt ! i) applicable) [0..<length (cs_Effects stmt)]) of
               None \<Rightarrow> None
             | Some outs \<Rightarrow>
                 if cs_Effects stmt = []
                 then Some \<lparr>se_Decision = implicitDeny stmt 0 ''no effects on statement'', se_ApplicableRules = names, se_Effects = []\<rparr>
                 else map_option (\<lambda>d. \<lparr>se_Decision = d, se_ApplicableRules = names, se_Effects = map snd outs\<rparr>)
                        (foldEffects env stmt (map fst outs)))"


section \<open>The connection scan\<close>

interpretation conn_scan: worst_scan "\<lambda>r. conn_rank (cc_verb r)" conn_best_loop
  by unfold_locales (simp_all add: compareConnVerb_def)

lemma EvaluateConnection_matched:
  assumes "conn_matched env info (rs_connection s) = ms" "ms \<noteq> []"
  shows "\<exists>r \<in> set ms. d_Verb (EvaluateConnection env info (Some s)) = cc_verb r \<and>
     d_RuleName (EvaluateConnection env info (Some s)) = cr_Name (cc_src r) \<and>
     d_Approval (EvaluateConnection env info (Some s)) =
       (if cc_verb r = VerbApprove
        then Some \<lparr>ar_Timeout = cc_timeout r, ar_ContributingApproveRules = [cr_Name (cc_src r)]\<rparr> else None) \<and>
     (\<forall>r' \<in> set ms. conn_rank (cc_verb r') \<le> conn_rank (cc_verb r))"
proof -
  from assms(2) obtain m ms' where ms: "ms = m # ms'" by (cases ms) auto
  let ?best = "conn_best_loop m ms'"
  have "?best \<in> set ms" "\<forall>r' \<in> set ms. conn_rank (cc_verb r') \<le> conn_rank (cc_verb ?best)"
    using conn_scan.scan_mem [of m ms'] conn_scan.scan_max [of _ m ms'] by (auto simp: ms)
  then show ?thesis using assms(1)
    by (intro bexI [of _ ?best]) (simp_all add: EvaluateConnection_def ms Let_def zeroDecision_def)
qed

lemma conn_rank_mono: "v \<noteq> VerbRedirect \<Longrightarrow> w \<noteq> VerbRedirect \<Longrightarrow> conn_rank v \<le> conn_rank w \<longleftrightarrow> v \<le> w"
  by (cases v; cases w) (simp_all add: less_eq_DecisionVerb_def)

lemma set_conn_matched: "set (conn_matched env info rules) \<subseteq> set rules"
  by (auto simp: conn_matched_def)


section \<open>Explanations agree with evaluation\<close>

lemma collect_explain:
  "collect (map (\<lambda>i. explainEffect env i (cs_Effects stmt ! i) app) [0..<length (cs_Effects stmt)]) =
     Some (map (\<lambda>i. the (explainEffect env i (cs_Effects stmt ! i) app)) [0..<length (cs_Effects stmt)])"
proof (rule collect_map)
  fix i assume "i \<in> set [0..<length (cs_Effects stmt)]"
  obtain d where "evaluateEffect env (cs_Effects stmt ! i) app = Some d" using evaluateEffect_spec by blast
  then show "explainEffect env i (cs_Effects stmt ! i) app = Some (the (explainEffect env i (cs_Effects stmt ! i) app))"
    by (simp add: explainEffect_def Let_def)
qed

lemma explain_verdicts:
  "map fst (map (\<lambda>i. the (explainEffect env i (cs_Effects stmt ! i) app)) [0..<length (cs_Effects stmt)]) =
     verdicts env app stmt"
proof (rule nth_equalityI)
  fix i assume "i < length (map fst (map (\<lambda>i. the (explainEffect env i (cs_Effects stmt ! i) app)) [0..<length (cs_Effects stmt)]))"
  then have i: "i < length (cs_Effects stmt)" by simp
  from verdict_nth [OF i, of env app]
  show "map fst (map (\<lambda>i. the (explainEffect env i (cs_Effects stmt ! i) app)) [0..<length (cs_Effects stmt)]) ! i =
      verdicts env app stmt ! i"
    using i by (simp add: explainEffect_def Let_def)
qed (simp add: verdicts_def)

subsection \<open>Coverage of the object slots\<close>

definition cov_ok :: "db_env \<Rightarrow> Effect \<Rightarrow> compiledStatementRule list \<Rightarrow> nat \<Rightarrow> bool" where
  "cov_ok env e app i \<longleftrightarrow> (\<exists>r \<in> set app. \<not> has_verb VerbDeny r \<and> ruleMatchesEffectMeta r e \<and> ruleMatchesObjectSlot env r e i \<noteq> None)"

definition deny_at :: "db_env \<Rightarrow> Effect \<Rightarrow> compiledStatementRule list \<Rightarrow> nat \<Rightarrow> bool" where
  "deny_at env e app i \<longleftrightarrow> (\<exists>r \<in> set app. has_verb VerbDeny r \<and> ruleMatchesEffectMeta r e \<and> ruleMatchesObjectSlot env r e i \<noteq> None)"

text \<open>The list of deny matches is empty exactly when nothing has been recorded as seen.\<close>

lemma append_unique_Nil:
  assumes "fst st = [] \<longleftrightarrow> snd st = {}"
  shows "fst (appendRuleMatchUnique (fst st) (snd st) m) \<noteq> []"
    "snd (appendRuleMatchUnique (fst st) (snd st) m) \<noteq> {}"
  using assms by (auto simp: appendRuleMatchUnique_def Let_def)

lemma explain_slot_fold:
  "snd st = (deny, seen) \<Longrightarrow> deny = [] \<longleftrightarrow> seen = {} \<Longrightarrow>
   foldl (explain_slot_step env e i) st app = (cov', deny', seen') \<Longrightarrow>
     (oc_Covered cov' \<longleftrightarrow> oc_Covered (fst st) \<or> cov_ok env e app i) \<and>
     (deny' = [] \<longleftrightarrow> deny = [] \<and> \<not> deny_at env e app i) \<and> (deny' = [] \<longleftrightarrow> seen' = {}) \<and>
     oc_Index cov' = oc_Index (fst st) \<and> oc_Object cov' = oc_Object (fst st)"
proof (induction app arbitrary: st deny seen)
  case Nil
  then show ?case by (cases st) (auto simp: cov_ok_def deny_at_def)
next
  case (Cons r app)
  obtain cov1 deny1 seen1 where st1: "explain_slot_step env e i st r = (cov1, deny1, seen1)"
    by (metis prod.exhaust)
  have head: "(oc_Covered cov1 \<longleftrightarrow> oc_Covered (fst st) \<or> cov_ok env e [r] i) \<and>
     (deny1 = [] \<longleftrightarrow> deny = [] \<and> \<not> deny_at env e [r] i) \<and> (deny1 = [] \<longleftrightarrow> seen1 = {}) \<and>
     oc_Index cov1 = oc_Index (fst st) \<and> oc_Object cov1 = oc_Object (fst st)"
    using st1 Cons.prems(1,2)
    by (cases st) (auto simp: explain_slot_step_def cov_ok_def deny_at_def appendRuleMatchUnique_def Let_def
        split: if_splits option.splits)
  have "foldl (explain_slot_step env e i) (cov1, deny1, seen1) app = (cov', deny', seen')"
    using Cons.prems(3) st1 by simp
  moreover have "deny1 = [] \<longleftrightarrow> seen1 = {}" using head by blast
  ultimately have "(oc_Covered cov' \<longleftrightarrow> oc_Covered cov1 \<or> cov_ok env e app i) \<and>
     (deny' = [] \<longleftrightarrow> deny1 = [] \<and> \<not> deny_at env e app i) \<and> (deny' = [] \<longleftrightarrow> seen' = {}) \<and>
     oc_Index cov' = oc_Index cov1 \<and> oc_Object cov' = oc_Object cov1"
    using Cons.IH [of "(cov1, deny1, seen1)" deny1 seen1] unfolding fst_conv snd_conv by blast
  moreover have "cov_ok env e (r # app) i \<longleftrightarrow> cov_ok env e [r] i \<or> cov_ok env e app i"
    "deny_at env e (r # app) i \<longleftrightarrow> deny_at env e [r] i \<or> deny_at env e app i"
    by (auto simp: cov_ok_def deny_at_def)
  ultimately show ?case using head by metis
qed

lemma explain_slots_fold:
  "ex_DenyRules (fst st) = [] \<longleftrightarrow> snd st = {} \<Longrightarrow> foldl (explain_slot env e app) st is = (ex', seen') \<Longrightarrow>
     (\<exists>cs. ex_Coverage ex' = ex_Coverage (fst st) @ cs \<and>
        list_all2 (\<lambda>i c. oc_Index c = i \<and> oc_Object c = e_Objects e ! i \<and> (oc_Covered c \<longleftrightarrow> cov_ok env e app i)) is cs) \<and>
     (ex_DenyRules ex' = [] \<longleftrightarrow> ex_DenyRules (fst st) = [] \<and> (\<forall>i \<in> set is. \<not> deny_at env e app i))"
proof (induction "is" arbitrary: st)
  case (Cons i "is")
  obtain ex denySeen where st: "st = (ex, denySeen)" by (cases st)
  let ?cov = "\<lparr>oc_Index = i, oc_Object = e_Objects e ! i, oc_ResolvedObject = resolvedObjectForSlot e i,
                   oc_Covered = False, oc_CoveringRules = [], oc_UncoveredReason = ''''\<rparr>"
  obtain cov' deny seen where f: "foldl (explain_slot_step env e i) (?cov, ex_DenyRules ex, denySeen) app = (cov', deny, seen)"
    by (metis prod.exhaust)
  note slot = explain_slot_fold [OF _ _ f, of "ex_DenyRules ex" denySeen, unfolded fst_conv snd_conv]
  let ?cov'' = "if \<not> oc_Covered cov' then cov'\<lparr>oc_UncoveredReason := ''no matching non-deny rule covers object''\<rparr> else cov'"
  let ?ex = "ex\<lparr>ex_DenyRules := deny, ex_Coverage := ex_Coverage ex @ [?cov'']\<rparr>"
  have step: "explain_slot env e app st i = (?ex, seen)" by (simp add: explain_slot_def st f Let_def)
  have "foldl (explain_slot env e app) (?ex, seen) is = (ex', seen')" using Cons.prems(2) step by simp
  moreover have slot: "oc_Covered cov' \<longleftrightarrow> cov_ok env e app i" "deny = [] \<longleftrightarrow> ex_DenyRules ex = [] \<and> \<not> deny_at env e app i"
      "deny = [] \<longleftrightarrow> seen = {}" "oc_Index cov' = i" "oc_Object cov' = e_Objects e ! i"
    using slot Cons.prems(1) unfolding st fst_conv snd_conv ObjectCoverage.simps by blast+
  ultimately obtain cs where
    "ex_Coverage ex' = ex_Coverage ex @ ?cov'' # cs"
    "list_all2 (\<lambda>i c. oc_Index c = i \<and> oc_Object c = e_Objects e ! i \<and> (oc_Covered c \<longleftrightarrow> cov_ok env e app i)) is cs"
    "ex_DenyRules ex' = [] \<longleftrightarrow> deny = [] \<and> (\<forall>i \<in> set is. \<not> deny_at env e app i)"
    using Cons.IH [of "(?ex, seen)"] by auto
  moreover have "oc_Index ?cov'' = i" "oc_Object ?cov'' = e_Objects e ! i" "oc_Covered ?cov'' \<longleftrightarrow> cov_ok env e app i"
    using slot by simp_all
  ultimately show ?case using slot(2)
    by (intro conjI exI [of _ "?cov'' # cs"]) (simp_all add: st)
qed auto

lemma explain_effect_objects:
  assumes "e_Objects e \<noteq> []" "explainEffect env n e app = Some (d, ex)"
  shows "list_all2 (\<lambda>i c. oc_Index c = i \<and> oc_Object c = e_Objects e ! i \<and>
      (oc_Covered c \<longleftrightarrow> (\<exists>r \<in> set app. \<not> has_verb VerbDeny r \<and> slot_hit env e r i)))
      [0..<length (e_Objects e)] (ex_Coverage ex)"
    "ex_DenyRules ex = [] \<longleftrightarrow> (\<forall>r \<in> set app. has_verb VerbDeny r \<longrightarrow> \<not> rule_hits env e r)"
proof -
  let ?ex = "\<lparr>ex_Index = n, ex_Group = e_Group e, ex_Subtype = e_Subtype e, ex_Resolution = e_Resolution e,
                    ex_Coverage = [], ex_CoveringRules = [], ex_DenyRules = []\<rparr>"
  obtain seen' where "foldl (explain_slot env e app) (?ex, {}) [0..<length (e_Objects e)] = (ex, seen')"
    using assms by (cases "foldl (explain_slot env e app) (?ex, {}) [0..<length (e_Objects e)]")
      (auto simp: explainEffect_def Let_def split: option.splits)
  then have f: "list_all2 (\<lambda>i c. oc_Index c = i \<and> oc_Object c = e_Objects e ! i \<and> (oc_Covered c \<longleftrightarrow> cov_ok env e app i))
        [0..<length (e_Objects e)] (ex_Coverage ex) \<and>
      (ex_DenyRules ex = [] \<longleftrightarrow> (\<forall>i < length (e_Objects e). \<not> deny_at env e app i))"
    using explain_slots_fold [of "(?ex, {})" env e app "[0..<length (e_Objects e)]" ex seen'] by auto
  have cov: "cov_ok env e app i \<longleftrightarrow> (\<exists>r \<in> set app. \<not> has_verb VerbDeny r \<and> slot_hit env e r i)" for i
    using assms(1) by (simp add: cov_ok_def slot_hit_def)
  have den: "(\<forall>i < length (e_Objects e). \<not> deny_at env e app i) \<longleftrightarrow>
      (\<forall>r \<in> set app. has_verb VerbDeny r \<longrightarrow> \<not> rule_hits env e r)"
    using assms(1) by (auto simp: deny_at_def slot_hit_def rule_hits_objects)
  show "list_all2 (\<lambda>i c. oc_Index c = i \<and> oc_Object c = e_Objects e ! i \<and>
      (oc_Covered c \<longleftrightarrow> (\<exists>r \<in> set app. \<not> has_verb VerbDeny r \<and> slot_hit env e r i)))
      [0..<length (e_Objects e)] (ex_Coverage ex)"
    using f by (simp add: cov)
  show "ex_DenyRules ex = [] \<longleftrightarrow> (\<forall>r \<in> set app. has_verb VerbDeny r \<longrightarrow> \<not> rule_hits env e r)"
    using f den by auto
qed


section \<open>Properties\<close>

text \<open>
  C17: connections fail closed and the most restrictive matching rule decides. Without a rule set or
  a matching rule the connection is denied with no rule name. Otherwise the decision is that of a
  matching rule whose verb ranks highest, with its name, and with its own timeout when it asks for
  approval; in a well-formed rule set it is the largest verb, never a redirect, and a cancel request
  is never sent to approval.
\<close>

theorem evaluate_connection_most_restrictive:
  "d_Verb (EvaluateConnection env info None) = VerbDeny \<and>
   (conn_matched env info (rs_connection s) = [] \<longrightarrow>
      d_Verb (EvaluateConnection env info (Some s)) = VerbDeny \<and> d_RuleName (EvaluateConnection env info (Some s)) = '''') \<and>
   (wf_ruleset s \<longrightarrow> conn_matched env info (rs_connection s) \<noteq> [] \<longrightarrow>
      (\<exists>r \<in> set (conn_matched env info (rs_connection s)).
         d_Verb (EvaluateConnection env info (Some s)) = cc_verb r \<and>
         d_RuleName (EvaluateConnection env info (Some s)) = cr_Name (cc_src r) \<and>
         (\<forall>r' \<in> set (conn_matched env info (rs_connection s)). cc_verb r' \<le> cc_verb r) \<and>
         cc_verb r \<noteq> VerbRedirect \<and> \<not> (ci_MatchKind info = MatchCancel \<and> cc_verb r = VerbApprove)))"
proof (intro conjI impI)
  assume wf: "wf_ruleset s" and ne: "conn_matched env info (rs_connection s) \<noteq> []"
  let ?ms = "conn_matched env info (rs_connection s)"
  obtain r where r: "r \<in> set ?ms" "d_Verb (EvaluateConnection env info (Some s)) = cc_verb r"
      "d_RuleName (EvaluateConnection env info (Some s)) = cr_Name (cc_src r)"
      "\<forall>r' \<in> set ?ms. conn_rank (cc_verb r') \<le> conn_rank (cc_verb r)"
    using EvaluateConnection_matched [OF refl ne] by blast
  have wfr: "wf_connection_rule x" if "x \<in> set ?ms" for x
    using that wf set_conn_matched [of env info "rs_connection s"] by (auto simp: wf_ruleset_def list_all_iff)
  have "\<forall>r' \<in> set ?ms. cc_verb r' \<le> cc_verb r"
    using r(1,4) wfr conn_rank_mono by (metis wf_connection_rule_def)
  moreover have "cc_matchKind r = ci_MatchKind info" using r(1) by (simp add: conn_matched_def)
  ultimately show "\<exists>r \<in> set ?ms.
         d_Verb (EvaluateConnection env info (Some s)) = cc_verb r \<and>
         d_RuleName (EvaluateConnection env info (Some s)) = cr_Name (cc_src r) \<and>
         (\<forall>r' \<in> set ?ms. cc_verb r' \<le> cc_verb r) \<and>
         cc_verb r \<noteq> VerbRedirect \<and> \<not> (ci_MatchKind info = MatchCancel \<and> cc_verb r = VerbApprove)"
    using r wfr [OF r(1)] by (auto simp: wf_connection_rule_def)
qed (simp_all add: EvaluateConnection_def conn_implicitDeny_def zeroDecision_def)

definition sample_conn_rule :: "string \<Rightarrow> DecisionVerb \<Rightarrow> compiledConnectionRule" where
  "sample_conn_rule n v = \<lparr>cc_src = \<lparr>cr_Name = n, cr_DBService = '''', cr_MatchKind = '''', cr_DBUser = [],
     cr_Database = '''', cr_ApplicationName = '''', cr_ClientIdentity = '''', cr_Decision = DecisionVerb_String v,
     cr_Message = '''', cr_Timeout = 0\<rparr>, cc_verb = v, cc_matchKind = MatchConnect, cc_dbUsers = {},
     cc_database = '''', cc_applicationName = None, cc_clientIdentity = None, cc_timeout = 0, cc_msgTemplate = None,
     cc_serviceFilter = \<lparr>sf_service = '''', sf_family = '''', sf_dialect = ''''\<rparr>\<rparr>"

definition sample_conn :: ConnectionInfo where
  "sample_conn = \<lparr>ci_Service = ''db'', ci_MatchKind = MatchConnect, ci_DBUser = ''app'', ci_Database = ''main'',
     ci_ApplicationName = '''', ci_ClientIdentity = ''''\<rparr>"

theorem evaluate_connection_most_restrictive_witness:
  "d_Verb (EvaluateConnection sample_env sample_conn (Some ((sample_ruleset [])
     \<lparr>rs_connection := [sample_conn_rule ''a'' VerbAllow, sample_conn_rule ''d'' VerbDeny]\<rparr>))) = VerbDeny"
proof -
  let ?s = "(sample_ruleset [])\<lparr>rs_connection := [sample_conn_rule ''a'' VerbAllow, sample_conn_rule ''d'' VerbDeny]\<rparr>"
  have m: "conn_matched sample_env sample_conn (rs_connection ?s) =
      [sample_conn_rule ''a'' VerbAllow, sample_conn_rule ''d'' VerbDeny]"
    by (simp add: conn_matched_def connRuleMatchesInfo_def sample_conn_def sample_conn_rule_def)
  have "wf_ruleset ?s" by (simp add: wf_ruleset_def sample_ruleset_def wf_connection_rule_def sample_conn_rule_def)
  then have "\<exists>r \<in> set [sample_conn_rule ''a'' VerbAllow, sample_conn_rule ''d'' VerbDeny].
      d_Verb (EvaluateConnection sample_env sample_conn (Some ?s)) = cc_verb r \<and>
      (\<forall>r' \<in> set [sample_conn_rule ''a'' VerbAllow, sample_conn_rule ''d'' VerbDeny]. cc_verb r' \<le> cc_verb r)"
    using evaluate_connection_most_restrictive [of sample_env sample_conn ?s] unfolding m by blast
  then show ?thesis by (auto simp: sample_conn_rule_def less_eq_DecisionVerb_def)
qed

text \<open>
  C18: an explanation never disagrees with enforcement: \<open>ExplainStatement\<close> does not panic and the
  decision it reports is the one \<open>Evaluate\<close> returns.
\<close>

theorem explain_decision_agrees:
  "\<exists>x. ExplainStatement env stmt rs svc = Some x \<and> Evaluate env stmt rs svc = Some (se_Decision x)"
proof (cases rs)
  case None
  then show ?thesis by (simp add: ExplainStatement_def Evaluate_rs_None)
next
  case (Some s)
  show ?thesis
  proof (cases "cs_Effects stmt = []")
    case True
    then show ?thesis using Some by (simp add: ExplainStatement_def Evaluate_no_effects Let_def)
  next
    case False
    let ?app = "statementRulesFor s svc"
    obtain d where d: "Evaluate env stmt (Some s) svc = Some d" using Evaluate_total by blast
    then have "foldEffects env stmt (verdicts env ?app stmt) = Some d"
      by (simp add: Evaluate_foldEffects [OF False])
    then show ?thesis using d False Some
      unfolding ExplainStatement_def Let_def collect_explain by (simp only: explain_verdicts option.case) simp
  qed
qed

text \<open>
  C19: the coverage report of an effect with objects is accurate: it has one entry per object, in
  order, marked covered exactly when an applicable rule that is not a deny rule hits that object,
  and it lists deny rules exactly when one hits the effect.
\<close>

theorem explain_coverage_accurate:
  assumes "e_Objects e \<noteq> []" "explainEffect env n e app = Some (d, ex)"
  shows "length (ex_Coverage ex) = length (e_Objects e) \<and>
     (\<forall>i < length (e_Objects e).
        oc_Index (ex_Coverage ex ! i) = i \<and> oc_Object (ex_Coverage ex ! i) = e_Objects e ! i \<and>
        (oc_Covered (ex_Coverage ex ! i) \<longleftrightarrow> (\<exists>r \<in> set app. \<not> has_verb VerbDeny r \<and> slot_hit env e r i))) \<and>
     (ex_DenyRules ex = [] \<longleftrightarrow> (\<forall>r \<in> set app. has_verb VerbDeny r \<longrightarrow> \<not> rule_hits env e r))"
  using explain_effect_objects [OF assms] by (auto simp: list_all2_conv_all_nth)

theorem explain_coverage_accurate_witness:
  "\<exists>d ex. explainEffect sample_env 0 users_effect [users_redirect] = Some (d, ex) \<and> length (ex_Coverage ex) = 1"
proof -
  obtain d where "evaluateEffect sample_env users_effect [users_redirect] = Some d" using evaluateEffect_spec by blast
  then obtain ex where ex: "explainEffect sample_env 0 users_effect [users_redirect] = Some (d, ex)"
    by (simp add: explainEffect_def Let_def)
  have "e_Objects users_effect \<noteq> []" "length (e_Objects users_effect) = 1" by (simp_all add: users_effect_def)
  with explain_coverage_accurate [OF _ ex] ex show ?thesis by auto
qed

end
