(* ===== verification/Prepared_Cache.thy ===== *)
theory Prepared_Cache
  imports Db_Rules
begin

text \<open>
  The prepared-statement cache, \<open>src/internal/db/proxy/postgres/preparedcache/cache.go\<close>: a
  fixed-capacity LRU map over \<open>container/list\<close>. The list elements are heap cells: \<open>pc_heap\<close> holds
  what \<open>el.Value\<close> points to, \<open>pc_order\<close> the elements from the most to the least recently used,
  \<open>pc_byKey\<close> the index and \<open>pc_next\<close> the next fresh element. The mutex serialises the operations,
  so each one is a function on the state.

  The theory shows that the pointer structure implements an LRU map on a plain association list,
  and that it satisfies the interface \<open>prepared_map\<close> the wire protocol relies on.
\<close>


section \<open>State (cache.go)\<close>

record RedirectMetadata =
  md_OriginalClassification :: ClassifiedStatement
  md_OriginalSQL :: string
  md_OriginalStatementDigest :: string
  md_RewrittenStatementDigest :: string
  md_Rule :: string
  md_SourceRelation :: string
  md_TargetRelation :: string
  md_PolicyIdentity :: string

record Entry =
  en_Classification :: ClassifiedStatement
  en_RedactionTier :: RedactionTier
  en_CatalogRefreshSearchPath :: bool
  en_CatalogRefreshSnapshot :: bool
  en_Redirect :: "RedirectMetadata option"

record cacheItem =
  ci_key :: string
  ci_value :: Entry

type_synonym element = nat

record Cache =
  pc_cap :: nat
  pc_order :: "element list" \<comment> \<open>front: most recently used\<close>
  pc_byKey :: "string \<Rightarrow> element option"
  pc_heap :: "element \<Rightarrow> cacheItem option"
  pc_next :: element

definition DefaultCapacity :: int where
  "DefaultCapacity = 4096"

definition Cache_New :: "int \<Rightarrow> Cache" where
  "Cache_New capacity =
     (let capacity = (if capacity \<le> 0 then DefaultCapacity else capacity) in
      \<lparr>pc_cap = nat capacity, pc_order = [], pc_byKey = (\<lambda>_. None), pc_heap = (\<lambda>_. None), pc_next = 0\<rparr>)"


section \<open>Operations\<close>

text \<open>\<open>list.MoveToFront\<close> and \<open>list.Remove\<close>; both ignore an element that is not in the list.\<close>

definition MoveToFront :: "element list \<Rightarrow> element \<Rightarrow> element list" where
  "MoveToFront xs el = (if el \<in> set xs then el # remove1 el xs else xs)"

definition Cache_Put :: "Cache \<Rightarrow> string \<Rightarrow> Entry \<Rightarrow> Cache" where
  "Cache_Put c name e =
     (case pc_byKey c name of
        Some el \<Rightarrow>
          c\<lparr>pc_heap := (pc_heap c)(el := map_option (\<lambda>i. i\<lparr>ci_value := e\<rparr>) (pc_heap c el)),
            pc_order := MoveToFront (pc_order c) el\<rparr>
      | None \<Rightarrow>
          let el = pc_next c;
              c1 = c\<lparr>pc_order := el # pc_order c,
                     pc_heap := (pc_heap c)(el := Some \<lparr>ci_key = name, ci_value = e\<rparr>),
                     pc_byKey := (pc_byKey c)(name := Some el),
                     pc_next := Suc el\<rparr>
          in if length (pc_order c1) > pc_cap c1 then
               let oldest = last (pc_order c1) in
               (case pc_heap c1 oldest of
                  Some ci \<Rightarrow> c1\<lparr>pc_order := remove1 oldest (pc_order c1),
                                pc_byKey := (pc_byKey c1)(ci_key ci := None)\<rparr>
                | None \<Rightarrow> c1)
             else c1)"

definition Cache_Get :: "Cache \<Rightarrow> string \<Rightarrow> Cache \<times> Entry option" where
  "Cache_Get c name =
     (case pc_byKey c name of
        None \<Rightarrow> (c, None)
      | Some el \<Rightarrow>
          (c\<lparr>pc_order := MoveToFront (pc_order c) el\<rparr>, map_option ci_value (pc_heap c el)))"

definition Cache_Delete :: "Cache \<Rightarrow> string \<Rightarrow> Cache" where
  "Cache_Delete c name =
     (case pc_byKey c name of
        None \<Rightarrow> c
      | Some el \<Rightarrow> c\<lparr>pc_order := remove1 el (pc_order c), pc_byKey := (pc_byKey c)(name := None)\<rparr>)"

definition Cache_Clear :: "Cache \<Rightarrow> Cache" where
  "Cache_Clear c = c\<lparr>pc_order := [], pc_byKey := (\<lambda>_. None)\<rparr>"

definition Cache_Len :: "Cache \<Rightarrow> nat" where
  "Cache_Len c = length (pc_order c)"


section \<open>The invariant and the abstraction\<close>

definition key_of :: "Cache \<Rightarrow> element \<Rightarrow> string option" where
  "key_of c el = map_option ci_key (pc_heap c el)"

definition cache_inv :: "Cache \<Rightarrow> bool" where
  "cache_inv c \<longleftrightarrow>
     0 < pc_cap c \<and> length (pc_order c) \<le> pc_cap c \<and> distinct (pc_order c) \<and>
     (\<forall>el \<in> set (pc_order c). el < pc_next c \<and> (\<exists>k. key_of c el = Some k)) \<and>
     (\<forall>k el. pc_byKey c k = Some el \<longleftrightarrow> el \<in> set (pc_order c) \<and> key_of c el = Some k)"

definition item_at :: "Cache \<Rightarrow> element \<Rightarrow> string \<times> Entry" where
  "item_at c el = (ci_key (the (pc_heap c el)), ci_value (the (pc_heap c el)))"

definition cache_abs :: "Cache \<Rightarrow> (string \<times> Entry) list" where
  "cache_abs c = map (item_at c) (pc_order c)"

text \<open>The specification: an LRU map as a list of bindings, most recently used first.\<close>

definition drop_key :: "string \<Rightarrow> (string \<times> Entry) list \<Rightarrow> (string \<times> Entry) list" where
  "drop_key k xs = filter (\<lambda>p. fst p \<noteq> k) xs"

definition lru_put :: "nat \<Rightarrow> string \<Rightarrow> Entry \<Rightarrow> (string \<times> Entry) list \<Rightarrow> (string \<times> Entry) list" where
  "lru_put n k v xs = take n ((k, v) # drop_key k xs)"

definition lru_get :: "string \<Rightarrow> (string \<times> Entry) list \<Rightarrow> (string \<times> Entry) list \<times> Entry option" where
  "lru_get k xs =
     (case map_of xs k of None \<Rightarrow> (xs, None) | Some v \<Rightarrow> ((k, v) # drop_key k xs, Some v))"

lemma cache_invD:
  assumes "cache_inv c"
  shows "0 < pc_cap c" "length (pc_order c) \<le> pc_cap c" "distinct (pc_order c)"
    "el \<in> set (pc_order c) \<Longrightarrow> el < pc_next c" "el \<in> set (pc_order c) \<Longrightarrow> \<exists>k. key_of c el = Some k"
    "pc_byKey c k = Some el \<longleftrightarrow> el \<in> set (pc_order c) \<and> key_of c el = Some k"
  using assms unfolding cache_inv_def by blast+

lemma cache_inv_New: "cache_inv (Cache_New n)"
  by (simp add: cache_inv_def Cache_New_def DefaultCapacity_def)

lemma byKey_item:
  assumes "cache_inv c" "pc_byKey c k = Some el"
  obtains i where "el \<in> set (pc_order c)" "pc_heap c el = Some i" "ci_key i = k"
  using assms(2) cache_invD(6) [OF assms(1), of k el] by (auto simp: key_of_def)

lemma item_key:
  assumes "cache_inv c" "el \<in> set (pc_order c)"
  shows "fst (item_at c el) = k \<longleftrightarrow> pc_byKey c k = Some el"
  using cache_invD(5) [OF assms] cache_invD(6) [OF assms(1), of k el] assms(2)
  by (auto simp: item_at_def key_of_def)

lemma cache_abs_keys_distinct: "cache_inv c \<Longrightarrow> distinct (map fst (cache_abs c))"
  unfolding cache_abs_def map_map comp_def distinct_map
  using item_key cache_invD(3) by (metis (mono_tags, lifting) inj_onI option.inject)

lemma byKey_None:
  assumes "cache_inv c" "pc_byKey c k = None"
  shows "k \<notin> fst ` set (cache_abs c)"
proof -
  have "fst (item_at c el) \<noteq> k" if "el \<in> set (pc_order c)" for el
    using item_key [OF assms(1) that, of k] assms(2) by simp
  then show ?thesis by (auto simp: cache_abs_def image_image)
qed

lemma map_of_cache_abs:
  assumes "cache_inv c"
  shows "map_of (cache_abs c) k = (case pc_byKey c k of None \<Rightarrow> None | Some el \<Rightarrow> map_option ci_value (pc_heap c el))"
proof (cases "pc_byKey c k")
  case None
  then show ?thesis using byKey_None [OF assms None] by (simp add: map_of_eq_None_iff)
next
  case (Some el)
  then obtain i where i: "el \<in> set (pc_order c)" "pc_heap c el = Some i" "ci_key i = k"
    using byKey_item [OF assms] by metis
  then have "(k, ci_value i) \<in> set (cache_abs c)"
    by (auto simp: cache_abs_def item_at_def image_iff intro!: bexI [of _ el])
  then show ?thesis using Some i cache_abs_keys_distinct [OF assms] by (simp add: map_of_is_SomeI)
qed

lemma drop_key_abs:
  assumes "cache_inv c" "pc_byKey c k = Some el"
  shows "drop_key k (cache_abs c) = map (item_at c) (remove1 el (pc_order c))"
proof -
  have "drop_key k (cache_abs c) = map (item_at c) (filter (\<lambda>x. x \<noteq> el) (pc_order c))"
    unfolding drop_key_def cache_abs_def filter_map comp_def
    using item_key [OF assms(1), of _ k] assms(2) by (intro arg_cong [of _ _ "map (item_at c)"] filter_cong) auto
  also have "filter (\<lambda>x. x \<noteq> el) (pc_order c) = remove1 el (pc_order c)"
    using cache_invD(3) [OF assms(1)] by (simp add: distinct_remove1_removeAll removeAll_filter_not_eq eq_commute)
  finally show ?thesis .
qed

lemma drop_key_absent:
  assumes "cache_inv c" "pc_byKey c k = None"
  shows "drop_key k (cache_abs c) = cache_abs c"
  unfolding drop_key_def by (rule filter_True) (use byKey_None [OF assms] in force)


section \<open>Each operation keeps the invariant and implements the specification\<close>

lemma remove1_last: "distinct xs \<Longrightarrow> xs \<noteq> [] \<Longrightarrow> remove1 (last xs) xs = butlast xs"
  by (induction xs) auto

lemma front_perm:
  assumes "cache_inv c" "el \<in> set (pc_order c)"
  shows "length (el # remove1 el (pc_order c)) = length (pc_order c)"
    "set (el # remove1 el (pc_order c)) = set (pc_order c)" "distinct (el # remove1 el (pc_order c))"
  using assms(2) cache_invD(3) [OF assms(1)]
  by (auto simp: length_remove1 dest: length_pos_if_in_set)

lemma key_of_update [simp]: "key_of (c\<lparr>pc_order := xs\<rparr>) = key_of c" "key_of (c\<lparr>pc_byKey := m\<rparr>) = key_of c"
  by (auto simp: key_of_def)

lemma Cache_Get_hit:
  assumes "cache_inv c" "pc_byKey c k = Some el"
  shows "cache_inv (fst (Cache_Get c k)) \<and> cache_abs (fst (Cache_Get c k)) = fst (lru_get k (cache_abs c)) \<and>
      snd (Cache_Get c k) = snd (lru_get k (cache_abs c))"
proof -
  obtain i where i: "el \<in> set (pc_order c)" "pc_heap c el = Some i" "ci_key i = k"
    using byKey_item [OF assms] by metis
  let ?c = "c\<lparr>pc_order := el # remove1 el (pc_order c)\<rparr>"
  have get: "Cache_Get c k = (?c, Some (ci_value i))" using assms(2) i by (simp add: Cache_Get_def MoveToFront_def)
  have "cache_inv ?c"
    using assms(1) front_perm [OF assms(1) i(1)] unfolding cache_inv_def by (simp del: list.size)
  moreover have "item_at ?c = item_at c" by (auto simp: item_at_def)
  moreover have "map_of (cache_abs c) k = Some (ci_value i)" using assms(2) i by (simp add: map_of_cache_abs [OF assms(1)])
  moreover have "item_at c el = (k, ci_value i)" using i by (simp add: item_at_def)
  ultimately show ?thesis
    by (simp add: get lru_get_def drop_key_abs [OF assms]) (simp add: cache_abs_def)
qed

lemma Cache_Get_correct:
  assumes "cache_inv c"
  shows "cache_inv (fst (Cache_Get c k))"
    "cache_abs (fst (Cache_Get c k)) = fst (lru_get k (cache_abs c))"
    "snd (Cache_Get c k) = snd (lru_get k (cache_abs c))"
  using Cache_Get_hit [OF assms] assms
  by (cases "pc_byKey c k"; simp add: Cache_Get_def lru_get_def map_of_cache_abs)+

lemma Cache_Delete_hit:
  assumes "cache_inv c" "pc_byKey c k = Some el"
  shows "cache_inv (Cache_Delete c k) \<and> cache_abs (Cache_Delete c k) = drop_key k (cache_abs c)"
proof -
  let ?c = "c\<lparr>pc_order := remove1 el (pc_order c), pc_byKey := (pc_byKey c)(k := None)\<rparr>"
  note inv = cache_invD [OF assms(1)]
  have el: "el \<in> set (pc_order c)" "key_of c el = Some k" using assms(2) inv(6) by auto
  have key: "key_of c x = Some k \<longleftrightarrow> x = el" if "x \<in> set (pc_order c)" for x
    using that inv(6) [of k x] assms(2) by auto
  have "cache_inv ?c"
    using inv(1,2,3,4,5) el key unfolding cache_inv_def
    by (auto simp: length_remove1 inv(6) el(2))
  moreover have "item_at ?c = item_at c" by (auto simp: item_at_def)
  ultimately show ?thesis using assms(2)
    by (simp add: Cache_Delete_def drop_key_abs [OF assms]) (simp add: cache_abs_def)
qed

lemma Cache_Delete_correct:
  assumes "cache_inv c"
  shows "cache_inv (Cache_Delete c k)" "cache_abs (Cache_Delete c k) = drop_key k (cache_abs c)"
  using Cache_Delete_hit [OF assms] assms
  by (cases "pc_byKey c k"; simp add: Cache_Delete_def drop_key_absent)+

lemma Cache_Clear_correct: "cache_inv c \<Longrightarrow> cache_inv (Cache_Clear c)" "cache_abs (Cache_Clear c) = []"
  by (simp_all add: cache_inv_def Cache_Clear_def cache_abs_def)

lemma Cache_Put_update:
  assumes "cache_inv c" "pc_byKey c k = Some el"
  shows "cache_inv (Cache_Put c k e) \<and> cache_abs (Cache_Put c k e) = lru_put (pc_cap c) k e (cache_abs c)"
proof -
  obtain i where i: "el \<in> set (pc_order c)" "pc_heap c el = Some i" "ci_key i = k"
    using byKey_item [OF assms] by metis
  let ?c = "c\<lparr>pc_heap := (pc_heap c)(el := Some (i\<lparr>ci_value := e\<rparr>)), pc_order := el # remove1 el (pc_order c)\<rparr>"
  have put: "Cache_Put c k e = ?c" using assms(2) i by (simp add: Cache_Put_def MoveToFront_def)
  have key: "key_of ?c = key_of c" using i by (auto simp: key_of_def)
  have "cache_inv ?c"
    using assms(1) front_perm [OF assms(1) i(1)] key unfolding cache_inv_def by (simp del: list.size)
  moreover have "map (item_at ?c) (remove1 el (pc_order c)) = map (item_at c) (remove1 el (pc_order c))"
    using front_perm(3) [OF assms(1) i(1)] by (intro map_cong) (auto simp: item_at_def)
  moreover have "length (remove1 el (pc_order c)) < pc_cap c"
    using cache_invD(1,2) [OF assms(1)] i(1) unfolding length_remove1 by simp
  moreover have "item_at ?c el = (k, e)" using i by (simp add: item_at_def)
  ultimately show ?thesis
    unfolding put by (simp add: lru_put_def drop_key_abs [OF assms]) (simp add: cache_abs_def)
qed

text \<open>Inserting a fresh key, before a possible eviction.\<close>

definition insert_fresh :: "Cache \<Rightarrow> string \<Rightarrow> Entry \<Rightarrow> Cache" where
  "insert_fresh c k e = c\<lparr>pc_order := pc_next c # pc_order c,
     pc_heap := (pc_heap c)(pc_next c := Some \<lparr>ci_key = k, ci_value = e\<rparr>),
     pc_byKey := (pc_byKey c)(k := Some (pc_next c)), pc_next := Suc (pc_next c)\<rparr>"

lemma Cache_Put_fresh_eq:
  "pc_byKey c k = None \<Longrightarrow> Cache_Put c k e =
     (let c1 = insert_fresh c k e in
      if length (pc_order c1) > pc_cap c1 then
        let oldest = last (pc_order c1) in
        (case pc_heap c1 oldest of
           Some ci \<Rightarrow> c1\<lparr>pc_order := remove1 oldest (pc_order c1), pc_byKey := (pc_byKey c1)(ci_key ci := None)\<rparr>
         | None \<Rightarrow> c1)
      else c1)"
  by (simp add: Cache_Put_def insert_fresh_def Let_def)

lemma insert_fresh_facts:
  assumes "cache_inv c" "pc_byKey c k = None"
  shows "pc_next c \<notin> set (pc_order c)"
    "pc_byKey (insert_fresh c k e) k' = Some el \<longleftrightarrow>
       el \<in> set (pc_order (insert_fresh c k e)) \<and> key_of (insert_fresh c k e) el = Some k'"
    "el \<in> set (pc_order (insert_fresh c k e)) \<Longrightarrow> el < pc_next (insert_fresh c k e)"
    "el \<in> set (pc_order (insert_fresh c k e)) \<Longrightarrow> \<exists>k'. key_of (insert_fresh c k e) el = Some k'"
    "distinct (pc_order (insert_fresh c k e))"
    "cache_abs (insert_fresh c k e) = (k, e) # cache_abs c"
proof -
  note inv = cache_invD [OF assms(1)]
  show fresh: "pc_next c \<notin> set (pc_order c)" using inv(4) by blast
  have key: "key_of (insert_fresh c k e) x = (if x = pc_next c then Some k else key_of c x)" for x
    by (simp add: key_of_def insert_fresh_def)
  have nokey: "key_of c x \<noteq> Some k" if "x \<in> set (pc_order c)" for x using that inv(6) [of k x] assms(2) by auto
  show "pc_byKey (insert_fresh c k e) k' = Some el \<longleftrightarrow>
       el \<in> set (pc_order (insert_fresh c k e)) \<and> key_of (insert_fresh c k e) el = Some k'"
    using fresh nokey inv(6) [of k' el] unfolding key by (auto simp: insert_fresh_def)
  show "el \<in> set (pc_order (insert_fresh c k e)) \<Longrightarrow> el < pc_next (insert_fresh c k e)"
    using inv(4) by (auto simp: insert_fresh_def less_Suc_eq)
  show "el \<in> set (pc_order (insert_fresh c k e)) \<Longrightarrow> \<exists>k'. key_of (insert_fresh c k e) el = Some k'"
    using inv(5) unfolding key by (auto simp: insert_fresh_def)
  show "distinct (pc_order (insert_fresh c k e))" using inv(3) fresh by (simp add: insert_fresh_def)
  have "map (item_at (insert_fresh c k e)) (pc_order c) = map (item_at c) (pc_order c)"
    using fresh by (intro map_cong) (auto simp: item_at_def insert_fresh_def)
  moreover have "item_at (insert_fresh c k e) (pc_next c) = (k, e)" by (simp add: item_at_def insert_fresh_def)
  moreover have "pc_order (insert_fresh c k e) = pc_next c # pc_order c" by (simp add: insert_fresh_def)
  ultimately show "cache_abs (insert_fresh c k e) = (k, e) # cache_abs c" by (simp add: cache_abs_def)
qed

lemma Cache_Put_fresh:
  assumes "cache_inv c" "pc_byKey c k = None"
  shows "cache_inv (Cache_Put c k e) \<and> cache_abs (Cache_Put c k e) = lru_put (pc_cap c) k e (cache_abs c)"
proof -
  let ?c = "insert_fresh c k e"
  note inv = cache_invD [OF assms(1)] and f = insert_fresh_facts [OF assms]
  have cap: "pc_cap ?c = pc_cap c" and order: "pc_order ?c = pc_next c # pc_order c"
    by (simp_all add: insert_fresh_def)
  have len: "length (cache_abs c) = length (pc_order c)" by (simp add: cache_abs_def)
  show ?thesis
  proof (cases "length (pc_order c) < pc_cap c")
    case True
    then have "Cache_Put c k e = ?c" using assms(2) by (simp add: Cache_Put_def insert_fresh_def Let_def)
    moreover have "cache_inv ?c"
    proof -
      have "length (pc_order ?c) \<le> pc_cap c" using True by (simp add: order)
      then show ?thesis unfolding cache_inv_def cap using inv(1) f(2-5) [where e = e] by blast
    qed
    ultimately show ?thesis using True len f(6) by (simp add: lru_put_def drop_key_absent [OF assms])
  next
    case False
    then have full: "length (pc_order c) = pc_cap c" using inv(2) by simp
    define old where "old = last (pc_order ?c)"
    have old: "old \<in> set (pc_order ?c)" by (simp add: old_def order)
    have rem: "remove1 old (pc_order ?c) = butlast (pc_order ?c)"
      unfolding old_def by (rule remove1_last [OF f(5)]) (simp add: order)
    obtain ko where ko: "key_of ?c old = Some ko" using f(4) [OF old] by blast
    then obtain i where i: "pc_heap ?c old = Some i" "ci_key i = ko" by (auto simp: key_of_def)
    let ?d = "?c\<lparr>pc_order := butlast (pc_order ?c), pc_byKey := (pc_byKey ?c)(ko := None)\<rparr>"
    have put: "Cache_Put c k e = ?d"
    proof -
      have "length (pc_order ?c) > pc_cap ?c" using full by (simp add: order cap)
      then show ?thesis
        unfolding Cache_Put_fresh_eq [OF assms(2)] Let_def old_def [symmetric]
        by (simp only: if_True i option.case rem)
    qed
    have "old \<notin> set (butlast (pc_order ?c))" using rem f(5) by (metis distinct_remove1_removeAll removeAll_id set_removeAll DiffD2 singletonI)
    moreover have "x = old \<or> x \<in> set (butlast (pc_order ?c))" if "x \<in> set (pc_order ?c)" for x
      using that rem by (metis in_set_remove1)
    ultimately have mem: "x \<in> set (butlast (pc_order ?c)) \<longleftrightarrow> x \<in> set (pc_order ?c) \<and> x \<noteq> old" for x
      by (meson in_set_butlastD)
    have key: "key_of ?c x = Some ko \<longleftrightarrow> x = old" if "x \<in> set (pc_order ?c)" for x
      using that ko f(2) [where e = e and k' = ko] old by (metis option.inject)
    have "cache_inv ?d"
    proof -
      have d: "pc_cap ?d = pc_cap c" "pc_order ?d = butlast (pc_order ?c)" "pc_next ?d = pc_next ?c" "key_of ?d = key_of ?c"
        by (simp_all add: cap key_of_def fun_eq_iff)
      have "length (butlast (pc_order ?c)) \<le> pc_cap c" using full unfolding length_butlast by (simp add: order)
      moreover have "distinct (butlast (pc_order ?c))" using f(5) by (rule distinct_butlast)
      moreover have "pc_byKey ?d k' = Some el \<longleftrightarrow> el \<in> set (butlast (pc_order ?c)) \<and> key_of ?c el = Some k'" for k' el
        using f(2) [where e = e and k' = k' and el = el] key [of el] ko by (auto simp: mem)
      ultimately show ?thesis
        unfolding cache_inv_def d using inv(1) f(3,4) [where e = e] by (simp add: mem)
    qed
    moreover have "cache_abs ?d = butlast (cache_abs ?c)"
    proof -
      have "item_at ?d = item_at ?c" by (auto simp: item_at_def)
      then show ?thesis by (simp add: cache_abs_def map_butlast)
    qed
    ultimately show ?thesis
      unfolding put f(6) lru_put_def drop_key_absent [OF assms]
      using full inv(1) len by (simp add: butlast_conv_take)
  qed
qed

lemma Cache_Put_correct:
  assumes "cache_inv c"
  shows "cache_inv (Cache_Put c k e)" "cache_abs (Cache_Put c k e) = lru_put (pc_cap c) k e (cache_abs c)"
  using Cache_Put_fresh [OF assms] Cache_Put_update [OF assms] by (cases "pc_byKey c k"; simp)+

lemma pc_cap_ops [simp]:
  "pc_cap (Cache_Put c k e) = pc_cap c" "pc_cap (fst (Cache_Get c k)) = pc_cap c"
  "pc_cap (Cache_Delete c k) = pc_cap c" "pc_cap (Cache_Clear c) = pc_cap c"
  by (simp_all add: Cache_Put_def Cache_Get_def Cache_Delete_def Cache_Clear_def Let_def split: option.splits)


section \<open>The interface\<close>

text \<open>
  What the clients of a prepared-statement cache rely on. A bounded cache may forget other keys
  when it stores one, but it never invents or changes a binding.
\<close>

locale prepared_map =
  fixes inv :: "'s \<Rightarrow> bool"
    and look :: "'s \<Rightarrow> string \<Rightarrow> 'v option"
    and get :: "'s \<Rightarrow> string \<Rightarrow> 's \<times> 'v option"
    and put :: "'s \<Rightarrow> string \<Rightarrow> 'v \<Rightarrow> 's"
    and delete :: "'s \<Rightarrow> string \<Rightarrow> 's"
    and clear :: "'s \<Rightarrow> 's"
  assumes get_law: "inv s \<Longrightarrow> inv (fst (get s k)) \<and> snd (get s k) = look s k \<and> look (fst (get s k)) k' = look s k'"
    and put_law: "inv s \<Longrightarrow> inv (put s k v) \<and> look (put s k v) k = Some v \<and>
        (k' \<noteq> k \<longrightarrow> look (put s k v) k' \<in> {None, look s k'})"
    and delete_law: "inv s \<Longrightarrow> inv (delete s k) \<and> look (delete s k) k' = (if k' = k then None else look s k')"
    and clear_law: "inv s \<Longrightarrow> inv (clear s) \<and> look (clear s) k' = None"
begin

text \<open>Everything a lookup can return after a put was stored by it or was there before.\<close>

lemma look_put: "inv s \<Longrightarrow> look (put s k v) k' = Some w \<Longrightarrow> k' = k \<and> w = v \<or> k' \<noteq> k \<and> look s k' = Some w"
  using put_law [of s k v k'] put_law [of s k v k] by (cases "k' = k") auto

lemma get_put: "inv s \<Longrightarrow> snd (get (put s k v) k) = Some v"
  using get_law put_law by metis

lemma get_delete: "inv s \<Longrightarrow> snd (get (delete s k) k) = None"
  using get_law delete_law by metis

lemma get_delete_other: "inv s \<Longrightarrow> k' \<noteq> k \<Longrightarrow> snd (get (delete s k) k') = look s k'"
  using get_law delete_law by metis

end

lemma map_of_drop_key: "map_of (drop_key k xs) k' = (if k' = k then None else map_of xs k')"
  by (induction xs) (auto simp: drop_key_def)

lemma map_of_take: "map_of (take n xs) k = Some v \<Longrightarrow> map_of xs k = Some v"
  by (metis append_take_drop_id map_add_find_right map_of_append map_add_Some_iff option.simps(3) not_None_eq)

definition cache_look :: "Cache \<Rightarrow> string \<Rightarrow> Entry option" where
  "cache_look c k = map_of (cache_abs c) k"

interpretation lru: prepared_map cache_inv cache_look Cache_Get Cache_Put Cache_Delete Cache_Clear
proof unfold_locales
  fix c k k' and v :: Entry
  assume inv: "cache_inv c"
  have "map_of (fst (lru_get k (cache_abs c))) k' = map_of (cache_abs c) k'"
    "snd (lru_get k (cache_abs c)) = map_of (cache_abs c) k"
    by (auto simp: lru_get_def map_of_drop_key split: option.splits)
  then show "cache_inv (fst (Cache_Get c k)) \<and> snd (Cache_Get c k) = cache_look c k \<and>
      cache_look (fst (Cache_Get c k)) k' = cache_look c k'"
    using Cache_Get_correct [OF inv, of k] by (simp add: cache_look_def)
  have "map_of (lru_put (pc_cap c) k v (cache_abs c)) k = Some v"
    using cache_invD(1) [OF inv] by (cases "pc_cap c") (simp_all add: lru_put_def)
  moreover have "map_of (lru_put (pc_cap c) k v (cache_abs c)) k' \<in> {None, map_of (cache_abs c) k'}" if "k' \<noteq> k"
    using that map_of_take [of "pc_cap c" "(k, v) # drop_key k (cache_abs c)" k']
    by (cases "map_of (lru_put (pc_cap c) k v (cache_abs c)) k'") (auto simp: lru_put_def map_of_drop_key)
  ultimately show "cache_inv (Cache_Put c k v) \<and> cache_look (Cache_Put c k v) k = Some v \<and>
      (k' \<noteq> k \<longrightarrow> cache_look (Cache_Put c k v) k' \<in> {None, cache_look c k'})"
    using Cache_Put_correct [OF inv, of k v] by (simp add: cache_look_def)
  show "cache_inv (Cache_Delete c k) \<and> cache_look (Cache_Delete c k) k' = (if k' = k then None else cache_look c k')"
    using Cache_Delete_correct [OF inv, of k] by (simp add: cache_look_def map_of_drop_key)
  show "cache_inv (Cache_Clear c) \<and> cache_look (Cache_Clear c) k' = None"
    using Cache_Clear_correct [of c] inv by (simp add: cache_look_def)
qed


section \<open>Properties\<close>

text \<open>The caches a sequence of operations can produce.\<close>

datatype cache_op = OpPut string Entry | OpGet string | OpDelete string | OpClear

fun cache_apply :: "Cache \<Rightarrow> cache_op \<Rightarrow> Cache" where
  "cache_apply c (OpPut k e) = Cache_Put c k e"
| "cache_apply c (OpGet k) = fst (Cache_Get c k)"
| "cache_apply c (OpDelete k) = Cache_Delete c k"
| "cache_apply c OpClear = Cache_Clear c"

fun lru_apply :: "nat \<Rightarrow> (string \<times> Entry) list \<Rightarrow> cache_op \<Rightarrow> (string \<times> Entry) list" where
  "lru_apply n xs (OpPut k e) = lru_put n k e xs"
| "lru_apply n xs (OpGet k) = fst (lru_get k xs)"
| "lru_apply n xs (OpDelete k) = drop_key k xs"
| "lru_apply n xs OpClear = []"

lemma cache_apply_correct:
  "cache_inv c \<Longrightarrow> cache_inv (cache_apply c op) \<and> pc_cap (cache_apply c op) = pc_cap c \<and>
     cache_abs (cache_apply c op) = lru_apply (pc_cap c) (cache_abs c) op"
  by (cases op) (simp_all add: Cache_Put_correct Cache_Get_correct Cache_Delete_correct Cache_Clear_correct)

lemma cache_run:
  "cache_inv c \<Longrightarrow> cache_inv (foldl cache_apply c ops) \<and> pc_cap (foldl cache_apply c ops) = pc_cap c \<and>
     cache_abs (foldl cache_apply c ops) = foldl (lru_apply (pc_cap c)) (cache_abs c) ops"
proof (induction ops arbitrary: c)
  case (Cons op ops)
  then show ?case using cache_apply_correct [OF Cons.prems, of op] by simp
qed simp

text \<open>
  C13: the cache implements an LRU map. For every sequence of operations on a new cache, the linked
  list and its index stay consistent, the list of bindings is the one the specification computes
  (a put or a hit moves the binding to the front, a put beyond the capacity drops the last one),
  and a get returns what the specification returns.
\<close>

theorem cache_refines_lru:
  "let c = foldl cache_apply (Cache_New capacity) ops;
       n = pc_cap (Cache_New capacity);
       xs = foldl (lru_apply n) [] ops
   in cache_inv c \<and> cache_abs c = xs \<and> snd (Cache_Get c k) = map_of xs k"
proof -
  let ?c = "foldl cache_apply (Cache_New capacity) ops"
  have run: "cache_inv ?c" "cache_abs ?c = foldl (lru_apply (pc_cap (Cache_New capacity))) [] ops"
    using cache_run [OF cache_inv_New, of capacity ops] by (simp_all add: cache_abs_def Cache_New_def)
  moreover have "snd (Cache_Get ?c k) = map_of (cache_abs ?c) k"
    using lru.get_law [OF run(1), of k k] by (simp add: cache_look_def)
  ultimately show ?thesis by (simp add: Let_def)
qed

text \<open>
  C14: the cache is bounded: after any sequence of operations it holds at most the requested number
  of entries, or 4096 if the request was not positive, and no two entries share a key.
\<close>

theorem cache_bounded:
  "int (Cache_Len (foldl cache_apply (Cache_New capacity) ops)) \<le> (if capacity \<le> 0 then 4096 else capacity) \<and>
   distinct (map fst (cache_abs (foldl cache_apply (Cache_New capacity) ops)))"
proof -
  let ?c = "foldl cache_apply (Cache_New capacity) ops"
  have "cache_inv ?c" "pc_cap ?c = pc_cap (Cache_New capacity)" using cache_run [OF cache_inv_New] by blast+
  then have "Cache_Len ?c \<le> pc_cap (Cache_New capacity)" using cache_invD(2) [of ?c] by (simp add: Cache_Len_def)
  moreover have "int (pc_cap (Cache_New capacity)) = (if capacity \<le> 0 then 4096 else capacity)"
    by (simp add: Cache_New_def DefaultCapacity_def)
  ultimately show ?thesis using cache_abs_keys_distinct [OF \<open>cache_inv ?c\<close>] by auto
qed

text \<open>
  C15: the map laws: in every reachable cache a get after a put of the same key returns the value put,
  a put of another key either leaves a binding as it is or evicts it, a deleted key misses, and
  deleting one key leaves the others.
\<close>

theorem cache_map_laws:
  assumes "c = foldl cache_apply (Cache_New capacity) ops"
  shows "snd (Cache_Get (Cache_Put c k e) k) = Some e \<and>
     (k' \<noteq> k \<longrightarrow> snd (Cache_Get (Cache_Put c k e) k') \<in> {None, snd (Cache_Get c k')}) \<and>
     snd (Cache_Get (Cache_Delete c k) k) = None \<and>
     (k' \<noteq> k \<longrightarrow> snd (Cache_Get (Cache_Delete c k) k') = snd (Cache_Get c k')) \<and>
     snd (Cache_Get (Cache_Clear c) k') = None"
proof -
  have inv: "cache_inv c" using cache_run [OF cache_inv_New] assms by blast
  then have get: "snd (Cache_Get c x) = cache_look c x" for x using lru.get_law by blast
  have "cache_inv (Cache_Put c k e)" "cache_inv (Cache_Clear c)" using lru.put_law lru.clear_law inv by blast+
  then show ?thesis
    using lru.get_put [OF inv] lru.get_delete [OF inv] lru.get_delete_other [OF inv] lru.put_law [OF inv]
      lru.get_law lru.clear_law [OF inv] by (simp add: get)
qed

definition sample_entry :: Entry where
  "sample_entry = \<lparr>en_Classification = \<lparr>cs_Effects = [], cs_RawVerb = ''SELECT'', cs_ParserBackend = ParserBackendUnknown,
     cs_Error = '''', cs_SourceStart = 0, cs_SourceEnd = 0, cs_PreparedName = '''', cs_BulkOp = BulkOpNone\<rparr>,
     en_RedactionTier = RedactNone, en_CatalogRefreshSearchPath = False, en_CatalogRefreshSnapshot = False,
     en_Redirect = None\<rparr>"

theorem cache_map_laws_witness:
  "snd (Cache_Get (Cache_Put (Cache_New 1) ''a'' sample_entry) ''b'') \<in> {None, snd (Cache_Get (Cache_New 1) ''b'')}"
  using cache_map_laws [of "Cache_New 1" 1 "[]" "''a''" sample_entry "''b''"] by simp

end
