(* ===== verification/Pg_Statemachine.thy ===== *)
theory Pg_Statemachine
  imports Db_Evaluate Prepared_Cache
begin

text \<open>
  The wire-protocol state machine, \<open>src/internal/db/proxy/postgres/statemachine\<close>: connection state
  (state.go), frontend frames (frame.go), actions (action.go), the cache interface (cacheview.go),
  the deny routes (denyroute.go) and the transition function (transition.go).

  The transition function mutates its cache through the interface \<open>CacheView\<close>; the model takes the
  operations as a record over an arbitrary cache state and returns the new cache state. The SQL
  classifier is a parameter: the list of statements it returns (its error is discarded by the
  code). A zero \<open>time.Time\<close> is \<open>None\<close>.
\<close>


section \<open>State (state.go)\<close>

datatype Phase = PhasePreAuth | PhaseIdle | PhaseInQuery | PhaseInTx | PhaseInTxError | PhaseInCopyIn | PhaseInCopyOut

fun Phase_String :: "Phase \<Rightarrow> string" where
  "Phase_String PhasePreAuth = ''pre_auth''"
| "Phase_String PhaseIdle = ''idle''"
| "Phase_String PhaseInQuery = ''in_query''"
| "Phase_String PhaseInTx = ''in_tx''"
| "Phase_String PhaseInTxError = ''in_tx_error''"
| "Phase_String PhaseInCopyIn = ''in_copy_in''"
| "Phase_String PhaseInCopyOut = ''in_copy_out''"

record ConnState =
  st_Phase :: Phase
  st_LastUpstreamRFQ :: char \<comment> \<open>zero byte: none seen yet\<close>
  st_Absorbing :: bool
  st_UpstreamDirtySinceSync :: bool
  st_TxStartedAt :: "int option"


section \<open>Frames (frame.go)\<close>

datatype FrameKind =
    FrameKindQuery | FrameKindParse | FrameKindBind | FrameKindDescribe | FrameKindExecute | FrameKindSync
  | FrameKindFlush | FrameKindClose | FrameKindTerminate | FrameKindFunctionCall | FrameKindCopyData
  | FrameKindCopyDone | FrameKindCopyFail

datatype Frame =
    QueryFrame string \<comment> \<open>SQL\<close>
  | ParseFrame string string \<comment> \<open>Name, SQL\<close>
  | BindFrame string string \<comment> \<open>Portal, Statement\<close>
  | DescribeFrame char string \<comment> \<open>ObjectType, Name\<close>
  | ExecuteFrame string \<comment> \<open>Portal\<close>
  | SyncFrame
  | FlushFrame
  | CloseFrame char string \<comment> \<open>ObjectType, Name\<close>
  | TerminateFrame
  | FunctionCallFrame "32 word"
  | CopyDataFrame "byte list"
  | CopyDoneFrame
  | CopyFailFrame string

fun Frame_Kind :: "Frame \<Rightarrow> FrameKind" where
  "Frame_Kind (QueryFrame _) = FrameKindQuery"
| "Frame_Kind (ParseFrame _ _) = FrameKindParse"
| "Frame_Kind (BindFrame _ _) = FrameKindBind"
| "Frame_Kind (DescribeFrame _ _) = FrameKindDescribe"
| "Frame_Kind (ExecuteFrame _) = FrameKindExecute"
| "Frame_Kind SyncFrame = FrameKindSync"
| "Frame_Kind FlushFrame = FrameKindFlush"
| "Frame_Kind (CloseFrame _ _) = FrameKindClose"
| "Frame_Kind TerminateFrame = FrameKindTerminate"
| "Frame_Kind (FunctionCallFrame _) = FrameKindFunctionCall"
| "Frame_Kind (CopyDataFrame _) = FrameKindCopyData"
| "Frame_Kind CopyDoneFrame = FrameKindCopyDone"
| "Frame_Kind (CopyFailFrame _) = FrameKindCopyFail"


section \<open>Actions (action.go)\<close>

datatype Action =
    ActionForward
  | ActionSynthError string string string \<comment> \<open>SQLState, Message, Severity\<close>
  | ActionSynthReadyForQuery char
  | ActionSynthParseComplete
  | ActionSynthBindComplete
  | ActionSuppress
  | ActionInjectRollback
  | ActionDrainUntilRFQ
  | ActionClose
  | ActionTrackUpstreamRFQ char
  | ActionApproverWait Duration ClassifiedStatement StatementRule


section \<open>The cache interface (cacheview.go)\<close>

record CacheValue =
  va_Verb :: string
  va_GroupID :: "8 word"
  va_OpaqueID :: string
  va_CatalogRefreshSearchPath :: bool
  va_CatalogRefreshSnapshot :: bool

record 's CacheView =
  view_Get :: "'s \<Rightarrow> string \<Rightarrow> 's \<times> CacheValue option"
  view_Put :: "'s \<Rightarrow> string \<Rightarrow> CacheValue \<Rightarrow> 's"
  view_Delete :: "'s \<Rightarrow> string \<Rightarrow> 's"
  view_Clear :: "'s \<Rightarrow> 's"

definition zeroCacheValue :: CacheValue where
  "zeroCacheValue = \<lparr>va_Verb = '''', va_GroupID = 0, va_OpaqueID = '''', va_CatalogRefreshSearchPath = False,
     va_CatalogRefreshSnapshot = False\<rparr>"

text \<open>\<open>FakeCacheView\<close>: an unbounded map that records the calls.\<close>

record CacheOp =
  op_Method :: string
  op_Key :: string
  op_Value :: CacheValue
  op_Hit :: bool

record FakeCacheView =
  fk_store :: "string \<Rightarrow> CacheValue option"
  fk_history :: "CacheOp list"

definition NewFakeCacheView :: FakeCacheView where
  "NewFakeCacheView = \<lparr>fk_store = (\<lambda>_. None), fk_history = []\<rparr>"

definition Fake_Get :: "FakeCacheView \<Rightarrow> string \<Rightarrow> FakeCacheView \<times> CacheValue option" where
  "Fake_Get f name =
     (let v = fk_store f name in
      (f\<lparr>fk_history := fk_history f @ [\<lparr>op_Method = ''Get'', op_Key = name,
           op_Value = (case v of Some x \<Rightarrow> x | None \<Rightarrow> zeroCacheValue), op_Hit = (v \<noteq> None)\<rparr>]\<rparr>, v))"

definition Fake_Put :: "FakeCacheView \<Rightarrow> string \<Rightarrow> CacheValue \<Rightarrow> FakeCacheView" where
  "Fake_Put f name v =
     f\<lparr>fk_store := (fk_store f)(name := Some v),
       fk_history := fk_history f @ [\<lparr>op_Method = ''Put'', op_Key = name, op_Value = v, op_Hit = False\<rparr>]\<rparr>"

definition Fake_Delete :: "FakeCacheView \<Rightarrow> string \<Rightarrow> FakeCacheView" where
  "Fake_Delete f name =
     f\<lparr>fk_store := (fk_store f)(name := None),
       fk_history := fk_history f @ [\<lparr>op_Method = ''Delete'', op_Key = name, op_Value = zeroCacheValue, op_Hit = False\<rparr>]\<rparr>"

definition Fake_Clear :: "FakeCacheView \<Rightarrow> FakeCacheView" where
  "Fake_Clear f =
     f\<lparr>fk_store := (\<lambda>_. None),
       fk_history := fk_history f @ [\<lparr>op_Method = ''Clear'', op_Key = '''', op_Value = zeroCacheValue, op_Hit = False\<rparr>]\<rparr>"

definition Fake_Recorded :: "FakeCacheView \<Rightarrow> CacheOp list" where
  "Fake_Recorded f = fk_history f"

definition fake_view :: "FakeCacheView CacheView" where
  "fake_view = \<lparr>view_Get = Fake_Get, view_Put = Fake_Put, view_Delete = Fake_Delete, view_Clear = Fake_Clear\<rparr>"


section \<open>Deny routes (denyroute.go)\<close>

definition DenyRoute :: "ConnState \<Rightarrow> StatementRule \<Rightarrow> string \<Rightarrow> string \<Rightarrow> Action list" where
  "DenyRoute s rule msg sqlstate =
     (if st_LastUpstreamRFQ s = CHR ''T'' \<or> st_LastUpstreamRFQ s = CHR ''E'' then
        (if sr_DenyModeInTx rule = ''rollback_then_continue'' then
           [ActionSynthError sqlstate msg '''', ActionInjectRollback, ActionDrainUntilRFQ,
            ActionSynthReadyForQuery (CHR ''I'')]
         else [ActionSynthError sqlstate msg ''FATAL'', ActionClose])
      else if st_UpstreamDirtySinceSync s then
        [ActionSynthError sqlstate msg '''', ActionDrainUntilRFQ]
      else [ActionSynthError sqlstate msg '''', ActionSynthReadyForQuery (CHR ''I'')])"


section \<open>Transitions (transition.go)\<close>

definition portalCacheKey :: "string \<Rightarrow> string" where
  "portalCacheKey name = CHR 0x00 # ''portal:'' @ name"

definition containsClose :: "Action list \<Rightarrow> bool" where
  "containsClose acts = list_ex (\<lambda>a. a = ActionClose) acts"

definition sqlstateForDecision :: "Decision \<Rightarrow> string" where
  "sqlstateForDecision d = (if d_RuleKind d = RuleKindConnection then ''28000'' else ''42501'')"

definition renderDenyMessage :: "Decision \<Rightarrow> string" where
  "renderDenyMessage d =
     (if d_RuleName d \<noteq> '''' then ''denied by AgentMon policy: '' @ d_RuleName d
      else if d_Reason d \<noteq> '''' then ''denied by AgentMon policy: '' @ d_Reason d
      else ''denied by AgentMon policy'')"

definition lookupStatementRule :: "RuleSet option \<Rightarrow> string \<Rightarrow> StatementRule" where
  "lookupStatementRule rs name =
     (if rs = None \<or> name = '''' then zeroStatementRule
      else case find (\<lambda>r. sr_Name r = name) (AllStatementRules rs) of
             Some r \<Rightarrow> r
           | None \<Rightarrow> zeroStatementRule)"

definition newApproverWaitAction :: "Decision \<Rightarrow> ClassifiedStatement \<Rightarrow> StatementRule \<Rightarrow> Action" where
  "newApproverWaitAction d cs rule =
     (let timeout = sr_Timeout rule;
          timeout = (case d_Approval d of
                       Some a \<Rightarrow> if timeout = 0 then ar_Timeout a else timeout
                     | None \<Rightarrow> timeout);
          timeout = (if timeout = 0 then 60 * Second else timeout)
      in ActionApproverWait timeout cs rule)"

text \<open>
  The statement loop of \<open>handleParse\<close> and \<open>handleQuery\<close>: an approve returns at once, a deny breaks out.
  \<open>Evaluate\<close> never panics (\<open>Evaluate_total\<close>), so \<open>the\<close> is its result.
\<close>

datatype scan_result = ScanAllow | ScanApprove Action | ScanDeny Decision StatementRule

fun scan_statements :: "db_env \<Rightarrow> RuleSet option \<Rightarrow> ServiceID \<Rightarrow> ClassifiedStatement list \<Rightarrow> scan_result" where
  "scan_statements env rules svc [] = ScanAllow"
| "scan_statements env rules svc (cs # stmts) =
     (let d = the (Evaluate env cs rules svc) in
      if d_Verb d = VerbApprove then
        ScanApprove (newApproverWaitAction d cs (lookupStatementRule rules (d_RuleName d)))
      else if d_Verb d = VerbDeny then ScanDeny d (lookupStatementRule rules (d_RuleName d))
      else scan_statements env rules svc stmts)"

definition handleSync :: "ConnState \<Rightarrow> ConnState \<times> Action list" where
  "handleSync s =
     (if \<not> st_Absorbing s \<and> \<not> st_UpstreamDirtySinceSync s then (s, [ActionForward])
      else if st_Absorbing s \<and> st_UpstreamDirtySinceSync s then
        (s\<lparr>st_Absorbing := False, st_UpstreamDirtySinceSync := False\<rparr>, [ActionForward, ActionDrainUntilRFQ])
      else if st_Absorbing s \<and> \<not> st_UpstreamDirtySinceSync s then
        (s\<lparr>st_Absorbing := False\<rparr>, [ActionSynthReadyForQuery (CHR ''I'')])
      else (s\<lparr>st_UpstreamDirtySinceSync := False\<rparr>, [ActionForward, ActionDrainUntilRFQ]))"

definition handleParse ::
    "db_env \<Rightarrow> 's CacheView \<Rightarrow> (string \<Rightarrow> ClassifiedStatement list) \<Rightarrow> RuleSet option \<Rightarrow> ServiceID \<Rightarrow>
     ConnState \<Rightarrow> string \<Rightarrow> string \<Rightarrow> 's \<Rightarrow> ConnState \<times> Action list \<times> 's" where
  "handleParse env view classify rules svc s name sql c =
     (if st_Absorbing s then (s, [ActionSuppress], c)
      else
        let stmts = classify sql in
        case scan_statements env rules svc stmts of
          ScanApprove a \<Rightarrow> (s, [a], c)
        | ScanDeny d rule \<Rightarrow>
            let actions = DenyRoute s rule (renderDenyMessage d) (sqlstateForDecision d) in
            (if \<not> containsClose actions then s\<lparr>st_Absorbing := True\<rparr> else s, actions, c)
        | ScanAllow \<Rightarrow>
            let verb = (case stmts of [] \<Rightarrow> '''' | cs # _ \<Rightarrow> cs_RawVerb cs);
                groupID = (case stmts of [] \<Rightarrow> 0
                           | cs # _ \<Rightarrow> (case cs_Effects cs of [] \<Rightarrow> 0 | e # _ \<Rightarrow> Group_ID (e_Group e)))
            in (s\<lparr>st_UpstreamDirtySinceSync := True\<rparr>, [ActionForward],
                view_Put view c name (zeroCacheValue\<lparr>va_Verb := verb, va_GroupID := groupID\<rparr>)))"

definition handleBind :: "'s CacheView \<Rightarrow> ConnState \<Rightarrow> string \<Rightarrow> string \<Rightarrow> 's \<Rightarrow> ConnState \<times> Action list \<times> 's" where
  "handleBind view s portal statement c =
     (if st_Absorbing s then (s, [ActionSuppress], c)
      else case view_Get view c statement of
        (c', None) \<Rightarrow>
          (s\<lparr>st_Absorbing := True\<rparr>,
           [ActionSynthError ''34000'' (''prepared statement '' @ [CHR 0x22] @ statement @ [CHR 0x22] @ '' does not exist'') ''''], c')
      | (c', Some entry) \<Rightarrow>
          (s\<lparr>st_UpstreamDirtySinceSync := True\<rparr>, [ActionForward], view_Put view c' (portalCacheKey portal) entry))"

definition handleDescribe :: "ConnState \<Rightarrow> ConnState \<times> Action list" where
  "handleDescribe s =
     (if st_Absorbing s then (s, [ActionSuppress])
      else (s\<lparr>st_UpstreamDirtySinceSync := True\<rparr>, [ActionForward]))"

definition handleExecute :: "'s CacheView \<Rightarrow> ConnState \<Rightarrow> string \<Rightarrow> 's \<Rightarrow> ConnState \<times> Action list \<times> 's" where
  "handleExecute view s portal c =
     (if st_Absorbing s then (s, [ActionSuppress], c)
      else case view_Get view c (portalCacheKey portal) of
        (c', None) \<Rightarrow>
          (s\<lparr>st_Absorbing := True\<rparr>,
           [ActionSynthError ''34000'' (''portal '' @ [CHR 0x22] @ portal @ [CHR 0x22] @ '' does not exist'') ''''], c')
      | (c', Some _) \<Rightarrow> (s\<lparr>st_UpstreamDirtySinceSync := True\<rparr>, [ActionForward], c'))"

definition handleFlush :: "ConnState \<Rightarrow> ConnState \<times> Action list" where
  "handleFlush s = (if st_Absorbing s then (s, [ActionSuppress]) else (s, [ActionForward]))"

definition handleClose :: "'s CacheView \<Rightarrow> ConnState \<Rightarrow> char \<Rightarrow> string \<Rightarrow> 's \<Rightarrow> ConnState \<times> Action list \<times> 's" where
  "handleClose view s objectType name c =
     (if st_Absorbing s then (s, [ActionSuppress], c)
      else
        (s\<lparr>st_UpstreamDirtySinceSync := True\<rparr>, [ActionForward],
         if objectType = CHR ''S'' then view_Delete view c name
         else if objectType = CHR ''P'' then view_Delete view c (portalCacheKey name)
         else c))"

definition handleQuery ::
    "db_env \<Rightarrow> (string \<Rightarrow> ClassifiedStatement list) \<Rightarrow> RuleSet option \<Rightarrow> ServiceID \<Rightarrow>
     ConnState \<Rightarrow> string \<Rightarrow> ConnState \<times> Action list" where
  "handleQuery env classify rules svc s sql =
     (if st_Absorbing s then (s, [ActionSuppress])
      else case scan_statements env rules svc (classify sql) of
        ScanApprove a \<Rightarrow> (s, [a])
      | ScanDeny d rule \<Rightarrow> (s, DenyRoute s rule (renderDenyMessage d) (sqlstateForDecision d))
      | ScanAllow \<Rightarrow> (s, [ActionForward]))"

definition TransitionWithParser ::
    "db_env \<Rightarrow> 's CacheView \<Rightarrow> (string \<Rightarrow> ClassifiedStatement list) \<Rightarrow> RuleSet option \<Rightarrow> ServiceID \<Rightarrow>
     ConnState \<Rightarrow> Frame \<Rightarrow> 's \<Rightarrow> ConnState \<times> Action list \<times> 's" where
  "TransitionWithParser env view classify rules svc s frame c =
     (case frame of
        SyncFrame \<Rightarrow> (case handleSync s of (s', as) \<Rightarrow> (s', as, c))
      | QueryFrame sql \<Rightarrow> (case handleQuery env classify rules svc s sql of (s', as) \<Rightarrow> (s', as, c))
      | ParseFrame name sql \<Rightarrow> handleParse env view classify rules svc s name sql c
      | BindFrame portal statement \<Rightarrow> handleBind view s portal statement c
      | DescribeFrame _ _ \<Rightarrow> (case handleDescribe s of (s', as) \<Rightarrow> (s', as, c))
      | ExecuteFrame portal \<Rightarrow> handleExecute view s portal c
      | FlushFrame \<Rightarrow> (case handleFlush s of (s', as) \<Rightarrow> (s', as, c))
      | CloseFrame objectType name \<Rightarrow> handleClose view s objectType name c
      | TerminateFrame \<Rightarrow> (s, [ActionForward, ActionClose], c)
      | _ \<Rightarrow> (s, [ActionSynthError ''0A000'' ''frame not supported'' '''', ActionClose], c))"

section \<open>The cache contract\<close>

text \<open>
  What the transition function relies on: a get returns the binding and keeps the contents, a put
  binds the key to what the implementation keeps of the value (\<open>norm\<close>) and may evict other keys
  but never invents a binding, and a delete or clear removes what it names.
\<close>

locale cache_view =
  fixes view :: "'s CacheView"
    and inv :: "'s \<Rightarrow> bool"
    and look :: "'s \<Rightarrow> string \<Rightarrow> CacheValue option"
    and norm :: "CacheValue \<Rightarrow> CacheValue"
  assumes get_result: "inv c \<Longrightarrow> snd (view_Get view c k) = look c k"
    and get_look: "inv c \<Longrightarrow> look (fst (view_Get view c k)) k' = look c k'"
    and put_same: "inv c \<Longrightarrow> look (view_Put view c k v) k = Some (norm v)"
    and put_other: "inv c \<Longrightarrow> k' \<noteq> k \<Longrightarrow> look (view_Put view c k v) k' \<in> {None, look c k'}"
    and delete_same: "inv c \<Longrightarrow> look (view_Delete view c k) k = None"
    and delete_other: "inv c \<Longrightarrow> k' \<noteq> k \<Longrightarrow> look (view_Delete view c k) k' = look c k'"
    and clear_look: "inv c \<Longrightarrow> look (view_Clear view c) k = None"
    and inv_get: "inv c \<Longrightarrow> inv (fst (view_Get view c k))"
    and inv_put: "inv c \<Longrightarrow> inv (view_Put view c k v)"
    and inv_delete: "inv c \<Longrightarrow> inv (view_Delete view c k)"
    and inv_clear: "inv c \<Longrightarrow> inv (view_Clear view c)"

text \<open>A view that keeps values unchanged and never evicts.\<close>

locale exact_cache_view = cache_view view inv look "\<lambda>v. v"
  for view :: "'s CacheView" and inv :: "'s \<Rightarrow> bool" and look :: "'s \<Rightarrow> string \<Rightarrow> CacheValue option" +
  assumes put_keeps: "inv c \<Longrightarrow> k' \<noteq> k \<Longrightarrow> look (view_Put view c k v) k' = look c k'"
begin

lemma put_look: "inv c \<Longrightarrow> look (view_Put view c k v) = (look c)(k := Some v)"
  by (auto simp: fun_eq_iff put_same put_keeps)

lemma get_after_put: "inv c \<Longrightarrow> snd (view_Get view (view_Put view c k v) k) = Some v"
  by (simp add: get_result inv_put put_same)

end

lemmas fake_view_defs = fake_view_def Fake_Get_def Fake_Put_def Fake_Delete_def Fake_Clear_def

interpretation fake: exact_cache_view fake_view "\<lambda>_. True" fk_store
  by unfold_locales (simp_all add: fake_view_defs Let_def)


section \<open>Runs of a connection\<close>

text \<open>
  A trace records the frames with the rules and the classifier in force and the resulting actions,
  and the updates the dispatcher makes to the state when it reads from upstream, which leave
  \<open>Absorbing\<close> alone. Rules and classifier may change from frame to frame.
\<close>

datatype event =
    FrontendEvent "RuleSet option" "string \<Rightarrow> ClassifiedStatement list" Frame "Action list"
  | UpstreamEvent

inductive run :: "db_env \<Rightarrow> 's CacheView \<Rightarrow> ServiceID \<Rightarrow> ConnState \<Rightarrow> 's \<Rightarrow> event list \<Rightarrow> ConnState \<Rightarrow> 's \<Rightarrow> bool"
  for env view svc s0 c0 where
  run_start: "run env view svc s0 c0 [] s0 c0"
| run_frame: "run env view svc s0 c0 tr s c \<Longrightarrow>
    TransitionWithParser env view classify rules svc s f c = (s', acts, c') \<Longrightarrow>
    run env view svc s0 c0 (tr @ [FrontendEvent rules classify f acts]) s' c'"
| run_upstream: "run env view svc s0 c0 tr s c \<Longrightarrow> st_Absorbing s' = st_Absorbing s \<Longrightarrow>
    run env view svc s0 c0 (tr @ [UpstreamEvent]) s' c"

inductive_cases run_NilE: "run env view svc s0 c0 [] s c"
inductive_cases run_snocE: "run env view svc s0 c0 (tr @ [e]) s c"

text \<open>
  What the server behind the proxy holds: the statements and portals that the forwarded frames
  have defined, each with the rules and the classification under which its text was forwarded.
\<close>

type_synonym origin = "RuleSet option \<times> ClassifiedStatement list"

record server_view =
  sv_statements :: "string \<Rightarrow> origin option"
  sv_portals :: "string \<Rightarrow> origin option"

definition empty_server :: server_view where
  "empty_server = \<lparr>sv_statements = (\<lambda>_. None), sv_portals = (\<lambda>_. None)\<rparr>"

fun server_step :: "server_view \<Rightarrow> event \<Rightarrow> server_view" where
  "server_step sv (FrontendEvent rules classify f acts) =
     (if ActionForward \<notin> set acts then sv
      else case f of
        ParseFrame name sql \<Rightarrow> sv\<lparr>sv_statements := (sv_statements sv)(name := Some (rules, classify sql))\<rparr>
      | BindFrame portal name \<Rightarrow> sv\<lparr>sv_portals := (sv_portals sv)(portal := sv_statements sv name)\<rparr>
      | CloseFrame t name \<Rightarrow>
          if t = CHR ''S'' then sv\<lparr>sv_statements := (sv_statements sv)(name := None)\<rparr>
          else if t = CHR ''P'' then sv\<lparr>sv_portals := (sv_portals sv)(name := None)\<rparr>
          else sv
      | _ \<Rightarrow> sv)"
| "server_step sv UpstreamEvent = sv"

definition server_of :: "event list \<Rightarrow> server_view" where
  "server_of tr = foldl server_step empty_server tr"

text \<open>A batch that may be forwarded: no statement is denied or waits for approval.\<close>

definition batch_passes :: "db_env \<Rightarrow> ServiceID \<Rightarrow> origin \<Rightarrow> bool" where
  "batch_passes env svc og =
     (case og of (rules, stmts) \<Rightarrow>
        list_all (\<lambda>cs. d_Verb (the (Evaluate env cs rules svc)) \<notin> {VerbDeny, VerbApprove}) stmts)"

text \<open>Names read from the wire are C strings.\<close>

definition wire_name :: "string \<Rightarrow> bool" where
  "wire_name n \<longleftrightarrow> CHR 0x00 \<notin> set n"

fun wire_event :: "event \<Rightarrow> bool" where
  "wire_event (FrontendEvent _ _ (ParseFrame n _) _) = wire_name n"
| "wire_event (FrontendEvent _ _ (BindFrame _ n) _) = wire_name n"
| "wire_event (FrontendEvent _ _ (CloseFrame _ n) _) = wire_name n"
| "wire_event _ = True"


section \<open>Lemmas\<close>

lemma wire_name_neq_portal: "wire_name n \<Longrightarrow> n \<noteq> portalCacheKey p"
  by (auto simp: wire_name_def portalCacheKey_def)

lemma portalCacheKey_inj [simp]: "portalCacheKey p = portalCacheKey q \<longleftrightarrow> p = q"
  by (simp add: portalCacheKey_def)

lemma scan_allow_iff:
  "scan_statements env rules svc stmts = ScanAllow \<longleftrightarrow> batch_passes env svc (rules, stmts)"
  by (induction stmts) (auto simp: batch_passes_def Let_def)

lemma newApproverWait_neq [simp]:
  "newApproverWaitAction d cs r \<noteq> ActionForward" "ActionForward \<noteq> newApproverWaitAction d cs r"
  "newApproverWaitAction d cs r \<noteq> ActionInjectRollback"
  by (simp_all add: newApproverWaitAction_def Let_def)

lemma scan_approve_not_forward [simp]:
  "scan_statements env rules svc stmts = ScanApprove a \<Longrightarrow> a \<noteq> ActionForward"
  by (induction stmts) (auto simp: Let_def split: if_splits)

lemma DenyRoute_no_forward [simp]: "ActionForward \<notin> set (DenyRoute s r m q)"
  by (simp add: DenyRoute_def)

lemmas handler_defs =
  handleSync_def handleParse_def handleBind_def handleDescribe_def handleExecute_def handleFlush_def
  handleClose_def handleQuery_def

text \<open>
  The simulation relation: every key the cache binds names a statement or portal that the server
  holds, and whose text passed the policy when it was forwarded.
\<close>

definition origin_ok :: "db_env \<Rightarrow> ServiceID \<Rightarrow> origin option \<Rightarrow> bool" where
  "origin_ok env svc x = (case x of None \<Rightarrow> False | Some og \<Rightarrow> batch_passes env svc og)"

definition cache_agrees :: "db_env \<Rightarrow> ServiceID \<Rightarrow> (string \<Rightarrow> CacheValue option) \<Rightarrow> server_view \<Rightarrow> bool" where
  "cache_agrees env svc m sv \<longleftrightarrow>
     (\<forall>n. wire_name n \<longrightarrow> m n \<noteq> None \<longrightarrow> origin_ok env svc (sv_statements sv n)) \<and>
     (\<forall>p. m (portalCacheKey p) \<noteq> None \<longrightarrow> origin_ok env svc (sv_portals sv p))"

lemma origin_ok_simps [simp]:
  "\<not> origin_ok env svc None" "origin_ok env svc (Some og) = batch_passes env svc og"
  by (simp_all add: origin_ok_def)

lemma cache_agreesI:
  assumes "\<And>n. wire_name n \<Longrightarrow> m n \<noteq> None \<Longrightarrow> origin_ok env svc (sv_statements sv n)"
    and "\<And>p. m (portalCacheKey p) \<noteq> None \<Longrightarrow> origin_ok env svc (sv_portals sv p)"
  shows "cache_agrees env svc m sv"
  unfolding cache_agrees_def using assms by blast

lemma cache_agrees_statement:
  "cache_agrees env svc m sv \<Longrightarrow> wire_name n \<Longrightarrow> m n \<noteq> None \<Longrightarrow> origin_ok env svc (sv_statements sv n)"
  unfolding cache_agrees_def by blast

lemma cache_agrees_portal:
  "cache_agrees env svc m sv \<Longrightarrow> m (portalCacheKey p) \<noteq> None \<Longrightarrow> origin_ok env svc (sv_portals sv p)"
  unfolding cache_agrees_def by blast

text \<open>One lemma for every update: the keys that are bound anew must be accounted for.\<close>

lemma cache_agrees_update:
  assumes agrees: "cache_agrees env svc m sv"
    and statement: "\<And>n. wire_name n \<Longrightarrow> m' n \<noteq> None \<Longrightarrow>
          origin_ok env svc (sv_statements sv' n) \<or> m n \<noteq> None \<and> sv_statements sv' n = sv_statements sv n"
    and portal: "\<And>p. m' (portalCacheKey p) \<noteq> None \<Longrightarrow>
          origin_ok env svc (sv_portals sv' p) \<or> m (portalCacheKey p) \<noteq> None \<and> sv_portals sv' p = sv_portals sv p"
  shows "cache_agrees env svc m' sv'"
proof (rule cache_agreesI)
  fix n assume "wire_name n" "m' n \<noteq> None"
  with statement [of n] cache_agrees_statement [OF agrees, of n] show "origin_ok env svc (sv_statements sv' n)" by auto
next
  fix p assume "m' (portalCacheKey p) \<noteq> None"
  with portal [of p] cache_agrees_portal [OF agrees, of p] show "origin_ok env svc (sv_portals sv' p)" by auto
qed

lemma cache_agrees_mono:
  assumes "cache_agrees env svc m sv" "\<And>k. m' k \<noteq> None \<Longrightarrow> m k \<noteq> None"
  shows "cache_agrees env svc m' sv"
  by (rule cache_agrees_update [OF assms(1)]) (simp_all add: assms(2))

lemma cache_agrees_define:
  assumes "cache_agrees env svc m sv" "wire_name n" "batch_passes env svc og"
    and "\<And>k. k \<noteq> n \<Longrightarrow> m' k \<noteq> None \<Longrightarrow> m k \<noteq> None"
  shows "cache_agrees env svc m' (sv\<lparr>sv_statements := (sv_statements sv)(n := Some og)\<rparr>)"
  by (rule cache_agrees_update [OF assms(1)])
    (simp_all add: assms(3,4) wire_name_neq_portal [OF assms(2), symmetric] del: not_None_eq)

lemma cache_agrees_bind:
  assumes "cache_agrees env svc m sv" "origin_ok env svc (sv_statements sv n)"
    and "\<And>k. k \<noteq> portalCacheKey p \<Longrightarrow> m' k \<noteq> None \<Longrightarrow> m k \<noteq> None"
  shows "cache_agrees env svc m' (sv\<lparr>sv_portals := (sv_portals sv)(p := sv_statements sv n)\<rparr>)"
  by (rule cache_agrees_update [OF assms(1)]) (simp_all add: assms(2,3) wire_name_neq_portal del: not_None_eq)

lemma cache_agrees_drop_statement:
  assumes "cache_agrees env svc m sv" "wire_name n" "m' n = None" "\<And>k. k \<noteq> n \<Longrightarrow> m' k = m k"
  shows "cache_agrees env svc m' (sv\<lparr>sv_statements := (sv_statements sv)(n := None)\<rparr>)"
proof (rule cache_agrees_update [OF assms(1)])
  fix k assume "m' k \<noteq> None"
  with assms(3) have "k \<noteq> n" by auto
  with \<open>m' k \<noteq> None\<close> assms(4) [of k]
  show "origin_ok env svc (sv_statements (sv\<lparr>sv_statements := (sv_statements sv)(n := None)\<rparr>) k) \<or>
      m k \<noteq> None \<and> sv_statements (sv\<lparr>sv_statements := (sv_statements sv)(n := None)\<rparr>) k = sv_statements sv k" by simp
qed (simp add: assms(4) wire_name_neq_portal [OF assms(2), symmetric])

lemma cache_agrees_drop_portal:
  assumes "cache_agrees env svc m sv" "m' (portalCacheKey p) = None" "\<And>k. k \<noteq> portalCacheKey p \<Longrightarrow> m' k = m k"
  shows "cache_agrees env svc m' (sv\<lparr>sv_portals := (sv_portals sv)(p := None)\<rparr>)"
proof (rule cache_agrees_update [OF assms(1)])
  fix q assume "m' (portalCacheKey q) \<noteq> None"
  with assms(2) have "q \<noteq> p" by auto
  with \<open>m' (portalCacheKey q) \<noteq> None\<close> assms(3) [of "portalCacheKey q"]
  show "origin_ok env svc (sv_portals (sv\<lparr>sv_portals := (sv_portals sv)(p := None)\<rparr>) q) \<or>
      m (portalCacheKey q) \<noteq> None \<and> sv_portals (sv\<lparr>sv_portals := (sv_portals sv)(p := None)\<rparr>) q = sv_portals sv q" by simp
qed (simp add: assms(3) wire_name_neq_portal)

context cache_view
begin

lemma get_cases:
  assumes "inv c"
  obtains (miss) c' where "view_Get view c k = (c', None)" "look c k = None" "inv c'" "\<And>k'. look c' k' = look c k'"
  | (hit) c' v where "view_Get view c k = (c', Some v)" "look c k = Some v" "inv c'" "\<And>k'. look c' k' = look c k'"
proof (cases "view_Get view c k")
  case (Pair c' r)
  with get_result [OF assms, of k] get_look [OF assms, of k] inv_get [OF assms, of k]
  have "inv c'" "look c k = r" "\<And>k'. look c' k' = look c k'" by simp_all
  with Pair show ?thesis by (cases r) (rule miss [of c'], simp_all add: hit)
qed

lemma put_mono: "inv c \<Longrightarrow> k \<noteq> n \<Longrightarrow> look (view_Put view c n v) k \<noteq> None \<Longrightarrow> look c k \<noteq> None"
  using put_other [of c k n v] by auto

lemma parse_agrees:
  assumes "inv c" "cache_agrees env svc (look c) sv" "wire_name n"
    and "handleParse env view classify rules svc s n sql c = (s', acts, c')"
  shows "inv c' \<and> cache_agrees env svc (look c') (server_step sv (FrontendEvent rules classify (ParseFrame n sql) acts))"
proof (cases "st_Absorbing s")
  case True with assms show ?thesis by (auto simp: handleParse_def)
next
  case False
  show ?thesis
  proof (cases "scan_statements env rules svc (classify sql)")
    case ScanAllow
    then have "batch_passes env svc (rules, classify sql)" by (simp add: scan_allow_iff)
    moreover from False ScanAllow assms(4) obtain v where "c' = view_Put view c n v" "acts = [ActionForward]"
      by (auto simp: handleParse_def Let_def)
    ultimately show ?thesis
      using cache_agrees_define [OF assms(2,3), of "(rules, classify sql)" "look c'"] put_mono [OF assms(1), of _ n v]
      by (simp add: inv_put assms(1))
  next
    case (ScanApprove a)
    with False assms show ?thesis by (auto simp: handleParse_def Let_def dest!: scan_approve_not_forward)
  next
    case (ScanDeny d r)
    with False assms show ?thesis by (auto simp: handleParse_def Let_def)
  qed
qed

lemma bind_agrees:
  assumes "inv c" "cache_agrees env svc (look c) sv" "wire_name n"
    and "handleBind view s p n c = (s', acts, c')"
  shows "inv c' \<and> cache_agrees env svc (look c') (server_step sv (FrontendEvent rules classify (BindFrame p n) acts))"
proof (cases "st_Absorbing s")
  case True with assms show ?thesis by (auto simp: handleBind_def)
next
  case False
  from assms(1) show ?thesis
  proof (cases rule: get_cases [where k = n])
    case (miss c1)
    with False assms(2,4) show ?thesis
      by (auto simp: handleBind_def intro: cache_agrees_mono)
  next
    case (hit c1 v)
    from cache_agrees_statement [OF assms(2,3)] hit(2) have og: "origin_ok env svc (sv_statements sv n)" by simp
    from False hit(1) assms(4) have c': "c' = view_Put view c1 (portalCacheKey p) v" "acts = [ActionForward]"
      by (auto simp: handleBind_def)
    have "look c k \<noteq> None" if "k \<noteq> portalCacheKey p" "look c' k \<noteq> None" for k
      using put_mono [OF hit(3) that(1), of v] that(2) hit(4) c'(1) by simp
    from cache_agrees_bind [OF assms(2) og this] c' hit(3) show ?thesis
      by (simp add: inv_put)
  qed
qed

lemma execute_agrees:
  assumes "inv c" "cache_agrees env svc (look c) sv" "handleExecute view s p c = (s', acts, c')"
  shows "inv c' \<and> cache_agrees env svc (look c') sv \<and>
     (ActionForward \<in> set acts \<longrightarrow> origin_ok env svc (sv_portals sv p))"
proof (cases "st_Absorbing s")
  case True with assms show ?thesis by (auto simp: handleExecute_def)
next
  case False
  from assms(1) show ?thesis
  proof (cases rule: get_cases [where k = "portalCacheKey p"])
    case (miss c1)
    with False assms(2,3) show ?thesis
      by (auto simp: handleExecute_def intro: cache_agrees_mono)
  next
    case (hit c1 v)
    with cache_agrees_portal [OF assms(2)] False assms(2,3) show ?thesis
      by (auto simp: handleExecute_def intro: cache_agrees_mono)
  qed
qed

lemma close_agrees:
  assumes "inv c" "cache_agrees env svc (look c) sv" "wire_name n" "handleClose view s t n c = (s', acts, c')"
  shows "inv c' \<and> cache_agrees env svc (look c') (server_step sv (FrontendEvent rules classify (CloseFrame t n) acts))"
proof (cases "st_Absorbing s")
  case True with assms show ?thesis by (auto simp: handleClose_def)
next
  case False
  consider (S) "t = CHR ''S''" | (P) "t = CHR ''P''" | (none) "t \<noteq> CHR ''S''" "t \<noteq> CHR ''P''" by blast
  then show ?thesis
  proof cases
    case S
    with False assms(4) cache_agrees_drop_statement [OF assms(2,3), of "look c'"] show ?thesis
      by (auto simp: handleClose_def assms(1) inv_delete delete_same delete_other)
  next
    case P
    with False assms(4) cache_agrees_drop_portal [OF assms(2), of "look c'" n] show ?thesis
      by (auto simp: handleClose_def assms(1) inv_delete delete_same delete_other)
  next
    case none
    with False assms show ?thesis by (auto simp: handleClose_def)
  qed
qed

lemma transition_agrees:
  assumes "inv c" "cache_agrees env svc (look c) sv" "wire_event (FrontendEvent rules classify f acts)"
    and "TransitionWithParser env view classify rules svc s f c = (s', acts, c')"
  shows "inv c' \<and> cache_agrees env svc (look c') (server_step sv (FrontendEvent rules classify f acts))"
proof (cases f)
  case (ParseFrame n sql)
  with assms show ?thesis by (simp add: TransitionWithParser_def parse_agrees del: server_step.simps)
next
  case (BindFrame p n)
  with assms show ?thesis by (simp add: TransitionWithParser_def bind_agrees del: server_step.simps)
next
  case (ExecuteFrame p)
  with assms execute_agrees [OF assms(1,2), of s p s' acts c'] show ?thesis by (auto simp: TransitionWithParser_def)
next
  case (CloseFrame t n)
  with assms show ?thesis by (simp add: TransitionWithParser_def close_agrees del: server_step.simps)
qed (use assms in \<open>auto simp: TransitionWithParser_def split: prod.splits\<close>)

lemma run_agrees:
  assumes "run env view svc s0 c0 tr s c" "inv c0" "\<And>k. look c0 k = None" "list_all wire_event tr"
  shows "inv c \<and> cache_agrees env svc (look c) (server_of tr)"
  using assms
proof (induction rule: run.induct)
  case run_start
  then show ?case by (simp add: cache_agrees_def)
next
  case (run_frame tr s c classify rules f s' acts c')
  then show ?case
    using transition_agrees [of c env svc "server_of tr" rules classify f acts s s' c']
    by (simp add: server_of_def)
next
  case (run_upstream tr s c s')
  then show ?case by (simp add: server_of_def)
qed

text \<open>A forwarded Execute runs a portal whose text passed the policy.\<close>

lemma forwarded_execute_passes:
  assumes "run env view svc s0 c0 tr s c" "inv c0" "\<And>k. look c0 k = None" "list_all wire_event tr"
    and "TransitionWithParser env view classify rules svc s (ExecuteFrame p) c = (s', acts, c')" "ActionForward \<in> set acts"
  shows "origin_ok env svc (sv_portals (server_of tr) p)"
  using execute_agrees [of c env svc "server_of tr" s p s' acts c'] run_agrees [OF assms(1-4)] assms(5,6)
  by (simp add: TransitionWithParser_def)

end

lemma batch_passes_Cons [simp]:
  "batch_passes env svc (rules, cs # stmts) \<longleftrightarrow>
     d_Verb (the (Evaluate env cs rules svc)) \<notin> {VerbDeny, VerbApprove} \<and> batch_passes env svc (rules, stmts)"
  "batch_passes env svc (rules, [])"
  by (auto simp: batch_passes_def)

lemma scan_append_pass:
  "batch_passes env svc (rules, pre) \<Longrightarrow>
     scan_statements env rules svc (pre @ stmts) = scan_statements env rules svc stmts"
  by (induction pre) (auto simp: Let_def)

lemma parse_forward_iff:
  assumes "handleParse env view classify rules svc s n sql c = (s', acts, c')"
  shows "ActionForward \<in> set acts \<longleftrightarrow> \<not> st_Absorbing s \<and> batch_passes env svc (rules, classify sql)"
  using assms
  by (auto simp: handleParse_def Let_def scan_allow_iff [symmetric] dest: scan_approve_not_forward
      split: if_splits scan_result.splits)

lemma query_forward_iff:
  assumes "handleQuery env classify rules svc s sql = (s', acts)"
  shows "ActionForward \<in> set acts \<longleftrightarrow> \<not> st_Absorbing s \<and> batch_passes env svc (rules, classify sql)"
  using assms
  by (auto simp: handleQuery_def Let_def scan_allow_iff [symmetric] dest: scan_approve_not_forward
      split: if_splits scan_result.splits)

text \<open>The frames that a denial window suppresses.\<close>

definition absorbable :: "Frame \<Rightarrow> bool" where
  "absorbable f \<longleftrightarrow> Frame_Kind f \<in> {FrameKindQuery, FrameKindParse, FrameKindBind, FrameKindDescribe,
     FrameKindExecute, FrameKindFlush, FrameKindClose}"

lemma transition_absorbing:
  "st_Absorbing s \<Longrightarrow> absorbable f \<Longrightarrow> TransitionWithParser env view classify rules svc s f c = (s, [ActionSuppress], c)"
  by (cases f) (simp_all add: absorbable_def TransitionWithParser_def handler_defs)

fun event_absorbed :: "event \<Rightarrow> bool" where
  "event_absorbed (FrontendEvent _ _ f acts) = (acts = [ActionSuppress])"
| "event_absorbed UpstreamEvent = True"

fun event_absorbable :: "event \<Rightarrow> bool" where
  "event_absorbable (FrontendEvent _ _ f _) = absorbable f"
| "event_absorbable UpstreamEvent = True"

lemma run_absorbing:
  assumes "run env view svc s0 c0 tr s c" "st_Absorbing s0" "list_all event_absorbable tr"
  shows "st_Absorbing s \<and> c = c0 \<and> list_all event_absorbed tr"
  using assms
proof (induction rule: run.induct)
  case (run_frame tr s c classify rules f s' acts c')
  then show ?case using transition_absorbing [of s f env view classify rules svc c] by simp
qed simp_all

text \<open>
  Frames never touch what is learnt from upstream, and the denial window opens only together with
  an error to the client.
\<close>

lemma scan_approve_kind:
  "scan_statements env rules svc stmts = ScanApprove a \<Longrightarrow> \<exists>t cs r. a = ActionApproverWait t cs r"
  by (induction stmts) (auto simp: Let_def newApproverWaitAction_def split: if_splits)

definition synth_error :: "Action \<Rightarrow> bool" where
  "synth_error a = (case a of ActionSynthError _ _ _ \<Rightarrow> True | _ \<Rightarrow> False)"

lemma DenyRoute_error: "\<exists>sev rest. DenyRoute s r m q = ActionSynthError q m sev # rest"
  by (simp add: DenyRoute_def)

lemma DenyRoute_synth_error [simp]: "list_ex synth_error (DenyRoute s r m q)"
  using DenyRoute_error [of s r m q] by (auto simp: synth_error_def)

lemma transition_frame:
  assumes "TransitionWithParser env view classify rules svc s f c = (s', acts, c')"
  shows "st_Phase s' = st_Phase s \<and> st_LastUpstreamRFQ s' = st_LastUpstreamRFQ s \<and> st_TxStartedAt s' = st_TxStartedAt s \<and>
     (st_Absorbing s' \<and> \<not> st_Absorbing s \<longrightarrow> list_ex synth_error acts) \<and>
     (st_UpstreamDirtySinceSync s' \<and> \<not> st_UpstreamDirtySinceSync s \<longrightarrow> acts = [ActionForward])"
  using assms
  by (cases f) (auto simp: TransitionWithParser_def handler_defs Let_def synth_error_def
      split: if_splits scan_result.splits prod.splits option.splits simp: DenyRoute_synth_error [unfolded synth_error_def])


text \<open>Observations on the composition of the handlers.\<close>

abbreviation ready_count :: "Action list \<Rightarrow> nat" where
  "ready_count acts \<equiv> length (filter (\<lambda>a. case a of ActionSynthReadyForQuery _ \<Rightarrow> True | _ \<Rightarrow> False) acts)"

text \<open>A denied Parse outside a transaction and the Sync after it each synthesize a ready message.\<close>

lemma denied_parse_then_sync:
  assumes "\<not> st_Absorbing s" "\<not> st_UpstreamDirtySinceSync s" "st_LastUpstreamRFQ s \<notin> {CHR ''T'', CHR ''E''}"
    and "scan_statements env rules svc (classify sql) = ScanDeny d r"
    and "handleParse env view classify rules svc s n sql c = (s1, acts1, c1)" "handleSync s1 = (s2, acts2)"
  shows "ready_count (acts1 @ acts2) = 2"
  using assms by (auto simp: handleParse_def handleSync_def DenyRoute_def containsClose_def Let_def)

text \<open>A Bind of an unknown statement inside a transaction, then a Sync: the client is told that it is idle.\<close>

lemma bind_miss_in_transaction:
  assumes "\<not> st_Absorbing s" "\<not> st_UpstreamDirtySinceSync s" "st_LastUpstreamRFQ s = CHR ''T''"
    and "view_Get view c n = (c1, None)" "handleBind view s p n c = (s1, acts1, c')" "handleSync s1 = (s2, acts2)"
  shows "st_LastUpstreamRFQ s2 = CHR ''T'' \<and> acts2 = [ActionSynthReadyForQuery (CHR ''I'')]"
  using assms by (auto simp: handleBind_def handleSync_def)

text \<open>The wait uses the timeout of the named rule, even where the decision carries a shorter one.\<close>

lemma approver_wait_rule_timeout:
  "sr_Timeout r \<noteq> 0 \<Longrightarrow> newApproverWaitAction d cs r = ActionApproverWait (sr_Timeout r) cs r"
  by (simp add: newApproverWaitAction_def Let_def split: option.splits)

text \<open>An approve stops the scan before a denied statement that comes after it.\<close>

lemma scan_approve_before_deny:
  assumes "batch_passes env svc (rules, pre)" "Evaluate env cs rules svc = Some d" "d_Verb d = VerbApprove"
  shows "scan_statements env rules svc (pre @ cs # post) =
     ScanApprove (newApproverWaitAction d cs (lookupStatementRule rules (d_RuleName d)))"
  using assms by (simp add: scan_append_pass Let_def)


lemma Evaluate_ex:
  "(\<exists>d. Evaluate env cs rules svc = Some d \<and> P d) \<longleftrightarrow> P (the (Evaluate env cs rules svc))"
  using Evaluate_total [of env cs rules svc] by auto


section \<open>Properties\<close>


text \<open>A fresh connection and the policies used by the witnesses.\<close>

definition idle_conn :: ConnState where
  "idle_conn = \<lparr>st_Phase = PhaseIdle, st_LastUpstreamRFQ = CHR ''I'', st_Absorbing = False,
     st_UpstreamDirtySinceSync = False, st_TxStartedAt = None\<rparr>"

abbreviation sample_rules :: "DecisionVerb \<Rightarrow> RuleSet option" where
  "sample_rules v \<equiv> Some (sample_ruleset [sample_rule ''tx'' v 0])"

lemma sample_evaluate_the: "d_Verb (the (Evaluate env begin_stmt (sample_rules v) svc)) = v"
  using Evaluate_total [of env begin_stmt "sample_rules v" svc] sample_evaluate [of env _ v] by auto

lemma sample_batch:
  "batch_passes env svc (sample_rules v, [begin_stmt]) \<longleftrightarrow> v \<notin> {VerbDeny, VerbApprove}"
  by (simp add: sample_evaluate_the)







end
