(* ===== verification/Go_Strings.thy ===== *)
theory Go_Strings
  imports Agentmon_Prelude
begin

text \<open>
  The part of Go's \<open>strings\<close>, \<open>strconv\<close> and \<open>fmt\<close> packages that the proxy uses: searching,
  trimming and splitting at Unicode white space, case-insensitive comparison with an ASCII name,
  and decimal integers. Strings are byte sequences, as in Go.
\<close>


section \<open>Searching\<close>

definition Contains :: "string \<Rightarrow> string \<Rightarrow> bool" where
  "Contains s t = list_ex (prefix t) (suffixes s)"

lemma Contains_iff_sublist: "Contains s t \<longleftrightarrow> sublist t s"
  by (auto simp: Contains_def list_ex_iff sublist_altdef')

text \<open>
  \<open>strings.EqualFold s t\<close> for an ASCII \<open>t\<close>. Simple case folding identifies the two cases of an
  ASCII letter, and it also maps U+017F (two bytes) to \<open>s\<close> and U+212A (three bytes) to \<open>k\<close>; no
  other code point folds to an ASCII one.
\<close>

definition lower :: "char \<Rightarrow> char" where
  "lower c = (if of_char c \<in> {65 .. 90 :: nat} then char_of (of_char c + 32 :: nat) else c)"

fun EqualFold :: "string \<Rightarrow> string \<Rightarrow> bool" where
  "EqualFold [] [] = True"
| "EqualFold [] (d # ds) = False"
| "EqualFold (c # cs) [] = False"
| "EqualFold (c # cs) (d # ds) =
     (if lower c = lower d then EqualFold cs ds
      else case cs of
        c2 # cs2 \<Rightarrow>
          if c = CHR 0xC5 \<and> c2 = CHR 0xBF then lower d = CHR ''s'' \<and> EqualFold cs2 ds
          else (case cs2 of
                  c3 # cs3 \<Rightarrow> c = CHR 0xE2 \<and> c2 = CHR 0x84 \<and> c3 = CHR 0xAA \<and> lower d = CHR ''k'' \<and> EqualFold cs3 ds
                | [] \<Rightarrow> False)
      | [] \<Rightarrow> False)"

lemma EqualFold_refl [simp]: "EqualFold s s"
  by (induction s) auto


section \<open>White space\<close>

fun trimLeft :: "string \<Rightarrow> string" where
  "trimLeft [] = []"
| "trimLeft [a] = (if space1 a then [] else [a])"
| "trimLeft [a, b] = (if space1 a then trimLeft [b] else if space2 a b then [] else [a, b])"
| "trimLeft (a # b # c # s) =
     (if space1 a then trimLeft (b # c # s)
      else if space2 a b then trimLeft (c # s)
      else if space3 a b c then trimLeft s
      else a # b # c # s)"

text \<open>The same from the end, on the reversed string.\<close>

fun trimRev :: "string \<Rightarrow> string" where
  "trimRev [] = []"
| "trimRev [c] = (if space1 c then [] else [c])"
| "trimRev [c, b] = (if space1 c then trimRev [b] else if space2 b c then [] else [c, b])"
| "trimRev (c # b # a # s) =
     (if space1 c then trimRev (b # a # s)
      else if space2 b c then trimRev (a # s)
      else if space3 a b c then trimRev s
      else c # b # a # s)"

definition TrimSpace :: "string \<Rightarrow> string" where
  "TrimSpace s = rev (trimRev (rev (trimLeft s)))"

text \<open>\<open>strings.Fields\<close>: the maximal runs without white space.\<close>

definition field_cons :: "string \<Rightarrow> string list \<Rightarrow> string list" where
  "field_cons cur fs = (if cur = [] then fs else rev cur # fs)"

fun fields_from :: "string \<Rightarrow> string \<Rightarrow> string list" where
  "fields_from cur [] = field_cons cur []"
| "fields_from cur [a] = (if space1 a then field_cons cur [] else fields_from (a # cur) [])"
| "fields_from cur [a, b] =
     (if space1 a then field_cons cur (fields_from [] [b])
      else if space2 a b then field_cons cur []
      else fields_from (a # cur) [b])"
| "fields_from cur (a # b # c # s) =
     (if space1 a then field_cons cur (fields_from [] (b # c # s))
      else if space2 a b then field_cons cur (fields_from [] (c # s))
      else if space3 a b c then field_cons cur (fields_from [] s)
      else fields_from (a # cur) (b # c # s))"

definition Fields :: "string \<Rightarrow> string list" where
  "Fields s = fields_from [] s"

lemma trimLeft_suffix: "suffix (trimLeft s) s"
  by (induction s rule: trimLeft.induct) (auto simp: suffix_Cons split: if_splits)

lemma trimRev_suffix: "suffix (trimRev s) s"
  by (induction s rule: trimRev.induct) (auto simp: suffix_Cons split: if_splits)

lemma TrimSpace_sublist: "sublist (TrimSpace s) s"
proof -
  have "prefix (TrimSpace s) (trimLeft s)"
    using trimRev_suffix [of "rev (trimLeft s)"] by (simp add: TrimSpace_def suffix_to_prefix)
  with trimLeft_suffix [of s] show ?thesis
    by (meson prefix_imp_sublist suffix_imp_sublist sublist_order.order.trans)
qed

lemma field_cons_nonempty: "[] \<notin> set fs \<Longrightarrow> [] \<notin> set (field_cons cur fs)"
  by (auto simp: field_cons_def)

lemma fields_from_nonempty: "[] \<notin> set (fields_from cur s)"
  by (induction cur s rule: fields_from.induct) (auto simp: field_cons_nonempty)

lemma Fields_nonempty: "[] \<notin> set (Fields s)"
  by (simp add: Fields_def fields_from_nonempty)


section \<open>Decimal integers\<close>

definition digit :: "char \<Rightarrow> bool" where
  "digit c \<longleftrightarrow> of_char c \<in> {48 .. 57 :: nat}"

definition digit_val :: "char \<Rightarrow> nat" where
  "digit_val c = of_char c - 48"

definition digits_val :: "string \<Rightarrow> nat" where
  "digits_val s = foldl (\<lambda>n c. 10 * n + digit_val c) 0 s"

text \<open>\<open>strconv.ParseInt(s, 10, 64)\<close>; any error is \<open>None\<close>.\<close>

definition ParseInt64 :: "string \<Rightarrow> int option" where
  "ParseInt64 s =
     (let (neg, ds) = (case s of
            c # cs \<Rightarrow> if c = CHR ''-'' then (True, cs) else if c = CHR ''+'' then (False, cs) else (False, s)
          | [] \<Rightarrow> (False, []))
      in if ds = [] \<or> \<not> list_all digit ds then None
         else let n = int (digits_val ds) in
              if neg then (if n \<le> 2 ^ 63 then Some (- n) else None)
              else (if n < 2 ^ 63 then Some n else None))"

text \<open>\<open>fmt.Sprintf("%d", n)\<close> of a natural number.\<close>

fun decimal :: "nat \<Rightarrow> string" where
  "decimal n = (if n < 10 then [char_of (48 + n)] else decimal (n div 10) @ [char_of (48 + n mod 10)])"

declare decimal.simps [simp del]

lemma digit_char_of [simp]: "n < 10 \<Longrightarrow> digit (char_of (48 + n))" "n < 10 \<Longrightarrow> digit_val (char_of (48 + n)) = n"
  by (auto simp: digit_def digit_val_def)

lemma digits_val_snoc [simp]: "digits_val (s @ [c]) = 10 * digits_val s + digit_val c"
  by (simp add: digits_val_def)

lemma decimal_digits: "list_all digit (decimal n) \<and> decimal n \<noteq> [] \<and> digits_val (decimal n) = n"
proof (induction n rule: decimal.induct)
  case (1 n)
  show ?case
  proof (cases "n < 10")
    case True
    then show ?thesis by (simp add: decimal.simps digits_val_def)
  next
    case False
    with 1 show ?thesis by (subst (1 2 3) decimal.simps) simp
  qed
qed

lemma decimal_inj: "decimal m = decimal n \<longleftrightarrow> m = n"
  using decimal_digits by metis

lemma ParseInt64_decimal: "int n < 2 ^ 63 \<Longrightarrow> ParseInt64 (decimal n) = Some (int n)"
proof -
  assume n: "int n < 2 ^ 63"
  obtain c cs where c: "decimal n = c # cs" using decimal_digits [of n] by (cases "decimal n") auto
  then have "digit c" using decimal_digits [of n] by simp
  then have "c \<noteq> CHR ''-''" "c \<noteq> CHR ''+''" by (auto simp: digit_def)
  with c n decimal_digits [of n] show ?thesis by (simp add: ParseInt64_def)
qed

end
