(* ===== verification/Pg_Wire.thy ===== *)
theory Pg_Wire
  imports Pg_Statemachine Go_Strings
begin

text \<open>
  The wire side of the Postgres proxy, \<open>src/internal/db/proxy/postgres\<close>: the messages of the
  protocol library the code handles, the conversion of frontend messages to frames and the cache
  adapter (extquery.go), the interception of SQL-level prepared statements (sqlprepared.go), the
  loop that relays the server's answer (upstreamread.go) and the two COPY loops (copyframes.go).

  Messages of the protocol library are datatypes with the fields the code reads; the other backend
  messages are relayed verbatim and carry a tag. The encoded size of a message is a parameter, and
  so are the clock readings. Each loop consumes a list of what the peer delivers: messages, and a
  receive error or a cancelled context, which ends it. Writes to the sockets succeed.
\<close>


section \<open>Messages\<close>

datatype FrontendMessage =
    MsgQuery string
  | MsgParse string string "32 word list" \<comment> \<open>Name, Query, ParameterOIDs\<close>
  | MsgBind string string "byte list" \<comment> \<open>DestinationPortal, PreparedStatement, the parameters\<close>
  | MsgDescribe char string
  | MsgExecute string "32 word" \<comment> \<open>Portal, MaxRows\<close>
  | MsgSync
  | MsgFlush
  | MsgClose char string
  | MsgTerminate
  | MsgFunctionCall "32 word" "byte list" \<comment> \<open>Function, the arguments\<close>
  | MsgCopyData "byte list"
  | MsgCopyDone
  | MsgCopyFail string
  | MsgOther string \<comment> \<open>any other message, by its type\<close>

datatype BackendMessage =
    DataRow "byte list list"
  | CommandComplete string
  | ErrorResponse string string string \<comment> \<open>Severity, Code, Message\<close>
  | CopyInResponse
  | CopyOutResponse
  | BackCopyData "byte list"
  | BackCopyDone
  | ReadyForQuery char
  | ParseComplete
  | BindComplete
  | BackOther nat

fun frameFromPgproto :: "FrontendMessage \<Rightarrow> Frame option" where
  "frameFromPgproto (MsgQuery s) = Some (QueryFrame s)"
| "frameFromPgproto (MsgParse n q _) = Some (ParseFrame n q)"
| "frameFromPgproto (MsgBind p st _) = Some (BindFrame p st)"
| "frameFromPgproto (MsgDescribe t n) = Some (DescribeFrame t n)"
| "frameFromPgproto (MsgExecute p _) = Some (ExecuteFrame p)"
| "frameFromPgproto MsgSync = Some SyncFrame"
| "frameFromPgproto MsgFlush = Some FlushFrame"
| "frameFromPgproto (MsgClose t n) = Some (CloseFrame t n)"
| "frameFromPgproto MsgTerminate = Some TerminateFrame"
| "frameFromPgproto _ = None"


section \<open>The cache adapter (extquery.go)\<close>

definition zeroStatement :: ClassifiedStatement where
  "zeroStatement = \<lparr>cs_Effects = [], cs_RawVerb = '''', cs_ParserBackend = ParserBackendUnknown, cs_Error = '''',
     cs_SourceStart = 0, cs_SourceEnd = 0, cs_PreparedName = '''', cs_BulkOp = BulkOpNone\<rparr>"

definition zeroEntry :: Entry where
  "zeroEntry = \<lparr>en_Classification = zeroStatement, en_RedactionTier = RedactNone,
     en_CatalogRefreshSearchPath = False, en_CatalogRefreshSnapshot = False, en_Redirect = None\<rparr>"

definition wirePortalCacheKey :: "string \<Rightarrow> string" where
  "wirePortalCacheKey name = CHR 0x00 # ''portal:'' @ name"

definition groupIDFromClassification :: "ClassifiedStatement \<Rightarrow> 8 word" where
  "groupIDFromClassification cs = (case cs_Effects cs of [] \<Rightarrow> 0 | e # _ \<Rightarrow> Group_ID (e_Group e))"

definition value_of_entry :: "Entry \<Rightarrow> CacheValue" where
  "value_of_entry e =
     \<lparr>va_Verb = cs_RawVerb (en_Classification e), va_GroupID = groupIDFromClassification (en_Classification e),
      va_OpaqueID = '''', va_CatalogRefreshSearchPath = en_CatalogRefreshSearchPath e,
      va_CatalogRefreshSnapshot = en_CatalogRefreshSnapshot e\<rparr>"

definition entry_of_value :: "CacheValue \<Rightarrow> Entry" where
  "entry_of_value v =
     zeroEntry\<lparr>en_Classification := zeroStatement\<lparr>cs_RawVerb := va_Verb v\<rparr>,
       en_CatalogRefreshSearchPath := va_CatalogRefreshSearchPath v,
       en_CatalogRefreshSnapshot := va_CatalogRefreshSnapshot v\<rparr>"

definition wire_Get :: "Cache \<Rightarrow> string \<Rightarrow> Cache \<times> CacheValue option" where
  "wire_Get c name = (case Cache_Get c name of (c', e) \<Rightarrow> (c', map_option value_of_entry e))"

definition wire_Put :: "Cache \<Rightarrow> string \<Rightarrow> CacheValue \<Rightarrow> Cache" where
  "wire_Put c name v = Cache_Put c name (entry_of_value v)"

definition wireCacheView :: "Cache CacheView" where
  "wireCacheView = \<lparr>view_Get = wire_Get, view_Put = wire_Put, view_Delete = Cache_Delete, view_Clear = Cache_Clear\<rparr>"


section \<open>SQL-level prepared statements (sqlprepared.go)\<close>

text \<open>
  \<open>Intercept\<close> mutates the cache and may rewrite the first statement; the model returns both. The
  decisions are \<open>[]\<close> where the code passes \<open>nil\<close>. \<open>TrimPrefix\<close> leaves a verb without the prefix
  unchanged.
\<close>

definition Intercept ::
    "ClassifiedStatement list \<Rightarrow> Decision list \<Rightarrow> Cache \<Rightarrow> ConnState \<Rightarrow> RuleSet option \<Rightarrow>
     Action list option \<times> ClassifiedStatement list \<times> Cache" where
  "Intercept stmts decisions cache s rs =
     (case stmts of
        [] \<Rightarrow> (None, stmts, cache)
      | first # rest \<Rightarrow>
          if HasPrefix (cs_RawVerb first) ''PREPARE'' then
            (case decisions of
               d # _ \<Rightarrow>
                 if d_Verb d = VerbDeny then
                   (Some (DenyRoute s (lookupStatementRule rs (d_RuleName d))
                            (''denied by AgentMon policy: '' @ d_RuleName d) ''42501''), stmts, cache)
                 else (None, stmts, Cache_Put cache (cs_PreparedName first)
                         (zeroEntry\<lparr>en_Classification :=
                            first\<lparr>cs_RawVerb := TrimPrefix (cs_RawVerb first) ''PREPARE_'', cs_PreparedName := ''''\<rparr>\<rparr>))
             | [] \<Rightarrow> (None, stmts, Cache_Put cache (cs_PreparedName first)
                         (zeroEntry\<lparr>en_Classification :=
                            first\<lparr>cs_RawVerb := TrimPrefix (cs_RawVerb first) ''PREPARE_'', cs_PreparedName := ''''\<rparr>\<rparr>)))
          else if cs_RawVerb first = ''EXECUTE'' then
            (case Cache_Get cache (cs_PreparedName first) of
               (cache', None) \<Rightarrow>
                 (Some [ActionSynthError ''26000''
                          (''SQL_PREPARED_CACHE_MISS: prepared statement '' @ [CHR 0x22] @ cs_PreparedName first @ [CHR 0x22] @
                           '' does not exist in AgentMon proxy cache'') '''',
                        ActionSynthReadyForQuery (CHR ''I'')], stmts, cache')
             | (cache', Some e) \<Rightarrow>
                 (None, first\<lparr>cs_Effects := cs_Effects (en_Classification e), cs_Error := ''''\<rparr> # rest, cache'))
          else if cs_RawVerb first = ''DEALLOCATE'' then
            (None, stmts, if cs_PreparedName first = '''' then Cache_Clear cache else Cache_Delete cache (cs_PreparedName first))
          else if cs_RawVerb first = ''DISCARD'' then
            (None, stmts,
             case cs_Effects first of
               e # _ \<Rightarrow> if e_Subtype e = SubtypeDiscardAll \<or> e_Subtype e = SubtypeDiscardPlans then Cache_Clear cache else cache
             | [] \<Rightarrow> cache)
          else (None, stmts, cache))"


section \<open>Relaying the server's answer (upstreamread.go)\<close>

text \<open>The rows a completed command returned, and the rows it affected; \<open>None\<close> is the nil pointer.\<close>

definition parseCommandTag :: "string \<Rightarrow> int option \<times> int option" where
  "parseCommandTag tag =
     (let fields = Fields tag in
      if fields = [] then (None, None)
      else if hd fields = ''SELECT'' then (if length fields \<ge> 2 then (ParseInt64 (fields ! 1), None) else (None, None))
      else if hd fields = ''INSERT'' then (if length fields \<ge> 3 then (None, ParseInt64 (fields ! 2)) else (None, None))
      else if hd fields \<in> {''UPDATE'', ''DELETE'', ''MOVE'', ''FETCH'', ''COPY''}
      then (if length fields \<ge> 2 then (None, ParseInt64 (fields ! 1)) else (None, None))
      else (None, None))"

record upstreamResult =
  ur_BytesIn :: "64 word"
  ur_BytesOut :: "64 word"
  ur_RowsByStmt :: "int option list"
  ur_AffectedByStmt :: "int option list"
  ur_LatencyMs :: int
  ur_ErrorCode :: string
  ur_YieldedToCopyIn :: bool
  ur_YieldedToCopyOut :: bool

definition zeroResult :: upstreamResult where
  "zeroResult = \<lparr>ur_BytesIn = 0, ur_BytesOut = 0, ur_RowsByStmt = [], ur_AffectedByStmt = [], ur_LatencyMs = 0,
     ur_ErrorCode = '''', ur_YieldedToCopyIn = False, ur_YieldedToCopyOut = False\<rparr>"

datatype loop_error =
    ErrContext \<comment> \<open>the context was cancelled\<close>
  | ErrReceive \<comment> \<open>reading from the peer failed\<close>
  | ErrInTxTerminate
  | ErrUnexpectedFrame

datatype 'm input = Recv 'm | RecvFailed | CtxDone

text \<open>Clock readings: when the request was sent, when a ready message was seen, and at the end.\<close>

record clock =
  clk_sentAt :: int
  clk_ready :: int
  clk_done :: int

definition latency :: "clock \<Rightarrow> int" where
  "latency clk = (if clk_sentAt clk \<le> clk_done clk then (clk_done clk - clk_sentAt clk) div 1000000
                  else - ((clk_sentAt clk - clk_done clk) div 1000000))"

text \<open>The state update on a ready message.\<close>

definition observe_rfq :: "clock \<Rightarrow> char \<Rightarrow> ConnState \<Rightarrow> ConnState" where
  "observe_rfq clk status s =
     (let prev = st_LastUpstreamRFQ s;
          s1 = s\<lparr>st_LastUpstreamRFQ := status\<rparr>;
          s2 = (if status = CHR ''I'' then s1\<lparr>st_Phase := PhaseIdle, st_TxStartedAt := None\<rparr>
                else if status = CHR ''T'' then
                  (if prev \<noteq> CHR ''T'' then s1\<lparr>st_Phase := PhaseInTx, st_TxStartedAt := Some (clk_ready clk)\<rparr>
                   else s1\<lparr>st_Phase := PhaseInTx\<rparr>)
                else if status = CHR ''E'' then s1\<lparr>st_Phase := PhaseInTxError\<rparr>
                else s1)
      in s2\<lparr>st_UpstreamDirtySinceSync := False\<rparr>)"

text \<open>
  The loop returns the state, the result, what was relayed to the client, the error if any, and
  the input that is left. A list that ends before the loop does is a peer that sends nothing more;
  it reads as a failed receive.
\<close>

record 'm loop_out =
  lo_state :: ConnState
  lo_result :: upstreamResult
  lo_sent :: "BackendMessage list"
  lo_error :: "loop_error option"
  lo_rest :: "'m input list"

fun upstream_loop ::
    "(BackendMessage \<Rightarrow> nat) \<Rightarrow> clock \<Rightarrow> ConnState \<Rightarrow> upstreamResult \<Rightarrow> 64 word \<Rightarrow> bool \<Rightarrow>
     BackendMessage list \<Rightarrow> BackendMessage input list \<Rightarrow> BackendMessage loop_out" where
  "upstream_loop fsize clk s r curRows curRowsSet sent [] =
     \<lparr>lo_state = s, lo_result = r, lo_sent = rev sent, lo_error = Some ErrReceive, lo_rest = []\<rparr>"
| "upstream_loop fsize clk s r curRows curRowsSet sent (CtxDone # ins) =
     \<lparr>lo_state = s, lo_result = r, lo_sent = rev sent, lo_error = Some ErrContext, lo_rest = ins\<rparr>"
| "upstream_loop fsize clk s r curRows curRowsSet sent (RecvFailed # ins) =
     \<lparr>lo_state = s, lo_result = r, lo_sent = rev sent, lo_error = Some ErrReceive, lo_rest = ins\<rparr>"
| "upstream_loop fsize clk s r curRows curRowsSet sent (Recv m # ins) =
     (let r1 = r\<lparr>ur_BytesOut := ur_BytesOut r + of_nat (fsize m)\<rparr>; sent1 = m # sent in
      case m of
        DataRow _ \<Rightarrow> upstream_loop fsize clk s r1 (curRows + 1) True sent1 ins
      | CommandComplete tag \<Rightarrow>
          (case parseCommandTag tag of (rows, aff) \<Rightarrow>
             let rows' = (if curRowsSet \<and> rows = None then Some (sint curRows) else rows) in
             upstream_loop fsize clk s
               (r1\<lparr>ur_RowsByStmt := ur_RowsByStmt r @ [rows'], ur_AffectedByStmt := ur_AffectedByStmt r @ [aff]\<rparr>)
               0 False sent1 ins)
      | ErrorResponse _ code _ \<Rightarrow>
          upstream_loop fsize clk s (if ur_ErrorCode r = '''' then r1\<lparr>ur_ErrorCode := code\<rparr> else r1)
            curRows curRowsSet sent1 ins
      | CopyInResponse \<Rightarrow>
          \<lparr>lo_state = s\<lparr>st_Phase := PhaseInCopyIn\<rparr>, lo_result = r1\<lparr>ur_YieldedToCopyIn := True, ur_LatencyMs := latency clk\<rparr>,
           lo_sent = rev sent1, lo_error = None, lo_rest = ins\<rparr>
      | CopyOutResponse \<Rightarrow>
          \<lparr>lo_state = s\<lparr>st_Phase := PhaseInCopyOut\<rparr>, lo_result = r1\<lparr>ur_YieldedToCopyOut := True, ur_LatencyMs := latency clk\<rparr>,
           lo_sent = rev sent1, lo_error = None, lo_rest = ins\<rparr>
      | ReadyForQuery status \<Rightarrow>
          \<lparr>lo_state = observe_rfq clk status s, lo_result = r1\<lparr>ur_LatencyMs := latency clk\<rparr>,
           lo_sent = rev sent1, lo_error = None, lo_rest = ins\<rparr>
      | _ \<Rightarrow> upstream_loop fsize clk s r1 curRows curRowsSet sent1 ins)"

definition forwardUpstreamUntilRFQ ::
    "(BackendMessage \<Rightarrow> nat) \<Rightarrow> clock \<Rightarrow> ConnState \<Rightarrow> BackendMessage input list \<Rightarrow> BackendMessage loop_out" where
  "forwardUpstreamUntilRFQ fsize clk s ins = upstream_loop fsize clk s zeroResult 0 False [] ins"


section \<open>COPY (copyframes.go)\<close>

definition mergeCopyDrain ::
    "(BackendMessage \<Rightarrow> nat) \<Rightarrow> clock \<Rightarrow> ConnState \<Rightarrow> upstreamResult \<Rightarrow> BackendMessage input list \<Rightarrow> BackendMessage loop_out" where
  "mergeCopyDrain fsize clk s r ins =
     (let lo = forwardUpstreamUntilRFQ fsize clk s ins; d = lo_result lo in
      lo\<lparr>lo_result := r\<lparr>ur_BytesIn := ur_BytesIn r + ur_BytesIn d, ur_BytesOut := ur_BytesOut r + ur_BytesOut d,
           ur_RowsByStmt := ur_RowsByStmt r @ ur_RowsByStmt d, ur_AffectedByStmt := ur_AffectedByStmt r @ ur_AffectedByStmt d,
           ur_LatencyMs := ur_LatencyMs d,
           ur_ErrorCode := (if ur_ErrorCode d \<noteq> '''' then ur_ErrorCode d else ur_ErrorCode r)\<rparr>\<rparr>)"

text \<open>The copy-out loop relays until the data ends or an error comes, then drains.\<close>

fun copyOut_loop ::
    "(BackendMessage \<Rightarrow> nat) \<Rightarrow> clock \<Rightarrow> ConnState \<Rightarrow> upstreamResult \<Rightarrow> BackendMessage list \<Rightarrow>
     BackendMessage input list \<Rightarrow> BackendMessage loop_out" where
  "copyOut_loop fsize clk s r sent [] =
     \<lparr>lo_state = s, lo_result = r, lo_sent = rev sent, lo_error = Some ErrReceive, lo_rest = []\<rparr>"
| "copyOut_loop fsize clk s r sent (CtxDone # ins) =
     \<lparr>lo_state = s, lo_result = r, lo_sent = rev sent, lo_error = Some ErrContext, lo_rest = ins\<rparr>"
| "copyOut_loop fsize clk s r sent (RecvFailed # ins) =
     \<lparr>lo_state = s, lo_result = r, lo_sent = rev sent, lo_error = Some ErrReceive, lo_rest = ins\<rparr>"
| "copyOut_loop fsize clk s r sent (Recv m # ins) =
     (let drain = (\<lambda>r'. let lo = mergeCopyDrain fsize clk s r' ins in lo\<lparr>lo_sent := rev (m # sent) @ lo_sent lo\<rparr>);
          r1 = r\<lparr>ur_BytesOut := ur_BytesOut r + of_nat (fsize m)\<rparr>
      in case m of
        BackCopyData data \<Rightarrow>
          copyOut_loop fsize clk s (r\<lparr>ur_BytesOut := ur_BytesOut r + of_nat (length data)\<rparr>) (m # sent) ins
      | BackCopyDone \<Rightarrow> drain r1
      | ErrorResponse _ code _ \<Rightarrow> drain (if ur_ErrorCode r = '''' then r1\<lparr>ur_ErrorCode := code\<rparr> else r1)
      | _ \<Rightarrow> copyOut_loop fsize clk s r1 (m # sent) ins)"

definition runCopyOutLoop ::
    "(BackendMessage \<Rightarrow> nat) \<Rightarrow> clock \<Rightarrow> ConnState \<Rightarrow> BackendMessage input list \<Rightarrow> BackendMessage loop_out" where
  "runCopyOutLoop fsize clk s ins = copyOut_loop fsize clk (s\<lparr>st_Phase := PhaseInCopyOut\<rparr>) zeroResult [] ins"

text \<open>
  The copy-in loop reads the client and sends to the server; the drain at the end reads the server.
  It returns the messages sent to the server, the client input that is left, and the outcome.
\<close>

record copyIn_out =
  co_toServer :: "FrontendMessage list"
  co_clientRest :: "FrontendMessage input list"
  co_out :: "BackendMessage loop_out"

fun copyIn_loop ::
    "(BackendMessage \<Rightarrow> nat) \<Rightarrow> clock \<Rightarrow> ConnState \<Rightarrow> upstreamResult \<Rightarrow> FrontendMessage list \<Rightarrow>
     FrontendMessage input list \<Rightarrow> BackendMessage input list \<Rightarrow> copyIn_out" where
  "copyIn_loop fsize clk s r fwd [] ups =
     \<lparr>co_toServer = rev fwd, co_clientRest = [],
      co_out = \<lparr>lo_state = s, lo_result = r, lo_sent = [], lo_error = Some ErrReceive, lo_rest = ups\<rparr>\<rparr>"
| "copyIn_loop fsize clk s r fwd (CtxDone # ins) ups =
     \<lparr>co_toServer = rev fwd, co_clientRest = ins,
      co_out = \<lparr>lo_state = s, lo_result = r, lo_sent = [], lo_error = Some ErrContext, lo_rest = ups\<rparr>\<rparr>"
| "copyIn_loop fsize clk s r fwd (RecvFailed # ins) ups =
     \<lparr>co_toServer = rev fwd, co_clientRest = ins,
      co_out = \<lparr>lo_state = s, lo_result = r, lo_sent = [], lo_error = Some ErrReceive, lo_rest = ups\<rparr>\<rparr>"
| "copyIn_loop fsize clk s r fwd (Recv m # ins) ups =
     (case m of
        MsgCopyData data \<Rightarrow>
          copyIn_loop fsize clk s (r\<lparr>ur_BytesIn := ur_BytesIn r + of_nat (length data)\<rparr>) (m # fwd) ins ups
      | MsgCopyDone \<Rightarrow>
          \<lparr>co_toServer = rev (m # fwd), co_clientRest = ins, co_out = mergeCopyDrain fsize clk s r ups\<rparr>
      | MsgCopyFail _ \<Rightarrow>
          \<lparr>co_toServer = rev (m # fwd), co_clientRest = ins, co_out = mergeCopyDrain fsize clk s r ups\<rparr>
      | MsgTerminate \<Rightarrow>
          \<lparr>co_toServer = rev (MsgCopyFail ''client terminated mid-copy'' # fwd), co_clientRest = ins,
           co_out = \<lparr>lo_state = s, lo_result = r, lo_sent = [], lo_error = Some ErrInTxTerminate, lo_rest = ups\<rparr>\<rparr>
      | _ \<Rightarrow>
          \<lparr>co_toServer = rev fwd, co_clientRest = ins,
           co_out = \<lparr>lo_state = s, lo_result = r, lo_sent = [], lo_error = Some ErrUnexpectedFrame, lo_rest = ups\<rparr>\<rparr>)"

definition runCopyInLoop ::
    "(BackendMessage \<Rightarrow> nat) \<Rightarrow> clock \<Rightarrow> ConnState \<Rightarrow> FrontendMessage input list \<Rightarrow> BackendMessage input list \<Rightarrow> copyIn_out" where
  "runCopyInLoop fsize clk s ins ups = copyIn_loop fsize clk (s\<lparr>st_Phase := PhaseInCopyIn\<rparr>) zeroResult [] ins ups"


section \<open>The adapter keeps the cache contract\<close>

definition wire_look :: "Cache \<Rightarrow> string \<Rightarrow> CacheValue option" where
  "wire_look c k = map_option value_of_entry (cache_look c k)"

lemma wire_key [simp]: "wirePortalCacheKey = portalCacheKey"
  by (simp add: fun_eq_iff wirePortalCacheKey_def portalCacheKey_def)

lemma wire_Get_simps:
  "snd (wire_Get c k) = map_option value_of_entry (snd (Cache_Get c k))" "fst (wire_Get c k) = fst (Cache_Get c k)"
  by (simp_all add: wire_Get_def split: prod.splits)

interpretation wire: cache_view wireCacheView cache_inv wire_look "\<lambda>v. value_of_entry (entry_of_value v)"
proof unfold_locales
  fix c k k' v
  assume inv: "cache_inv c"
  show "snd (view_Get wireCacheView c k) = wire_look c k"
    "wire_look (fst (view_Get wireCacheView c k)) k' = wire_look c k'"
    "cache_inv (fst (view_Get wireCacheView c k))"
    using lru.get_law [OF inv] by (simp_all add: wireCacheView_def wire_Get_simps wire_look_def)
  show "wire_look (view_Put wireCacheView c k v) k = Some (value_of_entry (entry_of_value v))"
    "cache_inv (view_Put wireCacheView c k v)"
    using lru.put_law [OF inv] by (simp_all add: wireCacheView_def wire_Put_def wire_look_def)
  show "k' \<noteq> k \<Longrightarrow> wire_look (view_Put wireCacheView c k v) k' \<in> {None, wire_look c k'}"
    using lru.put_law [OF inv, of k "entry_of_value v" k'] by (auto simp: wireCacheView_def wire_Put_def wire_look_def)
  show "wire_look (view_Delete wireCacheView c k) k = None"
    "k' \<noteq> k \<Longrightarrow> wire_look (view_Delete wireCacheView c k) k' = wire_look c k'"
    "cache_inv (view_Delete wireCacheView c k)"
    using lru.delete_law [OF inv] by (simp_all add: wireCacheView_def wire_look_def)
  show "wire_look (view_Clear wireCacheView c) k = None" "cache_inv (view_Clear wireCacheView c)"
    using lru.clear_law [OF inv] by (simp_all add: wireCacheView_def wire_look_def)
qed

text \<open>A connection whose wire cache is new, and the evaluation of a batch spelled out.\<close>

lemma wire_look_New [simp]: "wire_look (Cache_New n) k = None"
  by (simp add: wire_look_def cache_look_def cache_abs_def Cache_New_def Let_def)

lemma batch_passes_iff:
  "batch_passes env svc (rules, stmts) \<longleftrightarrow>
     (\<forall>cs \<in> set stmts. \<exists>d. Evaluate env cs rules svc = Some d \<and> d_Verb d \<noteq> VerbDeny \<and> d_Verb d \<noteq> VerbApprove)"
  by (simp add: batch_passes_def list_all_iff Evaluate_ex)


section \<open>The SQL-level cache\<close>

text \<open>
  A call of \<open>Intercept\<close>, and the specification of the cache: the effects last prepared under each
  name since it was last deallocated.
\<close>

record intercept_call =
  ic_stmts :: "ClassifiedStatement list"
  ic_decisions :: "Decision list"
  ic_state :: ConnState
  ic_rules :: "RuleSet option"

definition do_intercept :: "Cache \<Rightarrow> intercept_call \<Rightarrow> Action list option \<times> ClassifiedStatement list \<times> Cache" where
  "do_intercept c call = Intercept (ic_stmts call) (ic_decisions call) c (ic_state call) (ic_rules call)"

definition intercept_cache :: "Cache \<Rightarrow> intercept_call \<Rightarrow> Cache" where
  "intercept_cache c call = snd (snd (do_intercept c call))"

definition prepared_step :: "(string \<Rightarrow> Effect list option) \<Rightarrow> intercept_call \<Rightarrow> (string \<Rightarrow> Effect list option)" where
  "prepared_step m call =
     (case ic_stmts call of
        [] \<Rightarrow> m
      | first # _ \<Rightarrow>
          if HasPrefix (cs_RawVerb first) ''PREPARE'' then
            (if (\<exists>d ds. ic_decisions call = d # ds \<and> d_Verb d = VerbDeny) then m
             else m(cs_PreparedName first := Some (cs_Effects first)))
          else if cs_RawVerb first = ''DEALLOCATE'' then
            (if cs_PreparedName first = '''' then (\<lambda>_. None) else m(cs_PreparedName first := None))
          else if cs_RawVerb first = ''DISCARD'' then
            (case cs_Effects first of
               e # _ \<Rightarrow> if e_Subtype e = SubtypeDiscardAll \<or> e_Subtype e = SubtypeDiscardPlans then (\<lambda>_. None) else m
             | [] \<Rightarrow> m)
          else m)"

definition sql_agrees :: "Cache \<Rightarrow> (string \<Rightarrow> Effect list option) \<Rightarrow> bool" where
  "sql_agrees c m \<longleftrightarrow> cache_inv c \<and> (\<forall>k e. cache_look c k = Some e \<longrightarrow> m k = Some (cs_Effects (en_Classification e)))"

lemma sql_agreesI:
  "cache_inv c \<Longrightarrow> (\<And>k e. cache_look c k = Some e \<Longrightarrow> m k = Some (cs_Effects (en_Classification e))) \<Longrightarrow> sql_agrees c m"
  by (simp add: sql_agrees_def)

lemma sql_agreesD:
  assumes "sql_agrees c m"
  shows "cache_inv c" "cache_look c k = Some e \<Longrightarrow> m k = Some (cs_Effects (en_Classification e))"
  using assms by (simp_all add: sql_agrees_def)

lemma sql_agrees_put:
  assumes "sql_agrees c m"
  shows "sql_agrees (Cache_Put c n e) (m(n := Some (cs_Effects (en_Classification e))))"
proof (rule sql_agreesI)
  show "cache_inv (Cache_Put c n e)" using lru.put_law [OF sql_agreesD(1) [OF assms]] by blast
  fix k w assume "cache_look (Cache_Put c n e) k = Some w"
  from lru.look_put [OF sql_agreesD(1) [OF assms] this] sql_agreesD(2) [OF assms, of k w]
  show "(m(n := Some (cs_Effects (en_Classification e)))) k = Some (cs_Effects (en_Classification w))" by auto
qed

lemma sql_agrees_get: "sql_agrees c m \<Longrightarrow> sql_agrees (fst (Cache_Get c n)) m"
  using lru.get_law [of c n] by (simp add: sql_agrees_def)

lemma sql_agrees_delete: "sql_agrees c m \<Longrightarrow> sql_agrees (Cache_Delete c n) (m(n := None))"
  using lru.delete_law [of c n] by (simp add: sql_agrees_def)

lemma sql_agrees_clear: "sql_agrees c m \<Longrightarrow> sql_agrees (Cache_Clear c) m'"
  using lru.clear_law [of c] by (simp add: sql_agrees_def)

lemma intercept_agrees:
  assumes "sql_agrees c m"
  shows "sql_agrees (intercept_cache c call) (prepared_step m call)"
proof (cases "ic_stmts call")
  case Nil
  with assms show ?thesis by (simp add: intercept_cache_def do_intercept_def Intercept_def prepared_step_def)
next
  case (Cons first rest)
  show ?thesis
  proof (cases "HasPrefix (cs_RawVerb first) ''PREPARE''")
    case True
    let ?e = "zeroEntry\<lparr>en_Classification :=
        first\<lparr>cs_RawVerb := TrimPrefix (cs_RawVerb first) ''PREPARE_'', cs_PreparedName := ''''\<rparr>\<rparr>"
    have "sql_agrees (Cache_Put c (cs_PreparedName first) ?e) (m(cs_PreparedName first := Some (cs_Effects first)))"
      using sql_agrees_put [OF assms, of "cs_PreparedName first" ?e] by simp
    with True Cons assms show ?thesis
      by (simp add: intercept_cache_def do_intercept_def Intercept_def prepared_step_def split: list.splits)
  next
    case False
    with Cons assms sql_agrees_get [OF assms, of "cs_PreparedName first"] show ?thesis
      by (auto simp: intercept_cache_def do_intercept_def Intercept_def prepared_step_def sql_agrees_delete
          sql_agrees_clear split: option.splits prod.splits list.splits)
  qed
qed

lemma intercept_run_agrees:
  "sql_agrees c m \<Longrightarrow> sql_agrees (foldl intercept_cache c calls) (foldl prepared_step m calls)"
  by (induction calls arbitrary: c m) (simp_all add: intercept_agrees)

lemma sql_agrees_New: "sql_agrees (Cache_New n) (\<lambda>_. None)"
  by (rule sql_agreesI [OF cache_inv_New]) (simp add: cache_look_def cache_abs_def Cache_New_def Let_def)

lemma execute_rewrite:
  assumes "sql_agrees c m" "\<not> HasPrefix (cs_RawVerb first) ''PREPARE''" "cs_RawVerb first = ''EXECUTE''"
    and "Intercept (first # rest) ds c s rs = (r, stmts', c')"
  shows "(r = None \<and> (\<exists>es. m (cs_PreparedName first) = Some es \<and> stmts' = first\<lparr>cs_Effects := es, cs_Error := ''''\<rparr> # rest)) \<or>
     (\<exists>acts. r = Some acts \<and> ActionForward \<notin> set acts)"
proof -
  obtain c1 e where get: "Cache_Get c (cs_PreparedName first) = (c1, e)" by (cases "Cache_Get c (cs_PreparedName first)")
  then have "e = cache_look c (cs_PreparedName first)"
    using lru.get_law [OF sql_agreesD(1) [OF assms(1)], of "cs_PreparedName first"] by simp
  note e = this sql_agreesD(2) [OF assms(1), of "cs_PreparedName first"]
  show ?thesis
  proof (cases e)
    case None
    with get assms(2-4) show ?thesis by (auto simp: Intercept_def)
  next
    case (Some w)
    with e have "m (cs_PreparedName first) = Some (cs_Effects (en_Classification w))" by simp
    with Some get assms(2-4) show ?thesis by (auto simp: Intercept_def)
  qed
qed


section \<open>The relay loop against its specification\<close>

fun terminal :: "BackendMessage \<Rightarrow> bool" where
  "terminal CopyInResponse = True"
| "terminal CopyOutResponse = True"
| "terminal (ReadyForQuery _) = True"
| "terminal _ = False"

fun is_complete :: "BackendMessage \<Rightarrow> bool" where
  "is_complete (CommandComplete _) = True"
| "is_complete _ = False"

fun error_code :: "BackendMessage \<Rightarrow> string option" where
  "error_code (ErrorResponse _ code _) = Some code"
| "error_code _ = None"

text \<open>What is relayed: everything up to the first terminal message, and whether it came.\<close>

fun relay :: "BackendMessage input list \<Rightarrow> BackendMessage list \<times> bool" where
  "relay (Recv m # ins) = (if terminal m then ([m], True) else (m # fst (relay ins), snd (relay ins)))"
| "relay _ = ([], False)"

fun first_error :: "string \<Rightarrow> BackendMessage list \<Rightarrow> string" where
  "first_error code [] = code"
| "first_error code (m # ms) =
     (case error_code m of
        Some c \<Rightarrow> first_error (if code = '''' then c else code) ms
      | None \<Rightarrow> first_error code ms)"

fun final_state :: "clock \<Rightarrow> ConnState \<Rightarrow> BackendMessage list \<Rightarrow> ConnState" where
  "final_state clk s [] = s"
| "final_state clk s (m # ms) =
     (case m of
        ReadyForQuery status \<Rightarrow> observe_rfq clk status s
      | CopyInResponse \<Rightarrow> s\<lparr>st_Phase := PhaseInCopyIn\<rparr>
      | CopyOutResponse \<Rightarrow> s\<lparr>st_Phase := PhaseInCopyOut\<rparr>
      | _ \<Rightarrow> final_state clk s ms)"

lemma upstream_loop_sent:
  "lo_sent (upstream_loop fsize clk s r cr cs sent ins) = rev sent @ fst (relay ins)"
  by (induction fsize clk s r cr cs sent ins rule: upstream_loop.induct)
    (simp_all add: Let_def split: BackendMessage.splits prod.splits)

lemma upstream_loop_error:
  "lo_error (upstream_loop fsize clk s r cr cs sent ins) = None \<longleftrightarrow> snd (relay ins)"
  by (induction fsize clk s r cr cs sent ins rule: upstream_loop.induct)
    (simp_all add: Let_def split: BackendMessage.splits prod.splits)

lemma upstream_loop_state:
  "lo_state (upstream_loop fsize clk s r cr cs sent ins) = final_state clk s (fst (relay ins))"
  by (induction fsize clk s r cr cs sent ins rule: upstream_loop.induct)
    (simp_all add: Let_def split: BackendMessage.splits prod.splits)

lemma upstream_loop_bytes:
  "ur_BytesOut (lo_result (upstream_loop fsize clk s r cr cs sent ins)) = ur_BytesOut r + of_nat (sum_list (map fsize (fst (relay ins))))"
  by (induction fsize clk s r cr cs sent ins rule: upstream_loop.induct)
    (simp_all add: Let_def split: BackendMessage.splits prod.splits)

lemma upstream_loop_rows:
  "length (ur_RowsByStmt (lo_result (upstream_loop fsize clk s r cr cs sent ins))) = length (ur_RowsByStmt r) + length (filter is_complete (fst (relay ins)))"
  by (induction fsize clk s r cr cs sent ins rule: upstream_loop.induct)
    (simp_all add: Let_def split: BackendMessage.splits prod.splits)

lemma upstream_loop_affected:
  "length (ur_AffectedByStmt (lo_result (upstream_loop fsize clk s r cr cs sent ins))) = length (ur_AffectedByStmt r) + length (filter is_complete (fst (relay ins)))"
  by (induction fsize clk s r cr cs sent ins rule: upstream_loop.induct)
    (simp_all add: Let_def split: BackendMessage.splits prod.splits)

lemma upstream_loop_code:
  "ur_ErrorCode (lo_result (upstream_loop fsize clk s r cr cs sent ins)) = first_error (ur_ErrorCode r) (fst (relay ins))"
  by (induction fsize clk s r cr cs sent ins rule: upstream_loop.induct)
    (simp_all add: Let_def if_distrib [of ur_ErrorCode] split: BackendMessage.splits prod.splits)

lemmas upstream_loop_spec = upstream_loop_sent upstream_loop_error upstream_loop_state upstream_loop_bytes upstream_loop_rows
  upstream_loop_affected upstream_loop_code

lemma observe_rfq_simps [simp]:
  "st_LastUpstreamRFQ (observe_rfq clk status s) = status" "st_Absorbing (observe_rfq clk status s) = st_Absorbing s"
  "\<not> st_UpstreamDirtySinceSync (observe_rfq clk status s)"
  by (auto simp: observe_rfq_def Let_def)

lemma final_state_absorbing [simp]: "st_Absorbing (final_state clk s ms) = st_Absorbing s"
  by (induction ms) (auto split: BackendMessage.splits)

text \<open>During COPY only COPY messages reach the server.\<close>

fun copy_message :: "FrontendMessage \<Rightarrow> bool" where
  "copy_message (MsgCopyData _) = True"
| "copy_message MsgCopyDone = True"
| "copy_message (MsgCopyFail _) = True"
| "copy_message _ = False"

lemma copyIn_loop_only_copy:
  "list_all copy_message fwd \<Longrightarrow> list_all copy_message (co_toServer (copyIn_loop fsize clk s r fwd ins ups))"
  by (induction fsize clk s r fwd ins ups rule: copyIn_loop.induct) (simp_all split: FrontendMessage.splits)

lemma relay_ends: "snd (relay ins) \<Longrightarrow> fst (relay ins) \<noteq> [] \<and> terminal (last (fst (relay ins)))"
  by (induction ins rule: relay.induct) (auto split: if_splits)

lemma relay_prefix: "\<exists>rest. ins = map Recv (fst (relay ins)) @ rest"
  by (induction ins rule: relay.induct) auto


section \<open>Properties\<close>


text \<open>Parse, Bind, Execute of an allowed statement.\<close>

definition sample_trace :: "event list" where
  "sample_trace =
     [FrontendEvent (sample_rules VerbAllow) (\<lambda>_. [begin_stmt]) (ParseFrame ''s'' ''BEGIN'') [ActionForward],
      FrontendEvent (sample_rules VerbAllow) (\<lambda>_. [begin_stmt]) (BindFrame ''p'' ''s'') [ActionForward]]"

lemma sample_scan: "scan_statements env (sample_rules VerbAllow) svc [begin_stmt] = ScanAllow"
  by (simp add: sample_evaluate_the Let_def)

lemma sample_run:
  "\<exists>s c s' c'. run sample_env wireCacheView ''db'' idle_conn (Cache_New 8) sample_trace s c \<and>
     TransitionWithParser sample_env wireCacheView (\<lambda>_. [begin_stmt]) (sample_rules VerbAllow) ''db'' s (ExecuteFrame ''p'') c =
       (s', [ActionForward], c')"
proof -
  let ?T = "TransitionWithParser sample_env wireCacheView (\<lambda>_. [begin_stmt]) (sample_rules VerbAllow) ''db''"
  let ?v = "zeroCacheValue\<lparr>va_Verb := cs_RawVerb begin_stmt, va_GroupID := Group_ID (e_Group (sample_effect GroupTransaction))\<rparr>"
  let ?c1 = "wire_Put (Cache_New 8) ''s'' ?v"
  let ?s1 = "idle_conn\<lparr>st_UpstreamDirtySinceSync := True\<rparr>"
  have parse: "?T idle_conn (ParseFrame ''s'' ''BEGIN'') (Cache_New 8) = (?s1, [ActionForward], ?c1)"
    by (simp add: TransitionWithParser_def handleParse_def sample_scan idle_conn_def wireCacheView_def Let_def
        del: scan_statements.simps)
  have inv1: "cache_inv ?c1" and look1: "wire_look ?c1 ''s'' = Some (value_of_entry (entry_of_value ?v))"
    using wire.inv_put [OF cache_inv_New, of 8 "''s''" ?v] wire.put_same [OF cache_inv_New, of 8 "''s''" ?v]
    by (simp_all add: wireCacheView_def)
  from inv1 obtain c2 v where hit: "view_Get wireCacheView ?c1 ''s'' = (c2, Some v)" "cache_inv c2"
    using look1 by (cases rule: wire.get_cases [where k = "''s''"]) auto
  let ?c3 = "wire_Put c2 (portalCacheKey ''p'') v"
  have bind: "?T ?s1 (BindFrame ''p'' ''s'') ?c1 = (?s1, [ActionForward], ?c3)"
    using hit by (simp add: TransitionWithParser_def handleBind_def idle_conn_def) (simp add: wireCacheView_def)
  have "run sample_env wireCacheView ''db'' idle_conn (Cache_New 8)
      (([] @ [FrontendEvent (sample_rules VerbAllow) (\<lambda>_. [begin_stmt]) (ParseFrame ''s'' ''BEGIN'') [ActionForward]]) @
       [FrontendEvent (sample_rules VerbAllow) (\<lambda>_. [begin_stmt]) (BindFrame ''p'' ''s'') [ActionForward]]) ?s1 ?c3"
    by (rule run_frame [OF run_frame [OF run_start parse] bind])
  then have run: "run sample_env wireCacheView ''db'' idle_conn (Cache_New 8) sample_trace ?s1 ?c3"
    by (simp add: sample_trace_def)
  have inv3: "cache_inv ?c3" and look3: "wire_look ?c3 (portalCacheKey ''p'') \<noteq> None"
    using wire.inv_put [OF hit(2), of "portalCacheKey ''p''" v] wire.put_same [OF hit(2), of "portalCacheKey ''p''" v]
    by (simp_all add: wireCacheView_def)
  from inv3 obtain c4 w where "view_Get wireCacheView ?c3 (portalCacheKey ''p'') = (c4, Some w)"
    using look3 by (cases rule: wire.get_cases [where k = "portalCacheKey ''p''"]) auto
  then have "?T ?s1 (ExecuteFrame ''p'') ?c3 = (?s1, [ActionForward], c4)"
    by (simp add: TransitionWithParser_def handleExecute_def idle_conn_def)
  with run show ?thesis by blast
qed



definition sql_stmt :: "string \<Rightarrow> Effect list \<Rightarrow> ClassifiedStatement" where
  "sql_stmt verb es = zeroStatement\<lparr>cs_RawVerb := verb, cs_Effects := es, cs_PreparedName := ''q''\<rparr>"

definition prepare_call :: intercept_call where
  "prepare_call = \<lparr>ic_stmts = [sql_stmt ''PREPARE_SELECT'' [sample_effect GroupRead]], ic_decisions = [], ic_state = idle_conn, ic_rules = None\<rparr>"




text \<open>
  C38: while a COPY from the client is running, nothing but COPY data and its end reaches the server,
  whatever the client sends.
\<close>

theorem copy_in_only_copy:
  "list_all copy_message (co_toServer (runCopyInLoop fsize clk s ins ups))"
  using copyIn_loop_only_copy [of "[]" fsize clk "s\<lparr>st_Phase := PhaseInCopyIn\<rparr>" zeroResult ins ups]
  by (simp add: runCopyInLoop_def)

end
