(* ===== verification/Db_Catalog.thy ===== *)
theory Db_Catalog
  imports Db_Effects Go_Strings
begin

text \<open>
  The catalog of the database behind the proxy: names, relations and functions
  (\<open>src/internal/db/catalog/types.go\<close>), the snapshot and its indexes (snapshot.go), resolution of
  names along the search path (resolve.go), the resolution of classified statements against the
  connection's catalog context (\<open>src/internal/db/proxy/postgres/resolve_runtime.go\<close>) and the
  upkeep of that context (\<open>catalog_runtime.go\<close>).

  Go maps are functions to \<open>option\<close>, or to a list where an absent key reads as the empty slice.
  The loader that queries the live catalog is an interface of the code and a parameter here.
\<close>


section \<open>Names, relations and functions (types.go)\<close>

type_synonym OID = "32 word"

record Name =
  nm_Schema :: string
  nm_Name :: string

definition Name_String :: "Name \<Rightarrow> string" where
  "Name_String n = (if nm_Schema n = '''' then nm_Name n else nm_Schema n @ ''.'' @ nm_Name n)"

datatype RelationKind =
    RelationKindZero | RelationTable | RelationPartitionedTable | RelationView | RelationMaterializedView
  | RelationForeignTable | RelationSequence

fun RelationKind_String :: "RelationKind \<Rightarrow> string" where
  "RelationKind_String RelationTable = ''table''"
| "RelationKind_String RelationPartitionedTable = ''partitioned_table''"
| "RelationKind_String RelationView = ''view''"
| "RelationKind_String RelationMaterializedView = ''materialized_view''"
| "RelationKind_String RelationForeignTable = ''foreign_table''"
| "RelationKind_String RelationSequence = ''sequence''"
| "RelationKind_String RelationKindZero = ''''"

datatype FunctionVolatility = VolatilityZero | VolatilityImmutable | VolatilityStable | VolatilityVolatile

record Column =
  col_Name :: string
  col_TypeOID :: OID
  col_NotNull :: bool
  col_Position :: int

record Relation =
  rel_OID :: OID
  rel_Name :: Name
  rel_Kind :: RelationKind
  rel_Owner :: string
  rel_Columns :: "Column list"

record Function =
  fn_OID :: OID
  fn_Name :: Name
  fn_IdentityArgs :: string
  fn_Volatility :: FunctionVolatility
  fn_Strict :: bool
  fn_ReturnTypeOID :: OID

datatype UnresolvedReason =
    UnresolvedNone | UnresolvedMissing | UnresolvedAmbiguous | UnresolvedUnsupported | UnresolvedCatalogError

fun UnresolvedReason_String :: "UnresolvedReason \<Rightarrow> string" where
  "UnresolvedReason_String UnresolvedMissing = ''missing''"
| "UnresolvedReason_String UnresolvedAmbiguous = ''ambiguous''"
| "UnresolvedReason_String UnresolvedUnsupported = ''unsupported''"
| "UnresolvedReason_String UnresolvedCatalogError = ''catalog_error''"
| "UnresolvedReason_String UnresolvedNone = ''''"

definition zeroRelation :: Relation where
  "zeroRelation = \<lparr>rel_OID = 0, rel_Name = \<lparr>nm_Schema = '''', nm_Name = ''''\<rparr>, rel_Kind = RelationKindZero,
     rel_Owner = '''', rel_Columns = []\<rparr>"

definition zeroFunction :: Function where
  "zeroFunction = \<lparr>fn_OID = 0, fn_Name = \<lparr>nm_Schema = '''', nm_Name = ''''\<rparr>, fn_IdentityArgs = '''',
     fn_Volatility = VolatilityZero, fn_Strict = False, fn_ReturnTypeOID = 0\<rparr>"

record ResolvedRelation =
  rr_Relation :: Relation
  rr_Reason :: UnresolvedReason

definition ResolvedRelation_OK :: "ResolvedRelation \<Rightarrow> bool" where
  "ResolvedRelation_OK r \<longleftrightarrow> rr_Reason r = UnresolvedNone"

record ResolvedFunction =
  rf_Function :: Function
  rf_Reason :: UnresolvedReason

definition ResolvedFunction_OK :: "ResolvedFunction \<Rightarrow> bool" where
  "ResolvedFunction_OK r \<longleftrightarrow> rf_Reason r = UnresolvedNone"


section \<open>Snapshots (snapshot.go)\<close>

record Snapshot =
  sn_relationsByOID :: "OID \<Rightarrow> Relation option"
  sn_relationsByName :: "Name \<Rightarrow> Relation option"
  sn_relationsByBare :: "string \<Rightarrow> Relation list"
  sn_functionsByOID :: "OID \<Rightarrow> Function option"
  sn_functionsByName :: "Name \<Rightarrow> Function list"

definition emptySnapshot :: Snapshot where
  "emptySnapshot = \<lparr>sn_relationsByOID = (\<lambda>_. None), sn_relationsByName = (\<lambda>_. None), sn_relationsByBare = (\<lambda>_. []),
     sn_functionsByOID = (\<lambda>_. None), sn_functionsByName = (\<lambda>_. [])\<rparr>"

definition add_relation :: "Snapshot \<Rightarrow> Relation \<Rightarrow> Snapshot" where
  "add_relation s rel =
     s\<lparr>sn_relationsByOID := (sn_relationsByOID s)(rel_OID rel := Some rel),
       sn_relationsByName := (sn_relationsByName s)(rel_Name rel := Some rel),
       sn_relationsByBare := (sn_relationsByBare s)
         (nm_Name (rel_Name rel) := sn_relationsByBare s (nm_Name (rel_Name rel)) @ [rel])\<rparr>"

definition add_function :: "Snapshot \<Rightarrow> Function \<Rightarrow> Snapshot" where
  "add_function s fn =
     s\<lparr>sn_functionsByOID := (sn_functionsByOID s)(fn_OID fn := Some fn),
       sn_functionsByName := (sn_functionsByName s)(fn_Name fn := sn_functionsByName s (fn_Name fn) @ [fn])\<rparr>"

definition NewSnapshot :: "Relation list \<Rightarrow> Function list \<Rightarrow> Snapshot" where
  "NewSnapshot relations functions = foldl add_function (foldl add_relation emptySnapshot relations) functions"

definition RelationByOID :: "Snapshot \<Rightarrow> OID \<Rightarrow> Relation option" where
  "RelationByOID s oid = sn_relationsByOID s oid"

definition RelationByName :: "Snapshot \<Rightarrow> Name \<Rightarrow> Relation option" where
  "RelationByName s name = sn_relationsByName s name"

definition RelationsByUnqualifiedName :: "Snapshot \<Rightarrow> string \<Rightarrow> Relation list" where
  "RelationsByUnqualifiedName s name = sn_relationsByBare s name"

definition FunctionByOID :: "Snapshot \<Rightarrow> OID \<Rightarrow> Function option" where
  "FunctionByOID s oid = sn_functionsByOID s oid"

definition FunctionsByName :: "Snapshot \<Rightarrow> Name \<Rightarrow> Function list" where
  "FunctionsByName s name = sn_functionsByName s name"


section \<open>Resolution along the search path (resolve.go)\<close>

fun search_path_loop :: "Snapshot \<Rightarrow> string \<Rightarrow> string list \<Rightarrow> Relation option" where
  "search_path_loop snap bare [] = None"
| "search_path_loop snap bare (schema # rest) =
     (case RelationByName snap \<lparr>nm_Schema = schema, nm_Name = bare\<rparr> of
        Some rel \<Rightarrow> Some rel
      | None \<Rightarrow> search_path_loop snap bare rest)"

definition ResolveRelation :: "Snapshot \<Rightarrow> Name \<Rightarrow> string list \<Rightarrow> ResolvedRelation" where
  "ResolveRelation snap name searchPath =
     (if nm_Schema name \<noteq> '''' then
        (case RelationByName snap name of
           None \<Rightarrow> \<lparr>rr_Relation = zeroRelation, rr_Reason = UnresolvedMissing\<rparr>
         | Some rel \<Rightarrow> \<lparr>rr_Relation = rel, rr_Reason = UnresolvedNone\<rparr>)
      else case search_path_loop snap (nm_Name name) searchPath of
        Some rel \<Rightarrow> \<lparr>rr_Relation = rel, rr_Reason = UnresolvedNone\<rparr>
      | None \<Rightarrow>
          if length (RelationsByUnqualifiedName snap (nm_Name name)) > 1
          then \<lparr>rr_Relation = zeroRelation, rr_Reason = UnresolvedAmbiguous\<rparr>
          else \<lparr>rr_Relation = zeroRelation, rr_Reason = UnresolvedMissing\<rparr>)"

definition ResolveFunctionByOID :: "Snapshot \<Rightarrow> OID \<Rightarrow> ResolvedFunction" where
  "ResolveFunctionByOID snap oid =
     (case FunctionByOID snap oid of
        None \<Rightarrow> \<lparr>rf_Function = zeroFunction, rf_Reason = UnresolvedMissing\<rparr>
      | Some fn \<Rightarrow> \<lparr>rf_Function = fn, rf_Reason = UnresolvedNone\<rparr>)"


section \<open>Statements against the catalog context (resolve\_runtime.go)\<close>

record catalogRuntimeContext =
  cx_Snapshot :: Snapshot
  cx_SearchPath :: "string list"
  cx_UnavailableReason :: string

definition catalogSessionStateChangedReason :: string where
  "catalogSessionStateChangedReason = ''session_state_changed''"

definition zeroResolved :: ResolvedObjectRef where
  "zeroResolved = \<lparr>r_Source = '''', r_Kind = '''', r_OID = 0, r_Schema = '''', r_Name = '''', r_RelationKind = '''',
     r_FunctionIdentityArgs = '''', r_FunctionVolatility = '''', r_UnresolvedReason = ''''\<rparr>"

definition isCatalogRelationObject :: "ObjectKind \<Rightarrow> bool" where
  "isCatalogRelationObject kind \<longleftrightarrow> kind \<in> {ObjectTable, ObjectView, ObjectSequence}"

definition hasCatalogRelationObject :: "ObjectRef list \<Rightarrow> bool" where
  "hasCatalogRelationObject objects = list_ex (\<lambda>obj. isCatalogRelationObject (o_Kind obj)) objects"

definition unresolved_relation :: "ObjectRef \<Rightarrow> string \<Rightarrow> ResolvedObjectRef" where
  "unresolved_relation obj reason = zeroResolved\<lparr>r_Source := ResolvedObjectSourceCatalog, r_Kind := ResolvedObjectRelation,
     r_Schema := o_Schema obj, r_Name := o_Name obj, r_UnresolvedReason := reason\<rparr>"

definition resolveObjectCatalog :: "ObjectRef \<Rightarrow> catalogRuntimeContext \<Rightarrow> ResolvedObjectRef" where
  "resolveObjectCatalog obj ctx =
     (if \<not> isCatalogRelationObject (o_Kind obj) then unresolved_relation obj ''unsupported''
      else if cx_UnavailableReason ctx \<noteq> '''' then unresolved_relation obj (cx_UnavailableReason ctx)
      else
        let res = ResolveRelation (cx_Snapshot ctx) \<lparr>nm_Schema = o_Schema obj, nm_Name = o_Name obj\<rparr> (cx_SearchPath ctx) in
        if \<not> ResolvedRelation_OK res then unresolved_relation obj (UnresolvedReason_String (rr_Reason res))
        else
          let rel = rr_Relation res in
          zeroResolved\<lparr>r_Source := ResolvedObjectSourceCatalog, r_Kind := ResolvedObjectRelation, r_OID := rel_OID rel,
            r_Schema := nm_Schema (rel_Name rel), r_Name := nm_Name (rel_Name rel),
            r_RelationKind := RelationKind_String (rel_Kind rel)\<rparr>)"

fun functionVolatilityString :: "FunctionVolatility \<Rightarrow> string" where
  "functionVolatilityString VolatilityImmutable = ''immutable''"
| "functionVolatilityString VolatilityStable = ''stable''"
| "functionVolatilityString VolatilityVolatile = ''volatile''"
| "functionVolatilityString VolatilityZero = ''''"

definition resolveFunctionOIDCatalog :: "32 word \<Rightarrow> catalogRuntimeContext \<Rightarrow> ResolvedObjectRef" where
  "resolveFunctionOIDCatalog oid ctx =
     (let base = zeroResolved\<lparr>r_Source := ResolvedObjectSourceCatalog, r_Kind := ResolvedObjectFunction, r_OID := oid\<rparr> in
      if cx_UnavailableReason ctx \<noteq> '''' then base\<lparr>r_UnresolvedReason := cx_UnavailableReason ctx\<rparr>
      else
        let res = ResolveFunctionByOID (cx_Snapshot ctx) oid in
        if \<not> ResolvedFunction_OK res then base\<lparr>r_UnresolvedReason := UnresolvedReason_String (rf_Reason res)\<rparr>
        else
          let fn = rf_Function res in
          base\<lparr>r_OID := fn_OID fn, r_Schema := nm_Schema (fn_Name fn), r_Name := nm_Name (fn_Name fn),
            r_FunctionIdentityArgs := fn_IdentityArgs fn,
            r_FunctionVolatility := functionVolatilityString (fn_Volatility fn)\<rparr>)"

text \<open>
  The object loop of \<open>resolveEffectCatalog\<close>: objects that are not relations are skipped when there
  is a relation among them.
\<close>

definition resolve_objects :: "ObjectRef list \<Rightarrow> catalogRuntimeContext \<Rightarrow> ResolvedObjectRef list" where
  "resolve_objects objs ctx =
     map (\<lambda>obj. resolveObjectCatalog obj ctx)
       (filter (\<lambda>obj. \<not> (hasCatalogRelationObject objs \<and> \<not> isCatalogRelationObject (o_Kind obj))) objs)"

definition resolveEffectCatalog :: "Effect \<Rightarrow> catalogRuntimeContext \<Rightarrow> Effect" where
  "resolveEffectCatalog eff ctx =
     (let out = eff\<lparr>e_ResolvedObjects := []\<rparr>;
          out = (if e_Objects eff = [] then out
                 else
                   let rs = resolve_objects (e_Objects eff) ctx;
                       out = out\<lparr>e_ResolvedObjects := rs\<rparr>
                   in if rs = [] then out
                      else if cx_UnavailableReason ctx \<noteq> '''' then out\<lparr>e_Resolution := ResolutionCatalogUnavailable\<rparr>
                      else if list_all (\<lambda>r. r_UnresolvedReason r = '''') rs then out\<lparr>e_Resolution := ResolutionCatalogResolved\<rparr>
                      else out\<lparr>e_Resolution := ResolutionCatalogUnresolved\<rparr>)
      in case e_FunctionOID eff of
           None \<Rightarrow> out
         | Some oid \<Rightarrow>
             let resolved = resolveFunctionOIDCatalog oid ctx;
                 out = out\<lparr>e_ResolvedObjects := e_ResolvedObjects out @ [resolved]\<rparr>
             in if cx_UnavailableReason ctx \<noteq> '''' then out\<lparr>e_Resolution := ResolutionCatalogUnavailable\<rparr>
                else if r_UnresolvedReason resolved = '''' then out\<lparr>e_Resolution := ResolutionCatalogResolved\<rparr>
                else out\<lparr>e_Resolution := ResolutionCatalogUnresolved\<rparr>)"

definition resolveStatementCatalog :: "ClassifiedStatement \<Rightarrow> catalogRuntimeContext \<Rightarrow> ClassifiedStatement" where
  "resolveStatementCatalog stmt ctx = stmt\<lparr>cs_Effects := map (\<lambda>eff. resolveEffectCatalog eff ctx) (cs_Effects stmt)\<rparr>"

definition effectHasGUC :: "Effect \<Rightarrow> string \<Rightarrow> bool" where
  "effectHasGUC eff name = list_ex (\<lambda>obj. o_Kind obj = ObjectGUC \<and> EqualFold (o_Name obj) name) (e_Objects eff)"

definition effectHasAnyGUC :: "Effect \<Rightarrow> string list \<Rightarrow> bool" where
  "effectHasAnyGUC eff names = list_ex (effectHasGUC eff) names"

definition transactionCanRestoreLocalSearchPath :: "string \<Rightarrow> bool" where
  "transactionCanRestoreLocalSearchPath rawVerb \<longleftrightarrow> rawVerb \<in> {''COMMIT'', ''ROLLBACK'', ''ROLLBACK_TO'', ''END''}"

text \<open>The result is the pair of the search-path need and the snapshot need.\<close>

definition effectCatalogRefreshNeeds :: "Effect \<Rightarrow> string \<Rightarrow> bool \<times> bool" where
  "effectCatalogRefreshNeeds eff rawVerb =
     (let st = e_Subtype eff;
          tx = (e_Group eff = GroupTransaction \<and> transactionCanRestoreLocalSearchPath rawVerb)
      in
      if st \<in> {SubtypeSetSearchPath, SubtypeResetAll, SubtypeDiscardAll, SubtypeSetRole, SubtypeSetSessionAuthorization}
      then (True, False)
      else if st \<in> {SubtypeSetLocal, SubtypeReset} \<and>
              effectHasAnyGUC eff [''search_path'', ''role'', ''session_authorization'']
      then (True, False)
      else if st = SubtypeDiscardTemp then (True, True)
      else if st = SubtypeCreateTable then (if Contains rawVerb ''TEMP'' then (True, True) else (False, True))
      else if st \<in> {SubtypeCreateIndex, SubtypeCreateView, SubtypeCreateSchema, SubtypeCreateFunction,
                 SubtypeCreateMaterializedView, SubtypeCreateExtension, SubtypeDropTable, SubtypeDropSchema,
                 SubtypeDropIndex, SubtypeDropView, SubtypeDropFunction}
      then (False, True)
      else (tx, False))"

definition effectInvalidatesCatalogContext :: "Effect \<Rightarrow> string \<Rightarrow> bool" where
  "effectInvalidatesCatalogContext eff rawVerb = (case effectCatalogRefreshNeeds eff rawVerb of (sp, sn) \<Rightarrow> sp \<or> sn)"

definition statementInvalidatesCatalogContext :: "ClassifiedStatement \<Rightarrow> bool" where
  "statementInvalidatesCatalogContext stmt =
     list_ex (\<lambda>eff. effectInvalidatesCatalogContext eff (cs_RawVerb stmt)) (cs_Effects stmt)"

definition statementsNeedCatalogRefresh :: "ClassifiedStatement list \<Rightarrow> bool \<times> bool" where
  "statementsNeedCatalogRefresh stmts =
     (let needs = concat (map (\<lambda>stmt. map (\<lambda>eff. effectCatalogRefreshNeeds eff (cs_RawVerb stmt)) (cs_Effects stmt)) stmts)
      in (list_ex fst needs, list_ex snd needs))"

text \<open>The statement loop: a statement that changes what names mean makes the context unavailable for the rest.\<close>

fun resolveStatementsCatalog :: "ClassifiedStatement list \<Rightarrow> catalogRuntimeContext \<Rightarrow> ClassifiedStatement list" where
  "resolveStatementsCatalog [] current = []"
| "resolveStatementsCatalog (stmt # stmts) current =
     resolveStatementCatalog stmt current #
     resolveStatementsCatalog stmts
       (if statementInvalidatesCatalogContext stmt
        then current\<lparr>cx_UnavailableReason := catalogSessionStateChangedReason, cx_SearchPath := []\<rparr>
        else current)"

text \<open>
  \<open>resolvingParser.Classify\<close>: the base parser, which is third-party, returns statements and whether
  it failed; on failure its statements are returned as they are.
\<close>

definition resolving_Classify ::
    "(string \<Rightarrow> ClassifiedStatement list \<times> bool) \<Rightarrow> catalogRuntimeContext \<Rightarrow> string \<Rightarrow> ClassifiedStatement list \<times> bool" where
  "resolving_Classify base ctx sql =
     (case base sql of (stmts, failed) \<Rightarrow> if failed then (stmts, failed) else (resolveStatementsCatalog stmts ctx, failed))"


section \<open>Upkeep of the context (catalog\_runtime.go)\<close>

text \<open>
  The loader talks to the server over the connection, so its methods thread the connection state
  \<open>'s\<close>; they return the reason and whether they failed. The shared store is a map, or \<open>None\<close> when
  the server has none; concurrent loads of one key are merged by the code and sequential here.
\<close>

record catalogSnapshotEntry =
  ce_Snapshot :: Snapshot
  ce_UnavailableReason :: string

record catalogCacheKey =
  ck_Service :: string
  ck_Database :: string
  ck_DBUser :: string

record 's catalogRuntimeLoader =
  ld_LoadCatalogSnapshot :: "'s \<Rightarrow> 's \<times> Snapshot \<times> string \<times> bool"
  ld_LoadCurrentSearchPath :: "'s \<Rightarrow> 's \<times> string list \<times> string \<times> bool"

type_synonym catalogSnapshotStore = "catalogCacheKey \<Rightarrow> catalogSnapshotEntry option"

definition loadSearchPath :: "'s catalogRuntimeLoader \<Rightarrow> 's \<Rightarrow> 's \<times> string list \<times> string" where
  "loadSearchPath ld s =
     (case ld_LoadCurrentSearchPath ld s of (s', searchPath, reason, failed) \<Rightarrow>
        if failed then (s', [], if reason = '''' then ''search_path_unavailable'' else reason)
        else (s', searchPath, ''''))"

definition loadSnapshot :: "'s catalogRuntimeLoader \<Rightarrow> 's \<Rightarrow> 's \<times> catalogSnapshotEntry" where
  "loadSnapshot ld s =
     (case ld_LoadCatalogSnapshot ld s of (s', snap, reason, failed) \<Rightarrow>
        (s', \<lparr>ce_Snapshot = snap,
              ce_UnavailableReason = (if failed then (if reason = '''' then ''catalog_error'' else reason) else '''')\<rparr>))"

definition runtimeContextFromSnapshot :: "catalogSnapshotEntry \<Rightarrow> string list \<Rightarrow> string \<Rightarrow> catalogRuntimeContext" where
  "runtimeContextFromSnapshot entry searchPath searchPathReason =
     \<lparr>cx_Snapshot = ce_Snapshot entry, cx_SearchPath = searchPath,
      cx_UnavailableReason = (if searchPathReason \<noteq> '''' then searchPathReason else ce_UnavailableReason entry)\<rparr>"

definition loadOrGetSnapshot ::
    "'s catalogRuntimeLoader \<Rightarrow> catalogCacheKey \<Rightarrow> catalogSnapshotStore \<Rightarrow> 's \<Rightarrow>
     catalogSnapshotStore \<times> 's \<times> catalogSnapshotEntry" where
  "loadOrGetSnapshot ld key store s =
     (case store key of
        Some entry \<Rightarrow> (store, s, entry)
      | None \<Rightarrow> (case loadSnapshot ld s of (s', entry) \<Rightarrow> (store(key := Some entry), s', entry)))"

definition store_loadOrGet ::
    "'s catalogRuntimeLoader \<Rightarrow> catalogCacheKey \<Rightarrow> catalogSnapshotStore \<Rightarrow> 's \<Rightarrow>
     catalogSnapshotStore \<times> 's \<times> catalogRuntimeContext" where
  "store_loadOrGet ld key store s =
     (case loadSearchPath ld s of (s1, searchPath, reason) \<Rightarrow>
      case loadOrGetSnapshot ld key store s1 of (store', s2, entry) \<Rightarrow>
        (store', s2, runtimeContextFromSnapshot entry searchPath reason))"

definition store_refresh ::
    "'s catalogRuntimeLoader \<Rightarrow> catalogCacheKey \<Rightarrow> catalogSnapshotStore \<Rightarrow> 's \<Rightarrow>
     catalogSnapshotStore \<times> 's \<times> catalogRuntimeContext" where
  "store_refresh ld key store s =
     (case loadSearchPath ld s of (s1, searchPath, reason) \<Rightarrow>
      case loadSnapshot ld s1 of (s2, entry) \<Rightarrow>
        (store(key := Some entry), s2, runtimeContextFromSnapshot entry searchPath reason))"

definition store_refreshSearchPath ::
    "'s catalogRuntimeLoader \<Rightarrow> catalogCacheKey \<Rightarrow> catalogSnapshotStore \<Rightarrow> 's \<Rightarrow>
     catalogSnapshotStore \<times> 's \<times> catalogRuntimeContext" where
  "store_refreshSearchPath ld key store s =
     (case loadSearchPath ld s of (s1, searchPath, reason) \<Rightarrow>
      case loadOrGetSnapshot ld key store s1 of (store', s2, entry) \<Rightarrow>
        (store', s2, runtimeContextFromSnapshot entry searchPath reason))"

text \<open>
  The part of a proxy connection that the upkeep reads and writes. \<open>rfq\<close> reads the last transaction
  status out of the connection state.
\<close>

record 's catalogState =
  ks_store :: "catalogSnapshotStore option"
  ks_catalog :: catalogRuntimeContext
  ks_catalogRefreshPending :: bool
  ks_catalogSnapshotRefreshPending :: bool
  ks_conn :: 's

definition zeroContext :: "string \<Rightarrow> catalogRuntimeContext" where
  "zeroContext reason = \<lparr>cx_Snapshot = emptySnapshot, cx_SearchPath = [], cx_UnavailableReason = reason\<rparr>"

definition initializeCatalogContext ::
    "'s catalogRuntimeLoader \<Rightarrow> catalogCacheKey \<Rightarrow> 's catalogState \<Rightarrow> 's catalogState" where
  "initializeCatalogContext ld key k =
     (case ks_store k of
        None \<Rightarrow> k\<lparr>ks_catalog := zeroContext ''catalog_store_unavailable''\<rparr>
      | Some store \<Rightarrow>
          (case store_loadOrGet ld key store (ks_conn k) of (store', s', ctx) \<Rightarrow>
             k\<lparr>ks_store := Some store', ks_conn := s', ks_catalog := ctx\<rparr>))"

definition markCatalogRefreshPendingForNeeds :: "bool \<Rightarrow> bool \<Rightarrow> 's catalogState \<Rightarrow> 's catalogState" where
  "markCatalogRefreshPendingForNeeds searchPath snapshot k =
     (if \<not> searchPath \<and> \<not> snapshot then k
      else k\<lparr>ks_catalogRefreshPending := True,
             ks_catalogSnapshotRefreshPending := (ks_catalogSnapshotRefreshPending k \<or> snapshot),
             ks_catalog := (ks_catalog k)\<lparr>cx_UnavailableReason := catalogSessionStateChangedReason, cx_SearchPath := []\<rparr>\<rparr>)"

definition markCatalogRefreshPending :: "ClassifiedStatement list \<Rightarrow> 's catalogState \<Rightarrow> 's catalogState" where
  "markCatalogRefreshPending stmts k =
     (case statementsNeedCatalogRefresh stmts of (searchPath, snapshot) \<Rightarrow> markCatalogRefreshPendingForNeeds searchPath snapshot k)"

definition catalogSnapshotRefreshMustWait :: "('s \<Rightarrow> char) \<Rightarrow> 's catalogState \<Rightarrow> bool" where
  "catalogSnapshotRefreshMustWait rfq k \<longleftrightarrow> rfq (ks_conn k) \<in> {CHR ''T'', CHR ''E''}"

definition refreshCatalogContext ::
    "'s catalogRuntimeLoader \<Rightarrow> catalogCacheKey \<Rightarrow> bool \<Rightarrow> 's catalogState \<Rightarrow> 's catalogState" where
  "refreshCatalogContext ld key refreshSnapshot k =
     (case ks_store k of
        None \<Rightarrow> k\<lparr>ks_catalog := zeroContext ''catalog_store_unavailable''\<rparr>
      | Some store \<Rightarrow>
          (case (if refreshSnapshot then store_refresh ld key store (ks_conn k)
                 else store_refreshSearchPath ld key store (ks_conn k)) of (store', s', ctx) \<Rightarrow>
             k\<lparr>ks_store := Some store', ks_conn := s', ks_catalog := ctx, ks_catalogRefreshPending := False,
               ks_catalogSnapshotRefreshPending := False\<rparr>))"

definition refreshPendingCatalogContext ::
    "('s \<Rightarrow> char) \<Rightarrow> 's catalogRuntimeLoader \<Rightarrow> catalogCacheKey \<Rightarrow> 's catalogState \<Rightarrow> 's catalogState" where
  "refreshPendingCatalogContext rfq ld key k =
     (if \<not> ks_catalogRefreshPending k then k
      else if ks_catalogSnapshotRefreshPending k \<and> catalogSnapshotRefreshMustWait rfq k then
        k\<lparr>ks_catalog := (ks_catalog k)\<lparr>cx_UnavailableReason := catalogSessionStateChangedReason, cx_SearchPath := []\<rparr>\<rparr>
      else refreshCatalogContext ld key (ks_catalogSnapshotRefreshPending k)
             (k\<lparr>ks_catalogRefreshPending := False, ks_catalogSnapshotRefreshPending := False\<rparr>))"

definition refreshCatalogForStatements ::
    "('s \<Rightarrow> char) \<Rightarrow> 's catalogRuntimeLoader \<Rightarrow> catalogCacheKey \<Rightarrow> ClassifiedStatement list \<Rightarrow> 's catalogState \<Rightarrow> 's catalogState" where
  "refreshCatalogForStatements rfq ld key stmts k =
     (case statementsNeedCatalogRefresh stmts of (searchPath, needSnapshot) \<Rightarrow>
        let snapshot = (needSnapshot \<or> ks_catalogSnapshotRefreshPending k) in
        if \<not> searchPath \<and> \<not> snapshot then k
        else if snapshot \<and> catalogSnapshotRefreshMustWait rfq k then markCatalogRefreshPendingForNeeds searchPath True k
        else refreshCatalogContext ld key snapshot k)"

text \<open>\<open>completed\<close> is the number of statements for which the server reported completion.\<close>

definition refreshCatalogAfterSuccessfulStatements ::
    "('s \<Rightarrow> char) \<Rightarrow> 's catalogRuntimeLoader \<Rightarrow> catalogCacheKey \<Rightarrow> ClassifiedStatement list \<Rightarrow> nat \<Rightarrow>
     's catalogState \<Rightarrow> 's catalogState" where
  "refreshCatalogAfterSuccessfulStatements rfq ld key stmts completed k =
     (let n = min completed (length stmts) in
      if n = 0 then k else refreshCatalogForStatements rfq ld key (take n stmts) k)"


section \<open>Lemmas\<close>

text \<open>The name index of a snapshot holds relations of the list under their own names.\<close>

lemma add_functions_relations:
  "sn_relationsByName (foldl add_function s fns) = sn_relationsByName s"
  by (induction fns arbitrary: s) (simp_all add: add_function_def)

lemma add_relations_byName:
  "sn_relationsByName (foldl add_relation s rels) n = Some rel \<Longrightarrow>
     (rel \<in> set rels \<and> rel_Name rel = n) \<or> sn_relationsByName s n = Some rel"
proof (induction rels arbitrary: s)
  case (Cons r rels)
  then have "(rel \<in> set rels \<and> rel_Name rel = n) \<or> sn_relationsByName (add_relation s r) n = Some rel" by simp
  then show ?case by (auto simp: add_relation_def split: if_splits)
qed simp

lemma RelationByName_NewSnapshot:
  assumes "RelationByName (NewSnapshot rels fns) n = Some rel"
  shows "rel \<in> set rels" "rel_Name rel = n"
  using assms add_relations_byName [of emptySnapshot rels n rel]
  by (auto simp: RelationByName_def NewSnapshot_def add_functions_relations emptySnapshot_def)

lemma search_path_loop_Some:
  "search_path_loop snap bare path = Some rel \<Longrightarrow>
     \<exists>pre schema post. path = pre @ schema # post \<and> RelationByName snap \<lparr>nm_Schema = schema, nm_Name = bare\<rparr> = Some rel \<and>
       (\<forall>s \<in> set pre. RelationByName snap \<lparr>nm_Schema = s, nm_Name = bare\<rparr> = None)"
proof (induction path)
  case (Cons schema path)
  show ?case
  proof (cases "RelationByName snap \<lparr>nm_Schema = schema, nm_Name = bare\<rparr>")
    case None
    with Cons.prems have "search_path_loop snap bare path = Some rel" by simp
    from Cons.IH [OF this] obtain pre sc post where
      "path = pre @ sc # post" "RelationByName snap \<lparr>nm_Schema = sc, nm_Name = bare\<rparr> = Some rel"
      "\<forall>s \<in> set pre. RelationByName snap \<lparr>nm_Schema = s, nm_Name = bare\<rparr> = None" by blast
    with None show ?thesis by (intro exI [of _ "schema # pre"] exI [of _ sc] exI [of _ post]) auto
  next
    case (Some r)
    with Cons.prems show ?thesis by (intro exI [of _ "[]"] exI [of _ schema] exI [of _ path]) simp
  qed
qed simp

text \<open>What a reference means: the qualified relation, or the first one along the search path.\<close>

definition denotes :: "Snapshot \<Rightarrow> string list \<Rightarrow> ObjectRef \<Rightarrow> Relation \<Rightarrow> bool" where
  "denotes snap path obj rel \<longleftrightarrow>
     nm_Name (rel_Name rel) = o_Name obj \<and>
     RelationByName snap (rel_Name rel) = Some rel \<and>
     (if o_Schema obj \<noteq> '''' then nm_Schema (rel_Name rel) = o_Schema obj
      else \<exists>pre post. path = pre @ nm_Schema (rel_Name rel) # post \<and>
             (\<forall>s \<in> set pre. RelationByName snap \<lparr>nm_Schema = s, nm_Name = o_Name obj\<rparr> = None))"

lemma ResolveRelation_OK:
  assumes "snap = NewSnapshot rels fns"
    and "ResolvedRelation_OK (ResolveRelation snap \<lparr>nm_Schema = o_Schema obj, nm_Name = o_Name obj\<rparr> path)"
  shows "denotes snap path obj (rr_Relation (ResolveRelation snap \<lparr>nm_Schema = o_Schema obj, nm_Name = o_Name obj\<rparr> path))"
proof (cases "o_Schema obj = ''''")
  case True
  with assms(2) obtain rel where rel: "search_path_loop snap (o_Name obj) path = Some rel"
    by (auto simp: ResolveRelation_def ResolvedRelation_OK_def split: option.splits if_splits)
  from search_path_loop_Some [OF rel] obtain pre schema post where
    path: "path = pre @ schema # post" "RelationByName snap \<lparr>nm_Schema = schema, nm_Name = o_Name obj\<rparr> = Some rel"
      "\<forall>s \<in> set pre. RelationByName snap \<lparr>nm_Schema = s, nm_Name = o_Name obj\<rparr> = None" by blast
  from RelationByName_NewSnapshot [OF path(2) [unfolded assms(1)]]
  have "rel_Name rel = \<lparr>nm_Schema = schema, nm_Name = o_Name obj\<rparr>" by simp
  with True rel path show ?thesis by (auto simp: ResolveRelation_def denotes_def)
next
  case False
  with assms(2) obtain rel where
    rel: "RelationByName snap \<lparr>nm_Schema = o_Schema obj, nm_Name = o_Name obj\<rparr> = Some rel"
    by (auto simp: ResolveRelation_def ResolvedRelation_OK_def split: option.splits)
  from RelationByName_NewSnapshot [OF rel [unfolded assms(1)]]
  have "rel_Name rel = \<lparr>nm_Schema = o_Schema obj, nm_Name = o_Name obj\<rparr>" by simp
  with False rel show ?thesis by (simp add: ResolveRelation_def denotes_def)
qed

lemma reason_nonempty: "r \<noteq> UnresolvedNone \<Longrightarrow> UnresolvedReason_String r \<noteq> ''''"
  by (cases r) simp_all

lemma unresolved_relation_reason [simp]: "r_UnresolvedReason (unresolved_relation obj reason) = reason"
  by (simp add: unresolved_relation_def)

text \<open>A reference without an unresolved reason is the relation that the object denotes.\<close>

lemma resolveObjectCatalog_resolved:
  assumes "r_UnresolvedReason (resolveObjectCatalog obj ctx) = ''''" "cx_Snapshot ctx = NewSnapshot rels fns"
  shows "isCatalogRelationObject (o_Kind obj) \<and> cx_UnavailableReason ctx = '''' \<and>
     (\<exists>rel. denotes (cx_Snapshot ctx) (cx_SearchPath ctx) obj rel \<and>
        r_OID (resolveObjectCatalog obj ctx) = rel_OID rel \<and> r_Schema (resolveObjectCatalog obj ctx) = nm_Schema (rel_Name rel) \<and>
        r_Name (resolveObjectCatalog obj ctx) = nm_Name (rel_Name rel))"
proof -
  let ?res = "ResolveRelation (cx_Snapshot ctx) \<lparr>nm_Schema = o_Schema obj, nm_Name = o_Name obj\<rparr> (cx_SearchPath ctx)"
  from assms(1) have "isCatalogRelationObject (o_Kind obj)" "cx_UnavailableReason ctx = ''''" "ResolvedRelation_OK ?res"
    by (auto simp: resolveObjectCatalog_def Let_def ResolvedRelation_OK_def dest: reason_nonempty split: if_splits)
  with ResolveRelation_OK [OF assms(2), of obj "cx_SearchPath ctx"] show ?thesis
    by (auto simp: resolveObjectCatalog_def Let_def)
qed

lemma resolve_objects_mem:
  "obj \<in> set objs \<Longrightarrow> isCatalogRelationObject (o_Kind obj) \<Longrightarrow> resolveObjectCatalog obj ctx \<in> set (resolve_objects objs ctx)"
  by (auto simp: resolve_objects_def)

lemma resolve_objects_Nil: "resolve_objects objs ctx = [] \<longleftrightarrow> objs = []"
  by (cases objs) (auto simp: resolve_objects_def hasCatalogRelationObject_def filter_empty_conv list_ex_iff)

lemma resolve_objects_all_relations:
  assumes "objs \<noteq> []" "list_all (\<lambda>r. r_UnresolvedReason r = '''') (resolve_objects objs ctx)"
  shows "\<exists>obj \<in> set objs. isCatalogRelationObject (o_Kind obj)"
proof (rule ccontr)
  assume "\<not> ?thesis"
  then have "\<not> hasCatalogRelationObject objs" "\<forall>obj \<in> set objs. \<not> isCatalogRelationObject (o_Kind obj)"
    by (auto simp: hasCatalogRelationObject_def list_ex_iff)
  then have "list_all (\<lambda>r. r_UnresolvedReason r = ''unsupported'') (resolve_objects objs ctx)"
    by (auto simp: resolve_objects_def list_all_iff resolveObjectCatalog_def)
  moreover have "resolve_objects objs ctx \<noteq> []" using assms(1) by (simp add: resolve_objects_Nil)
  ultimately show False using assms(2) by (cases "resolve_objects objs ctx") auto
qed

lemma resolveEffect_resolved:
  assumes "e_FunctionOID eff = None" "e_Objects eff \<noteq> []"
  shows "e_Resolution (resolveEffectCatalog eff ctx) = ResolutionCatalogResolved \<longleftrightarrow>
           cx_UnavailableReason ctx = '''' \<and>
           list_all (\<lambda>r. r_UnresolvedReason r = '''') (resolve_objects (e_Objects eff) ctx)"
    and "e_ResolvedObjects (resolveEffectCatalog eff ctx) = resolve_objects (e_Objects eff) ctx"
  using assms by (auto simp: resolveEffectCatalog_def resolve_objects_Nil Let_def)

lemma resolveEffect_unavailable:
  assumes "cx_UnavailableReason ctx \<noteq> ''''" "e_Objects eff \<noteq> [] \<or> e_FunctionOID eff \<noteq> None"
  shows "e_Resolution (resolveEffectCatalog eff ctx) = ResolutionCatalogUnavailable"
  using assms by (auto simp: resolveEffectCatalog_def resolve_objects_Nil Let_def split: option.splits)

lemma resolveEffect_keeps [simp]:
  "e_Objects (resolveEffectCatalog eff ctx) = e_Objects eff" "e_FunctionOID (resolveEffectCatalog eff ctx) = e_FunctionOID eff"
  by (auto simp: resolveEffectCatalog_def Let_def split: option.splits)

lemma resolveStatements_unavailable:
  assumes "cx_UnavailableReason ctx \<noteq> ''''" "stmt \<in> set (resolveStatementsCatalog stmts ctx)" "eff \<in> set (cs_Effects stmt)"
    and "e_Objects eff \<noteq> [] \<or> e_FunctionOID eff \<noteq> None"
  shows "e_Resolution eff = ResolutionCatalogUnavailable"
  using assms
proof (induction stmts arbitrary: ctx)
  case (Cons st stmts)
  consider "stmt = resolveStatementCatalog st ctx"
    | "stmt \<in> set (resolveStatementsCatalog stmts (if statementInvalidatesCatalogContext st
        then ctx\<lparr>cx_UnavailableReason := catalogSessionStateChangedReason, cx_SearchPath := []\<rparr> else ctx))"
    using Cons.prems(2) by auto
  then show ?case
  proof cases
    case 1
    with Cons.prems show ?thesis by (auto simp: resolveStatementCatalog_def resolveEffect_unavailable)
  next
    case 2
    show ?thesis by (rule Cons.IH [OF _ 2 Cons.prems(3,4)]) (use Cons.prems(1) in \<open>simp add: catalogSessionStateChangedReason_def\<close>)
  qed
qed simp

lemma resolveStatements_length [simp]: "length (resolveStatementsCatalog stmts ctx) = length stmts"
  by (induction stmts arbitrary: ctx) simp_all

lemma resolveStatements_after_change:
  assumes "statementInvalidatesCatalogContext (stmts ! i)" "i < j" "j < length stmts"
    and "eff \<in> set (cs_Effects (resolveStatementsCatalog stmts ctx ! j))" "e_Objects eff \<noteq> [] \<or> e_FunctionOID eff \<noteq> None"
  shows "e_Resolution eff = ResolutionCatalogUnavailable"
  using assms
proof (induction stmts arbitrary: i j ctx)
  case (Cons st stmts)
  obtain j' where j: "j = Suc j'" using Cons.prems(2) by (cases j) auto
  let ?ctx = "if statementInvalidatesCatalogContext st
        then ctx\<lparr>cx_UnavailableReason := catalogSessionStateChangedReason, cx_SearchPath := []\<rparr> else ctx"
  show ?case
  proof (cases i)
    case 0
    with Cons.prems(1) have "cx_UnavailableReason ?ctx \<noteq> ''''" by (simp add: catalogSessionStateChangedReason_def)
    moreover have "resolveStatementsCatalog stmts ?ctx ! j' \<in> set (resolveStatementsCatalog stmts ?ctx)"
      using Cons.prems(3) j by simp
    ultimately show ?thesis using resolveStatements_unavailable Cons.prems(4,5) j by simp
  next
    case (Suc i')
    with Cons.prems j show ?thesis by (intro Cons.IH [of i' j' ?ctx]) simp_all
  qed
qed simp

text \<open>The steps of a connection that touch the catalog context, and the invariant they keep.\<close>

datatype 's catalog_op =
    OpMark bool bool
  | OpStatements "ClassifiedStatement list" nat
  | OpPending
  | OpConn 's

fun catalog_step ::
    "('s \<Rightarrow> char) \<Rightarrow> 's catalogRuntimeLoader \<Rightarrow> catalogCacheKey \<Rightarrow> 's catalogState \<Rightarrow> 's catalog_op \<Rightarrow> 's catalogState" where
  "catalog_step rfq ld key k (OpMark sp sn) = markCatalogRefreshPendingForNeeds sp sn k"
| "catalog_step rfq ld key k (OpStatements stmts n) = refreshCatalogAfterSuccessfulStatements rfq ld key stmts n k"
| "catalog_step rfq ld key k OpPending = refreshPendingCatalogContext rfq ld key k"
| "catalog_step rfq ld key k (OpConn s) = k\<lparr>ks_conn := s\<rparr>"

definition catalog_inv :: "'s catalogState \<Rightarrow> bool" where
  "catalog_inv k \<longleftrightarrow>
     (ks_catalogRefreshPending k \<longrightarrow> cx_UnavailableReason (ks_catalog k) \<noteq> '''') \<and>
     (ks_catalogSnapshotRefreshPending k \<longrightarrow> ks_catalogRefreshPending k)"

lemma catalog_inv_mark: "catalog_inv k \<Longrightarrow> catalog_inv (markCatalogRefreshPendingForNeeds sp sn k)"
  by (simp add: catalog_inv_def markCatalogRefreshPendingForNeeds_def catalogSessionStateChangedReason_def)

lemma catalog_inv_refresh: "catalog_inv k \<Longrightarrow> catalog_inv (refreshCatalogContext ld key b k)"
  by (auto simp: catalog_inv_def refreshCatalogContext_def zeroContext_def split: option.splits prod.splits)

lemma catalog_inv_unavailable:
  "catalog_inv k \<Longrightarrow>
     catalog_inv (k\<lparr>ks_catalog := (ks_catalog k)\<lparr>cx_UnavailableReason := catalogSessionStateChangedReason, cx_SearchPath := []\<rparr>\<rparr>)"
  by (simp add: catalog_inv_def catalogSessionStateChangedReason_def)

lemma catalog_inv_step: "catalog_inv k \<Longrightarrow> catalog_inv (catalog_step rfq ld key k op)"
proof (cases op)
  case (OpStatements stmts n)
  assume "catalog_inv k"
  with OpStatements show ?thesis
    by (simp add: refreshCatalogAfterSuccessfulStatements_def refreshCatalogForStatements_def Let_def
        catalog_inv_mark catalog_inv_refresh split: prod.splits)
next
  case OpPending
  assume "catalog_inv k"
  moreover have "catalog_inv (k\<lparr>ks_catalogRefreshPending := False, ks_catalogSnapshotRefreshPending := False\<rparr>)"
    by (simp add: catalog_inv_def)
  ultimately show ?thesis using OpPending
    by (simp add: refreshPendingCatalogContext_def catalog_inv_refresh catalog_inv_unavailable)
qed (simp_all add: catalog_inv_mark, simp add: catalog_inv_def)

lemma catalog_inv_run: "catalog_inv k \<Longrightarrow> catalog_inv (foldl (catalog_step rfq ld key) k ops)"
  by (induction ops arbitrary: k) (simp_all add: catalog_inv_step)


section \<open>Properties\<close>


text \<open>A catalog with one table, and an unqualified read of it.\<close>

definition sample_table :: Relation where
  "sample_table = zeroRelation\<lparr>rel_OID := 7, rel_Name := \<lparr>nm_Schema = ''public'', nm_Name = ''users''\<rparr>, rel_Kind := RelationTable\<rparr>"

definition sample_context :: catalogRuntimeContext where
  "sample_context = \<lparr>cx_Snapshot = NewSnapshot [sample_table] [], cx_SearchPath = [''pg_catalog'', ''public''],
     cx_UnavailableReason = ''''\<rparr>"

definition sample_read :: Effect where
  "sample_read = \<lparr>e_Group = GroupRead, e_Subtype = SubtypeNone,
     e_Objects = [\<lparr>o_Kind = ObjectTable, o_Schema = '''', o_Name = ''users'', o_Host = '''', o_Port = 0, o_Path = '''', o_Argv0 = ''''\<rparr>],
     e_ResolvedObjects = [], e_Resolution = ResolutionUnqualified, e_HasWhere = False, e_FunctionOID = None\<rparr>"

lemmas sample_catalog_defs = sample_context_def sample_read_def sample_table_def zeroRelation_def NewSnapshot_def
  emptySnapshot_def add_relation_def RelationByName_def resolveEffectCatalog_def resolve_objects_def
  hasCatalogRelationObject_def isCatalogRelationObject_def resolveObjectCatalog_def ResolveRelation_def
  ResolvedRelation_OK_def zeroResolved_def



definition catalog_stmt :: "string \<Rightarrow> Effect \<Rightarrow> ClassifiedStatement" where
  "catalog_stmt verb eff = \<lparr>cs_Effects = [eff], cs_RawVerb = verb, cs_ParserBackend = ParserBackendLibPgQuery, cs_Error = '''',
     cs_SourceStart = 0, cs_SourceEnd = 0, cs_PreparedName = '''', cs_BulkOp = BulkOpNone\<rparr>"


text \<open>
  C35: while a refresh is pending the catalog is not used. From a connection without pending work, after
  any sequence of statements, pending refreshes and transaction status changes, with any loader, a
  pending refresh implies that the context is unavailable, so an effect with objects is never
  marked as resolved by the catalog.
\<close>

theorem catalog_pending_unavailable:
  assumes "\<not> ks_catalogRefreshPending k0" "\<not> ks_catalogSnapshotRefreshPending k0"
    and "k = foldl (catalog_step rfq ld key) k0 ops" "ks_catalogRefreshPending k \<or> ks_catalogSnapshotRefreshPending k"
    and "e_Objects eff \<noteq> [] \<or> e_FunctionOID eff \<noteq> None"
  shows "e_Resolution (resolveEffectCatalog eff (ks_catalog k)) = ResolutionCatalogUnavailable"
proof -
  have "catalog_inv k" unfolding assms(3) by (rule catalog_inv_run) (simp add: catalog_inv_def assms(1,2))
  with assms(4) have "cx_UnavailableReason (ks_catalog k) \<noteq> ''''" by (auto simp: catalog_inv_def)
  then show ?thesis using assms(5) by (rule resolveEffect_unavailable)
qed

theorem catalog_pending_unavailable_witness:
  "let ld = \<lparr>ld_LoadCatalogSnapshot = (\<lambda>s. (s, NewSnapshot [sample_table] [], '''', False)),
             ld_LoadCurrentSearchPath = (\<lambda>s. (s, [''public''], '''', False))\<rparr>;
       k0 = \<lparr>ks_store = Some (\<lambda>_. None), ks_catalog = sample_context, ks_catalogRefreshPending = False,
             ks_catalogSnapshotRefreshPending = False, ks_conn = CHR ''T''\<rparr>;
       create = catalog_stmt ''CREATE TABLE'' (sample_read\<lparr>e_Group := GroupSchemaCreate, e_Subtype := SubtypeCreateTable\<rparr>);
       k = foldl (catalog_step (\<lambda>s. s) ld \<lparr>ck_Service = ''db'', ck_Database = ''app'', ck_DBUser = ''u''\<rparr>) k0 [OpStatements [create] 1, OpPending]
   in ks_catalogSnapshotRefreshPending k \<and>
      e_Resolution (resolveEffectCatalog sample_read (ks_catalog k)) = ResolutionCatalogUnavailable"
proof -
  let ?ld = "\<lparr>ld_LoadCatalogSnapshot = (\<lambda>s. (s, NewSnapshot [sample_table] [], '''', False)),
             ld_LoadCurrentSearchPath = (\<lambda>s. (s, [''public''], '''', False))\<rparr>"
  let ?k0 = "\<lparr>ks_store = Some (\<lambda>_. None), ks_catalog = sample_context, ks_catalogRefreshPending = False,
             ks_catalogSnapshotRefreshPending = False, ks_conn = CHR ''T''\<rparr>"
  let ?create = "catalog_stmt ''CREATE TABLE'' (sample_read\<lparr>e_Group := GroupSchemaCreate, e_Subtype := SubtypeCreateTable\<rparr>)"
  let ?k = "foldl (catalog_step (\<lambda>s. s) ?ld \<lparr>ck_Service = ''db'', ck_Database = ''app'', ck_DBUser = ''u''\<rparr>) ?k0
      [OpStatements [?create] 1, OpPending]"
  have pending: "ks_catalogSnapshotRefreshPending ?k"
    by (simp add: refreshCatalogAfterSuccessfulStatements_def refreshCatalogForStatements_def catalog_stmt_def
        statementsNeedCatalogRefresh_def effectCatalogRefreshNeeds_def catalogSnapshotRefreshMustWait_def Let_def
        markCatalogRefreshPendingForNeeds_def refreshPendingCatalogContext_def Contains_def)
  have "e_Objects sample_read \<noteq> [] \<or> e_FunctionOID sample_read \<noteq> None" by (simp add: sample_read_def)
  from catalog_pending_unavailable [OF _ _ refl disjI2 [OF pending] this]
  have "e_Resolution (resolveEffectCatalog sample_read (ks_catalog ?k)) = ResolutionCatalogUnavailable"
    by (simp only: catalogState.select_convs not_False_eq_True)
  with pending show ?thesis unfolding Let_def by (rule conjI)
qed

end
