(* ===== verification/Pg_Loader.thy ===== *)
theory Pg_Loader
  imports Pg_Wire Db_Catalog
begin

text \<open>
  The loader behind the catalog context: the queries of \<open>src/internal/db/catalog/postgres.go\<close> and
  the query runner and row scanner of \<open>src/internal/db/proxy/postgres/catalog_runtime.go\<close>, which
  use the connection's own upstream side. The theory also has the contract of a loader that the
  upkeep of the catalog context relies on: what a load may do to the connection, the upkeep may do.
\<close>


section \<open>The upstream side of a connection\<close>

record upstreamConn =
  uc_sm :: ConnState
  uc_FE :: bool \<comment> \<open>upstreamFE is not nil\<close>
  uc_fromServer :: "BackendMessage input list" \<comment> \<open>what the server will deliver\<close>
  uc_toServer :: "FrontendMessage list" \<comment> \<open>what was sent\<close>


section \<open>Scanning rows (catalog\_runtime.go)\<close>

definition string_of_bytes :: "byte list \<Rightarrow> string" where
  "string_of_bytes bs = map (\<lambda>b. char_of (unat b)) bs"

text \<open>\<open>strconv.ParseUint(s, 10, 32)\<close>; any error is \<open>None\<close>.\<close>

definition ParseUint32 :: "string \<Rightarrow> 32 word option" where
  "ParseUint32 s =
     (if s = [] \<or> \<not> list_all digit s \<or> digits_val s \<ge> 2 ^ 32 then None else Some (of_nat (digits_val s)))"

text \<open>The destinations of a scan, and what is stored through them.\<close>

datatype scan_dest = DestString | DestUint32 | DestInt | DestBool

datatype scan_val = ValString string | ValUint32 "32 word" | ValInt int | ValBool bool

fun scan_field :: "scan_dest \<Rightarrow> string \<Rightarrow> scan_val option" where
  "scan_field DestString s = Some (ValString s)"
| "scan_field DestUint32 s = map_option ValUint32 (ParseUint32 s)"
| "scan_field DestInt s = map_option ValInt (ParseInt64 s)"
| "scan_field DestBool s =
     (if s = ''t'' \<or> s = ''true'' then Some (ValBool True)
      else if s = ''f'' \<or> s = ''false'' then Some (ValBool False)
      else None)"

definition Scan :: "scan_dest list \<Rightarrow> string list \<Rightarrow> scan_val list option" where
  "Scan dest row = (if length dest \<noteq> length row then None else those (map2 scan_field dest row))"


section \<open>Running a catalog query (catalog\_runtime.go)\<close>

text \<open>The rows, or \<open>None\<close> for an error; the messages are not relayed to the client.\<close>

fun query_loop ::
    "string list list \<Rightarrow> bool \<Rightarrow> ConnState \<Rightarrow> BackendMessage input list \<Rightarrow>
     ConnState \<times> BackendMessage input list \<times> string list list option" where
  "query_loop rows failed s [] = (s, [], None)"
| "query_loop rows failed s (CtxDone # ins) = (s, ins, None)"
| "query_loop rows failed s (RecvFailed # ins) = (s, ins, None)"
| "query_loop rows failed s (Recv m # ins) =
     (case m of
        DataRow vs \<Rightarrow> query_loop (rows @ [map string_of_bytes vs]) failed s ins
      | ErrorResponse _ _ _ \<Rightarrow> query_loop rows True s ins
      | ReadyForQuery status \<Rightarrow> (s\<lparr>st_LastUpstreamRFQ := status\<rparr>, ins, if failed then None else Some rows)
      | _ \<Rightarrow> query_loop rows failed s ins)"

definition Query :: "string \<Rightarrow> upstreamConn \<Rightarrow> upstreamConn \<times> string list list option" where
  "Query sql u =
     (if \<not> uc_FE u then (u, None)
      else case query_loop [] False (uc_sm u) (uc_fromServer u) of (s, ins, rows) \<Rightarrow>
        (u\<lparr>uc_sm := s, uc_fromServer := ins, uc_toServer := uc_toServer u @ [MsgQuery sql]\<rparr>, rows))"

definition schemasSQL :: string where
  "schemasSQL = ''select unnest(pg_catalog.current_schemas(true))::text as nspname''"

fun schema_rows :: "string list list \<Rightarrow> string list option" where
  "schema_rows [] = Some []"
| "schema_rows (row # rows) =
     (case Scan [DestString] row of
        Some [ValString schema] \<Rightarrow> map_option (\<lambda>rest. schema # rest) (schema_rows rows)
      | _ \<Rightarrow> None)"

definition loadCurrentSchemas :: "upstreamConn \<Rightarrow> upstreamConn \<times> string list option" where
  "loadCurrentSchemas u =
     (case Query schemasSQL u of
        (u', None) \<Rightarrow> (u', None)
      | (u', Some rows) \<Rightarrow> (u', schema_rows rows))"


section \<open>Loading a snapshot (catalog/postgres.go)\<close>

definition sql_lines :: "string list \<Rightarrow> string" where
  "sql_lines ls = concat (map (\<lambda>l. CHR 0x0A # l) ls)"

definition relationSQL :: string where
  "relationSQL = sql_lines
     [''select c.oid, n.nspname, c.relname, c.relkind::text, pg_catalog.pg_get_userbyid(c.relowner)'',
      ''from pg_catalog.pg_class c'',
      ''join pg_catalog.pg_namespace n on n.oid = c.relnamespace'',
      ''where c.relkind in ('r', 'p', 'v', 'm', 'f', 'S')'',
      ''  and n.nspname not like 'pg_toast%'' @ [CHR 0x27],
      ''order by n.nspname, c.relname'']"

definition columnSQL :: string where
  "columnSQL = sql_lines
     [''select a.attrelid, a.attname, a.atttypid, a.attnotnull, a.attnum::int4'',
      ''from pg_catalog.pg_attribute a'',
      ''join pg_catalog.pg_class c on c.oid = a.attrelid'',
      ''join pg_catalog.pg_namespace n on n.oid = c.relnamespace'',
      ''where c.relkind in ('r', 'p', 'v', 'm', 'f', 'S')'',
      ''  and n.nspname not like 'pg_toast%'' @ [CHR 0x27],
      ''  and a.attnum > 0'',
      ''  and not a.attisdropped'',
      ''order by a.attrelid, a.attnum'']"

definition functionSQL :: string where
  "functionSQL = sql_lines
     [''select p.oid, n.nspname, p.proname,'',
      ''       pg_catalog.pg_get_function_identity_arguments(p.oid),'',
      ''       p.provolatile::text, p.proisstrict, p.prorettype'',
      ''from pg_catalog.pg_proc p'',
      ''join pg_catalog.pg_namespace n on n.oid = p.pronamespace'',
      ''where n.nspname not like 'pg_toast%'' @ [CHR 0x27],
      ''order by n.nspname, p.proname, p.oid'']"

definition parseRelationKind :: "string \<Rightarrow> RelationKind option" where
  "parseRelationKind s =
     (if s = ''r'' then Some RelationTable
      else if s = ''p'' then Some RelationPartitionedTable
      else if s = ''v'' then Some RelationView
      else if s = ''m'' then Some RelationMaterializedView
      else if s = ''f'' then Some RelationForeignTable
      else if s = ''S'' then Some RelationSequence
      else None)"

definition parseVolatility :: "string \<Rightarrow> FunctionVolatility option" where
  "parseVolatility s =
     (if s = ''i'' then Some VolatilityImmutable
      else if s = ''s'' then Some VolatilityStable
      else if s = ''v'' then Some VolatilityVolatile
      else None)"

text \<open>The row loops: a row that does not scan ends the load, an unknown kind skips the row.\<close>

fun relation_rows :: "string list list \<Rightarrow> Relation list option" where
  "relation_rows [] = Some []"
| "relation_rows (row # rows) =
     (case Scan [DestUint32, DestString, DestString, DestString, DestString] row of
        Some [ValUint32 oid, ValString schema, ValString name, ValString relkind, ValString owner] \<Rightarrow>
          (case parseRelationKind relkind of
             None \<Rightarrow> relation_rows rows
           | Some kind \<Rightarrow>
               map_option (\<lambda>rest. \<lparr>rel_OID = oid, rel_Name = \<lparr>nm_Schema = schema, nm_Name = name\<rparr>, rel_Kind = kind,
                 rel_Owner = owner, rel_Columns = []\<rparr> # rest) (relation_rows rows))
      | _ \<Rightarrow> None)"

fun column_rows :: "(OID \<Rightarrow> Column list) \<Rightarrow> string list list \<Rightarrow> (OID \<Rightarrow> Column list) option" where
  "column_rows out [] = Some out"
| "column_rows out (row # rows) =
     (case Scan [DestUint32, DestString, DestUint32, DestBool, DestInt] row of
        Some [ValUint32 relOID, ValString name, ValUint32 typeOID, ValBool notNull, ValInt position] \<Rightarrow>
          column_rows (out(relOID := out relOID @
            [\<lparr>col_Name = name, col_TypeOID = typeOID, col_NotNull = notNull, col_Position = position\<rparr>])) rows
      | _ \<Rightarrow> None)"

fun function_rows :: "string list list \<Rightarrow> Function list option" where
  "function_rows [] = Some []"
| "function_rows (row # rows) =
     (case Scan [DestUint32, DestString, DestString, DestString, DestString, DestBool, DestUint32] row of
        Some [ValUint32 oid, ValString schema, ValString name, ValString args, ValString volatility, ValBool strict, ValUint32 ret] \<Rightarrow>
          (case parseVolatility volatility of
             None \<Rightarrow> function_rows rows
           | Some vol \<Rightarrow>
               map_option (\<lambda>rest. \<lparr>fn_OID = oid, fn_Name = \<lparr>nm_Schema = schema, nm_Name = name\<rparr>, fn_IdentityArgs = args,
                 fn_Volatility = vol, fn_Strict = strict, fn_ReturnTypeOID = ret\<rparr> # rest) (function_rows rows))
      | _ \<Rightarrow> None)"

definition loadRelations :: "upstreamConn \<Rightarrow> upstreamConn \<times> Relation list option" where
  "loadRelations u = (case Query relationSQL u of (u', None) \<Rightarrow> (u', None) | (u', Some rows) \<Rightarrow> (u', relation_rows rows))"

definition loadColumns :: "upstreamConn \<Rightarrow> upstreamConn \<times> (OID \<Rightarrow> Column list) option" where
  "loadColumns u = (case Query columnSQL u of (u', None) \<Rightarrow> (u', None) | (u', Some rows) \<Rightarrow> (u', column_rows (\<lambda>_. []) rows))"

definition loadFunctions :: "upstreamConn \<Rightarrow> upstreamConn \<times> Function list option" where
  "loadFunctions u = (case Query functionSQL u of (u', None) \<Rightarrow> (u', None) | (u', Some rows) \<Rightarrow> (u', function_rows rows))"

definition LoadPostgresSnapshot :: "upstreamConn \<Rightarrow> upstreamConn \<times> Snapshot option" where
  "LoadPostgresSnapshot u =
     (case loadRelations u of
        (u1, None) \<Rightarrow> (u1, None)
      | (u1, Some relations) \<Rightarrow>
          (case loadColumns u1 of
             (u2, None) \<Rightarrow> (u2, None)
           | (u2, Some columns) \<Rightarrow>
               let relations' = map (\<lambda>r. r\<lparr>rel_Columns := columns (rel_OID r)\<rparr>) relations in
               (case loadFunctions u2 of
                  (u3, None) \<Rightarrow> (u3, None)
                | (u3, Some functions) \<Rightarrow> (u3, Some (NewSnapshot relations' functions)))))"

definition pgprotoCatalogLoader :: "upstreamConn catalogRuntimeLoader" where
  "pgprotoCatalogLoader =
     \<lparr>ld_LoadCatalogSnapshot = (\<lambda>u. case LoadPostgresSnapshot u of
          (u', None) \<Rightarrow> (u', emptySnapshot, ''snapshot_load_failed'', True)
        | (u', Some snap) \<Rightarrow> (u', snap, '''', False)),
      ld_LoadCurrentSearchPath = (\<lambda>u. case loadCurrentSchemas u of
          (u', None) \<Rightarrow> (u', [], ''search_path_unavailable'', True)
        | (u', Some searchPath) \<Rightarrow> (u', searchPath, '''', False))\<rparr>"


section \<open>The contract of a loader\<close>

text \<open>
  A loader may move the connection state only along \<open>R\<close>, a preorder; then so does every operation
  of the upkeep.
\<close>

locale loader =
  fixes ld :: "'s catalogRuntimeLoader" and R :: "'s \<Rightarrow> 's \<Rightarrow> bool"
  assumes R_refl: "R s s"
    and R_trans: "R s t \<Longrightarrow> R t u \<Longrightarrow> R s u"
    and R_snapshot: "R s (fst (ld_LoadCatalogSnapshot ld s))"
    and R_path: "R s (fst (ld_LoadCurrentSearchPath ld s))"
begin

lemma loadSearchPath_R: "R s (fst (loadSearchPath ld s))"
  using R_path [of s] by (simp add: loadSearchPath_def case_prod_beta)

lemma loadSnapshot_R: "R s (fst (loadSnapshot ld s))"
  using R_snapshot [of s] by (simp add: loadSnapshot_def case_prod_beta)

lemma loadOrGet_R: "R s (fst (snd (loadOrGetSnapshot ld key store s)))"
  using loadSnapshot_R [of s] R_refl [of s] by (simp add: loadOrGetSnapshot_def case_prod_beta split: option.splits)

lemma store_R:
  "R s (fst (snd (store_loadOrGet ld key store s)))"
  "R s (fst (snd (store_refresh ld key store s)))"
  "R s (fst (snd (store_refreshSearchPath ld key store s)))"
  using R_trans [OF loadSearchPath_R [of s] loadOrGet_R [of "fst (loadSearchPath ld s)" key store]]
    R_trans [OF loadSearchPath_R [of s] loadSnapshot_R [of "fst (loadSearchPath ld s)"]]
  by (simp_all add: store_loadOrGet_def store_refresh_def store_refreshSearchPath_def case_prod_beta)

lemma refreshCatalogContext_R: "R (ks_conn k) (ks_conn (refreshCatalogContext ld key b k))"
proof (cases "ks_store k")
  case None
  then show ?thesis by (simp add: refreshCatalogContext_def R_refl)
next
  case (Some store)
  with store_R [of "ks_conn k" key store] show ?thesis
    by (cases b) (simp_all add: refreshCatalogContext_def case_prod_beta)
qed

lemma initialize_R: "R (ks_conn k) (ks_conn (initializeCatalogContext ld key k))"
proof (cases "ks_store k")
  case None
  then show ?thesis by (simp add: initializeCatalogContext_def R_refl)
next
  case (Some store)
  with store_R [of "ks_conn k" key store] show ?thesis
    by (simp add: initializeCatalogContext_def case_prod_beta)
qed

lemma refreshPending_R: "R (ks_conn k) (ks_conn (refreshPendingCatalogContext rfq ld key k))"
  using refreshCatalogContext_R [of "k\<lparr>ks_catalogRefreshPending := False, ks_catalogSnapshotRefreshPending := False\<rparr>" key
      "ks_catalogSnapshotRefreshPending k"]
  by (simp add: refreshPendingCatalogContext_def R_refl)

lemma refreshAfter_R: "R (ks_conn k) (ks_conn (refreshCatalogAfterSuccessfulStatements rfq ld key stmts n k))"
  by (simp add: refreshCatalogAfterSuccessfulStatements_def refreshCatalogForStatements_def Let_def R_refl
      refreshCatalogContext_R markCatalogRefreshPendingForNeeds_def case_prod_beta)

end

text \<open>
  What the loader does to the connection: it sends only its four queries, consumes server input,
  and touches nothing of the protocol state but the transaction status.
\<close>

definition catalog_query :: "FrontendMessage \<Rightarrow> bool" where
  "catalog_query m \<longleftrightarrow> m \<in> MsgQuery ` {schemasSQL, relationSQL, columnSQL, functionSQL}"

definition catalog_io :: "upstreamConn \<Rightarrow> upstreamConn \<Rightarrow> bool" where
  "catalog_io u u' \<longleftrightarrow>
     uc_FE u' = uc_FE u \<and> suffix (uc_fromServer u') (uc_fromServer u) \<and>
     (\<exists>ms. uc_toServer u' = uc_toServer u @ ms \<and> list_all catalog_query ms) \<and>
     (\<exists>status. uc_sm u' = (uc_sm u)\<lparr>st_LastUpstreamRFQ := status\<rparr>)"

lemma catalog_io_refl: "catalog_io u u"
  by (auto simp: catalog_io_def intro: exI [of _ "st_LastUpstreamRFQ (uc_sm u)"])

lemma catalog_io_trans: "catalog_io s t \<Longrightarrow> catalog_io t u \<Longrightarrow> catalog_io s u"
  unfolding catalog_io_def by (auto intro: suffix_order.trans)

lemma keep_status [simp]: "\<exists>status. s = s\<lparr>st_LastUpstreamRFQ := status\<rparr>" for s :: ConnState
  by (rule exI [of _ "st_LastUpstreamRFQ s"]) simp

lemma query_loop_io:
  "suffix (fst (snd (query_loop rows failed s ins))) ins \<and>
   (\<exists>status. fst (query_loop rows failed s ins) = s\<lparr>st_LastUpstreamRFQ := status\<rparr>)"
  by (induction rows failed s ins rule: query_loop.induct)
    (auto intro: suffix_ConsI split: BackendMessage.splits)

lemma Query_io:
  assumes "catalog_query (MsgQuery sql)"
  shows "catalog_io u (fst (Query sql u))"
  using query_loop_io [of "[]" False "uc_sm u" "uc_fromServer u"] assms
  by (auto simp: Query_def catalog_io_refl split: prod.splits) (auto simp: catalog_io_def)

lemma catalog_queries [simp]:
  "catalog_query (MsgQuery schemasSQL)" "catalog_query (MsgQuery relationSQL)"
  "catalog_query (MsgQuery columnSQL)" "catalog_query (MsgQuery functionSQL)"
  by (simp_all add: catalog_query_def)

lemma load_io:
  "catalog_io u (fst (loadCurrentSchemas u))" "catalog_io u (fst (loadRelations u))"
  "catalog_io u (fst (loadColumns u))" "catalog_io u (fst (loadFunctions u))"
  using Query_io [of schemasSQL u] Query_io [of relationSQL u] Query_io [of columnSQL u] Query_io [of functionSQL u]
  by (simp_all add: loadCurrentSchemas_def loadRelations_def loadColumns_def loadFunctions_def case_prod_beta split: option.splits)

lemma snapshot_io: "catalog_io u (fst (LoadPostgresSnapshot u))"
proof -
  obtain u1 r where r: "loadRelations u = (u1, r)" by (cases "loadRelations u")
  obtain u2 c where c: "loadColumns u1 = (u2, c)" by (cases "loadColumns u1")
  obtain u3 f where f: "loadFunctions u2 = (u3, f)" by (cases "loadFunctions u2")
  have io: "catalog_io u u1" "catalog_io u1 u2" "catalog_io u2 u3"
    using load_io(2) [of u] load_io(3) [of u1] load_io(4) [of u2] r c f by simp_all
  with r c f show ?thesis
    by (auto simp: LoadPostgresSnapshot_def Let_def split: option.splits intro: catalog_io_trans)
qed

interpretation pg_loader: loader pgprotoCatalogLoader catalog_io
proof
  fix s t u
  show "catalog_io s s" by (rule catalog_io_refl)
  show "catalog_io s t \<Longrightarrow> catalog_io t u \<Longrightarrow> catalog_io s u" by (rule catalog_io_trans)
  show "catalog_io s (fst (ld_LoadCatalogSnapshot pgprotoCatalogLoader s))"
    using snapshot_io [of s] by (simp add: pgprotoCatalogLoader_def case_prod_beta split: option.splits)
  show "catalog_io s (fst (ld_LoadCurrentSearchPath pgprotoCatalogLoader s))"
    using load_io(1) [of s] by (simp add: pgprotoCatalogLoader_def case_prod_beta split: option.splits)
qed


section \<open>What a load returns\<close>

text \<open>
  The answer of a server to a query: a row description, the rows as text, a completion and a ready
  message; and the text of the rows that the three queries of a snapshot select.
\<close>

definition bytes_of_string :: "string \<Rightarrow> byte list" where
  "bytes_of_string s = map (\<lambda>c. of_nat (of_char c)) s"

definition answer :: "string \<Rightarrow> char \<Rightarrow> string list list \<Rightarrow> BackendMessage input list" where
  "answer tag status rows =
     map Recv (BackOther 0 # map (\<lambda>r. DataRow (map bytes_of_string r)) rows @ [CommandComplete tag, ReadyForQuery status])"

fun relkind_text :: "RelationKind \<Rightarrow> string" where
  "relkind_text RelationTable = ''r''"
| "relkind_text RelationPartitionedTable = ''p''"
| "relkind_text RelationView = ''v''"
| "relkind_text RelationMaterializedView = ''m''"
| "relkind_text RelationForeignTable = ''f''"
| "relkind_text RelationSequence = ''S''"
| "relkind_text RelationKindZero = ''i''"

fun volatility_text :: "FunctionVolatility \<Rightarrow> string" where
  "volatility_text VolatilityImmutable = ''i''"
| "volatility_text VolatilityStable = ''s''"
| "volatility_text VolatilityVolatile = ''v''"
| "volatility_text VolatilityZero = ''''"

abbreviation bool_text :: "bool \<Rightarrow> string" where
  "bool_text b \<equiv> (if b then ''t'' else ''f'')"

definition relation_row :: "Relation \<Rightarrow> string list" where
  "relation_row r = [decimal (unat (rel_OID r)), nm_Schema (rel_Name r), nm_Name (rel_Name r), relkind_text (rel_Kind r), rel_Owner r]"

definition column_row :: "OID \<times> Column \<Rightarrow> string list" where
  "column_row c = [decimal (unat (fst c)), col_Name (snd c), decimal (unat (col_TypeOID (snd c))), bool_text (col_NotNull (snd c)),
     decimal (nat (col_Position (snd c)))]"

definition function_row :: "Function \<Rightarrow> string list" where
  "function_row f = [decimal (unat (fn_OID f)), nm_Schema (fn_Name f), nm_Name (fn_Name f), fn_IdentityArgs f,
     volatility_text (fn_Volatility f), bool_text (fn_Strict f), decimal (unat (fn_ReturnTypeOID f))]"

lemma string_of_bytes_inverse [simp]: "string_of_bytes (bytes_of_string s) = s"
proof -
  have "char_of (unat (of_nat (of_char c) :: byte)) = c" for c :: char
  proof -
    have "(of_char c :: nat) < 256" by (rule nat_of_char_less_256)
    then show ?thesis by (simp add: unat_of_nat)
  qed
  then show ?thesis by (simp add: string_of_bytes_def bytes_of_string_def comp_def)
qed

lemma ParseUint32_decimal [simp]: "ParseUint32 (decimal (unat w)) = Some w" for w :: "32 word"
proof -
  have "unat w < 2 ^ 32" using unsigned_less [of w, where ?'a = nat] by simp
  then show ?thesis using decimal_digits [of "unat w"] by (simp add: ParseUint32_def)
qed

lemma query_loop_rows:
  "query_loop rows failed s (map (\<lambda>r. Recv (DataRow (map bytes_of_string r))) rs @ ins) = query_loop (rows @ rs) failed s ins"
  by (induction rs arbitrary: rows) (simp_all add: comp_def)

lemma Query_answer:
  assumes "uc_FE u" "uc_fromServer u = answer tag status rows @ rest"
  shows "Query sql u =
     (u\<lparr>uc_sm := (uc_sm u)\<lparr>st_LastUpstreamRFQ := status\<rparr>, uc_fromServer := rest, uc_toServer := uc_toServer u @ [MsgQuery sql]\<rparr>,
      Some rows)"
proof -
  have "query_loop [] False (uc_sm u) (answer tag status rows @ rest) =
      ((uc_sm u)\<lparr>st_LastUpstreamRFQ := status\<rparr>, rest, Some rows)"
    using query_loop_rows [of "[]" False "uc_sm u" rows "[Recv (CommandComplete tag), Recv (ReadyForQuery status)] @ rest"]
    by (simp add: answer_def comp_def)
  with assms show ?thesis by (simp add: Query_def)
qed

lemma relation_rows_print:
  "list_all (\<lambda>r. rel_Kind r \<noteq> RelationKindZero \<and> rel_Columns r = []) rels \<Longrightarrow> relation_rows (map relation_row rels) = Some rels"
proof (induction rels)
  case (Cons r rels)
  then have "parseRelationKind (relkind_text (rel_Kind r)) = Some (rel_Kind r)"
    by (cases "rel_Kind r") (simp_all add: parseRelationKind_def)
  with Cons show ?case by (simp add: relation_row_def Scan_def)
qed simp

lemma function_rows_print:
  "list_all (\<lambda>f. fn_Volatility f \<noteq> VolatilityZero) fns \<Longrightarrow> function_rows (map function_row fns) = Some fns"
proof (induction fns)
  case (Cons f fns)
  then have "parseVolatility (volatility_text (fn_Volatility f)) = Some (fn_Volatility f)"
    by (cases "fn_Volatility f") (simp_all add: parseVolatility_def)
  with Cons show ?case by (simp add: function_row_def Scan_def)
qed simp

lemma column_rows_print:
  "list_all (\<lambda>c. 0 \<le> col_Position (snd c) \<and> col_Position (snd c) < 2 ^ 63) cols \<Longrightarrow>
   column_rows out (map column_row cols) = Some (\<lambda>oid. out oid @ map snd (filter (\<lambda>c. fst c = oid) cols))"
proof (induction cols arbitrary: out)
  case (Cons c cols)
  then have "ParseInt64 (decimal (nat (col_Position (snd c)))) = Some (col_Position (snd c))"
    using ParseInt64_decimal [of "nat (col_Position (snd c))"] by simp
  with Cons show ?case by (auto simp: column_row_def Scan_def fun_eq_iff)
qed simp


section \<open>Properties\<close>

text \<open>
  C36: loading a snapshot from a server that holds given relations, columns and functions gives the
  snapshot of exactly these, each relation with its own columns in order, sends exactly the
  three catalog queries, consumes exactly the three answers, and leaves of the protocol state all
  but the transaction status as it was.
\<close>

theorem snapshot_load_roundtrip:
  assumes "uc_FE u"
    and "uc_fromServer u = answer t1 s1 (map relation_row rels) @ answer t2 s2 (map column_row cols) @
           answer t3 s3 (map function_row fns) @ rest"
    and "list_all (\<lambda>r. rel_Kind r \<noteq> RelationKindZero \<and> rel_Columns r = []) rels"
    and "list_all (\<lambda>c. 0 \<le> col_Position (snd c) \<and> col_Position (snd c) < 2 ^ 63) cols"
    and "list_all (\<lambda>f. fn_Volatility f \<noteq> VolatilityZero) fns"
  shows "LoadPostgresSnapshot u =
     (u\<lparr>uc_sm := (uc_sm u)\<lparr>st_LastUpstreamRFQ := s3\<rparr>, uc_fromServer := rest,
        uc_toServer := uc_toServer u @ map MsgQuery [relationSQL, columnSQL, functionSQL]\<rparr>,
      Some (NewSnapshot (map (\<lambda>r. r\<lparr>rel_Columns := map snd (filter (\<lambda>c. fst c = rel_OID r) cols)\<rparr>) rels) fns))"
proof -
  define u1 where "u1 = u\<lparr>uc_sm := (uc_sm u)\<lparr>st_LastUpstreamRFQ := s1\<rparr>,
    uc_fromServer := answer t2 s2 (map column_row cols) @ answer t3 s3 (map function_row fns) @ rest,
    uc_toServer := uc_toServer u @ [MsgQuery relationSQL]\<rparr>"
  define u2 where "u2 = u1\<lparr>uc_sm := (uc_sm u)\<lparr>st_LastUpstreamRFQ := s2\<rparr>,
    uc_fromServer := answer t3 s3 (map function_row fns) @ rest, uc_toServer := uc_toServer u1 @ [MsgQuery columnSQL]\<rparr>"
  have r: "loadRelations u = (u1, Some rels)"
    using Query_answer [OF assms(1,2), of relationSQL] relation_rows_print [OF assms(3)]
    by (simp add: loadRelations_def u1_def)
  have c: "loadColumns u1 = (u2, Some (\<lambda>oid. map snd (filter (\<lambda>c. fst c = oid) cols)))"
    using Query_answer [of u1 t2 s2 "map column_row cols" "answer t3 s3 (map function_row fns) @ rest" columnSQL]
      column_rows_print [OF assms(4), of "\<lambda>_. []"] assms(1)
    by (simp add: loadColumns_def u2_def) (simp add: u1_def)
  have f: "loadFunctions u2 = (u2\<lparr>uc_sm := (uc_sm u)\<lparr>st_LastUpstreamRFQ := s3\<rparr>, uc_fromServer := rest,
      uc_toServer := uc_toServer u2 @ [MsgQuery functionSQL]\<rparr>, Some fns)"
    using Query_answer [of u2 t3 s3 "map function_row fns" rest functionSQL] function_rows_print [OF assms(5)] assms(1)
    by (simp add: loadFunctions_def) (simp add: u1_def u2_def)
  from r c f show ?thesis by (simp add: LoadPostgresSnapshot_def u1_def u2_def)
qed

definition sample_upstream :: "BackendMessage input list \<Rightarrow> upstreamConn" where
  "sample_upstream ins = \<lparr>uc_sm = idle_conn, uc_FE = True, uc_fromServer = ins, uc_toServer = []\<rparr>"

definition sample_column :: "OID \<times> Column" where
  "sample_column = (rel_OID sample_table, \<lparr>col_Name = ''id'', col_TypeOID = 23, col_NotNull = True, col_Position = 1\<rparr>)"

theorem snapshot_load_roundtrip_witness:
  "RelationByName (the (snd (LoadPostgresSnapshot (sample_upstream
       (answer ''SELECT 1'' (CHR ''I'') [relation_row sample_table] @ answer ''SELECT 1'' (CHR ''I'') [column_row sample_column] @
        answer ''SELECT 0'' (CHR ''I'') []))))) (rel_Name sample_table) =
     Some (sample_table\<lparr>rel_Columns := [snd sample_column]\<rparr>)"
proof -
  let ?u = "sample_upstream
       (answer ''SELECT 1'' (CHR ''I'') [relation_row sample_table] @ answer ''SELECT 1'' (CHR ''I'') [column_row sample_column] @
        answer ''SELECT 0'' (CHR ''I'') [])"
  have "snd (LoadPostgresSnapshot ?u) = Some (NewSnapshot [sample_table\<lparr>rel_Columns := [snd sample_column]\<rparr>] [])"
    using snapshot_load_roundtrip [of ?u "''SELECT 1''" "CHR ''I''" "[sample_table]" "''SELECT 1''" "CHR ''I''" "[sample_column]"
        "''SELECT 0''" "CHR ''I''" "[]" "[]"]
    by (simp add: sample_upstream_def sample_table_def sample_column_def zeroRelation_def)
  then show ?thesis by (simp add: RelationByName_def NewSnapshot_def add_relation_def sample_table_def)
qed

end
