(* ===== verification/Pg_Proxy.thy ===== *)
theory Pg_Proxy
  imports Pg_Loader
begin

text \<open>
  The dispatcher of a proxied connection, \<open>src/internal/db/proxy/postgres\<close>: deny messages
  (deny.go), approvals (approvalwait.go), redirects (redirect\_runtime.go), the extended query path
  (extquery.go), the simple query path and the frame loop (simplequery.go) and the function-call
  sub-protocol (funccall.go).

  The state of a connection is a record: the catalog context with the upstream side (protocol state,
  what the server will still deliver, what was sent to it), the two caches, what the client will
  still deliver and what was sent to it. The classifier, the SQL rewriting of the redirect planner,
  the statement digest and the message sizes are parameters, as are, per frame, the policy snapshots
  that successive reads of the hot-reloadable policy return, the outcome of the approval race and
  the clocks. Statement and lifecycle events go to a sink that the connection never reads; they are
  not part of this state.
\<close>


section \<open>Parameters and state\<close>

record classifyOptions =
  cl_EscalateUnknownFunctions :: bool
  cl_SafeFunctionAllowlist :: "string list"

definition classifierOptionsFromPolicy :: "RuleSet option \<Rightarrow> classifyOptions" where
  "classifierOptionsFromPolicy rs =
     (case rs of
        None \<Rightarrow> \<lparr>cl_EscalateUnknownFunctions = False, cl_SafeFunctionAllowlist = []\<rparr>
      | Some _ \<Rightarrow>
          let r = RuleSet_Redaction rs in
          if \<not> rc_EscalateUnknownFunctions r then \<lparr>cl_EscalateUnknownFunctions = False, cl_SafeFunctionAllowlist = []\<rparr>
          else \<lparr>cl_EscalateUnknownFunctions = True, cl_SafeFunctionAllowlist = rc_SafeFunctionAllowlist r\<rparr>)"

record redirectRuntimeInput =
  ri_SQL :: string
  ri_Stmt :: ClassifiedStatement
  ri_Decision :: Decision
  ri_Rule :: StatementRule
  ri_Service :: ServiceID

record redirectAction =
  ra_RuleName :: string
  ra_SourceRelation :: string
  ra_TargetRelation :: string

record redirectRuntimePlan =
  rp_RewrittenSQL :: string
  rp_RewrittenStatements :: "ClassifiedStatement list"
  rp_OriginalStatementDigest :: string
  rp_RewrittenStatementDigest :: string
  rp_Rule :: string
  rp_SourceRelation :: string
  rp_TargetRelation :: string
  rp_RuntimeStatus :: string
  rp_RejectionReason :: string

text \<open>The outcome of the three-way select in \<open>waitForApproval\<close>, with the time it took.\<close>

datatype approval_race = RaceCancelled | RaceResult bool bool Duration | RaceTimer \<comment> \<open>approved, failed, elapsed\<close>

record proxy_env =
  pv_env :: db_env
  pv_svc :: ServiceID
  pv_classify :: "classifyOptions \<Rightarrow> string \<Rightarrow> ClassifiedStatement list \<times> bool"
  pv_backend :: bool \<comment> \<open>the dialect has a rewrite backend\<close>
  pv_Plan :: "string \<Rightarrow> ClassifiedStatement \<Rightarrow> redirectAction \<Rightarrow> string + string" \<comment> \<open>rejection, or rewritten SQL\<close>
  pv_digest :: "string \<Rightarrow> string"
  pv_size :: "BackendMessage \<Rightarrow> nat"
  pv_key :: catalogCacheKey
  pv_MaxQueryBytes :: nat \<comment> \<open>a positive cap\<close>
  pv_hasApprover :: bool

record frame_input =
  fi_policy :: "nat \<Rightarrow> RuleSet option" \<comment> \<open>the n-th read of the policy while the frame is handled\<close>
  fi_race :: approval_race
  fi_clock :: clock
  fi_copyClock :: clock

record proxyConn =
  px_k :: "upstreamConn catalogState"
  px_wireCache :: Cache
  px_sqlCache :: Cache
  px_pendingRedirectExec :: "Entry list"
  px_upstreamOpen :: bool
  px_fromClient :: "FrontendMessage input list"
  px_toClient :: "BackendMessage list"

abbreviation px_uc :: "proxyConn \<Rightarrow> upstreamConn" where
  "px_uc p \<equiv> ks_conn (px_k p)"

abbreviation px_sm :: "proxyConn \<Rightarrow> ConnState" where
  "px_sm p \<equiv> uc_sm (px_uc p)"

abbreviation px_toServer :: "proxyConn \<Rightarrow> FrontendMessage list" where
  "px_toServer p \<equiv> uc_toServer (px_uc p)"

definition set_uc :: "upstreamConn \<Rightarrow> proxyConn \<Rightarrow> proxyConn" where
  "set_uc u p = p\<lparr>px_k := (px_k p)\<lparr>ks_conn := u\<rparr>\<rparr>"

definition set_sm :: "ConnState \<Rightarrow> proxyConn \<Rightarrow> proxyConn" where
  "set_sm s p = set_uc ((px_uc p)\<lparr>uc_sm := s\<rparr>) p"

text \<open>
  Why a handler ends the connection. \<open>PxNoUpstream\<close> is the error where the code checks for a missing
  upstream side, \<open>PxPanic\<close> the nil dereference where it does not.
\<close>

datatype px_error =
    PxLoop loop_error | PxInTxTerminate | PxFrameTooLargeClose | PxUnsupportedFrame | PxNoUpstream | PxPanic | PxApprovalCancelled
  | PxCopyDirection

type_synonym handled = "proxyConn \<times> px_error option"

definition send_server :: "FrontendMessage \<Rightarrow> proxyConn \<Rightarrow> proxyConn" where
  "send_server m p = set_uc ((px_uc p)\<lparr>uc_toServer := px_toServer p @ [m]\<rparr>) p"

definition send_client :: "BackendMessage \<Rightarrow> proxyConn \<Rightarrow> proxyConn" where
  "send_client m p = p\<lparr>px_toClient := px_toClient p @ [m]\<rparr>"

definition send_or :: "px_error \<Rightarrow> FrontendMessage \<Rightarrow> proxyConn \<Rightarrow> handled" where
  "send_or e m p = (if uc_FE (px_uc p) then (send_server m p, None) else (p, Some e))"

definition and_then :: "handled \<Rightarrow> (proxyConn \<Rightarrow> handled) \<Rightarrow> handled" where
  "and_then h f = (case h of (p, None) \<Rightarrow> f p | (p, Some e) \<Rightarrow> (p, Some e))"


section \<open>Deny messages (deny.go)\<close>

definition synthErrorAndRFQ :: "string \<Rightarrow> string \<Rightarrow> proxyConn \<Rightarrow> proxyConn" where
  "synthErrorAndRFQ sqlstate message p =
     send_client (ReadyForQuery (CHR ''I'')) (send_client (ErrorResponse ''ERROR'' sqlstate message) p)"

definition synthesizeError :: "string \<Rightarrow> string \<Rightarrow> proxyConn \<Rightarrow> proxyConn" where
  "synthesizeError sqlstate message p = send_client (ErrorResponse ''FATAL'' sqlstate message) p"

text \<open>\<open>renderDenyMessage\<close> of this package renders the same text as the state machine's.\<close>

fun pickDenySynth :: "Decision list \<Rightarrow> string \<times> string" where
  "pickDenySynth [] = (''denied by AgentMon policy'', ''42501'')"
| "pickDenySynth (d # ds) =
     (if d_Verb d \<noteq> VerbDeny then pickDenySynth ds
      else (renderDenyMessage d, if d_RuleKind d = RuleKindConnection then ''28000'' else ''42501''))"


section \<open>Draining the server's answer\<close>

text \<open>The state after a loop has read the server; a missing upstream side is dereferenced by the first read.\<close>

definition after_loop :: "BackendMessage loop_out \<Rightarrow> proxyConn \<Rightarrow> proxyConn" where
  "after_loop lo p =
     (set_uc ((px_uc p)\<lparr>uc_sm := lo_state lo, uc_fromServer := lo_rest lo\<rparr>) p)\<lparr>px_toClient := px_toClient p @ lo_sent lo\<rparr>"

definition drain :: "proxy_env \<Rightarrow> clock \<Rightarrow> proxyConn \<Rightarrow> proxyConn \<times> upstreamResult \<times> px_error option" where
  "drain pv clk p =
     (if \<not> uc_FE (px_uc p) \<and> take 1 (uc_fromServer (px_uc p)) \<noteq> [CtxDone] then (p, zeroResult, Some PxPanic)
      else let lo = forwardUpstreamUntilRFQ (pv_size pv) clk (px_sm p) (uc_fromServer (px_uc p)) in
        (after_loop lo p, lo_result lo, map_option PxLoop (lo_error lo)))"

definition runCopyLoop :: "proxy_env \<Rightarrow> clock \<Rightarrow> BulkOpKind \<Rightarrow> proxyConn \<Rightarrow> proxyConn \<times> upstreamResult \<times> px_error option" where
  "runCopyLoop pv clk direction p =
     (case direction of
        BulkOpIn \<Rightarrow>
          let co = runCopyInLoop (pv_size pv) clk (px_sm p) (px_fromClient p) (uc_fromServer (px_uc p));
              p1 = (set_uc ((px_uc p)\<lparr>uc_toServer := px_toServer p @ co_toServer co\<rparr>) p)\<lparr>px_fromClient := co_clientRest co\<rparr>
          in (after_loop (co_out co) p1, lo_result (co_out co), map_option PxLoop (lo_error (co_out co)))
      | BulkOpOut \<Rightarrow>
          let lo = runCopyOutLoop (pv_size pv) clk (px_sm p) (uc_fromServer (px_uc p)) in
          (after_loop lo p, lo_result lo, map_option PxLoop (lo_error lo))
      | BulkOpNone \<Rightarrow> (p, zeroResult, Some PxCopyDirection))"

abbreviation uc_rfq :: "upstreamConn \<Rightarrow> char" where
  "uc_rfq u \<equiv> st_LastUpstreamRFQ (uc_sm u)"

definition px_refreshPending :: "proxy_env \<Rightarrow> proxyConn \<Rightarrow> proxyConn" where
  "px_refreshPending pv p =
     p\<lparr>px_k := refreshPendingCatalogContext uc_rfq pgprotoCatalogLoader (pv_key pv) (px_k p)\<rparr>"

definition px_refreshAfter :: "proxy_env \<Rightarrow> ClassifiedStatement list \<Rightarrow> upstreamResult \<Rightarrow> proxyConn \<Rightarrow> proxyConn" where
  "px_refreshAfter pv stmts r p =
     p\<lparr>px_k := refreshCatalogAfterSuccessfulStatements uc_rfq pgprotoCatalogLoader (pv_key pv) stmts
                 (length (ur_RowsByStmt r)) (px_k p)\<rparr>"

definition px_classify :: "proxy_env \<Rightarrow> RuleSet option \<Rightarrow> proxyConn \<Rightarrow> string \<Rightarrow> ClassifiedStatement list \<times> bool" where
  "px_classify pv rs p sql = resolving_Classify (pv_classify pv (classifierOptionsFromPolicy rs)) (ks_catalog (px_k p)) sql"


section \<open>Approvals (approvalwait.go)\<close>

record approvalOutcome =
  ao_approved :: bool
  ao_denyAction :: string
  ao_err :: bool

text \<open>Without a configured approver the no-op approver answers, and it never approves.\<close>

definition waitForApproval :: "proxy_env \<Rightarrow> Duration \<Rightarrow> approval_race \<Rightarrow> approvalOutcome" where
  "waitForApproval pv timeout race =
     (let timeout = (if timeout = 0 then 60 * Second else timeout) in
      case race of
        RaceCancelled \<Rightarrow> \<lparr>ao_approved = False, ao_denyAction = ''cancelled_during_approval'', ao_err = True\<rparr>
      | RaceResult approved failed elapsed \<Rightarrow>
          if failed \<or> \<not> (pv_hasApprover pv \<and> approved) then
            (if elapsed \<ge> timeout then \<lparr>ao_approved = False, ao_denyAction = ''approval_timeout'', ao_err = False\<rparr>
             else \<lparr>ao_approved = False, ao_denyAction = ''approval_denied'', ao_err = False\<rparr>)
          else \<lparr>ao_approved = True, ao_denyAction = ''none'', ao_err = False\<rparr>
      | RaceTimer \<Rightarrow> \<lparr>ao_approved = False, ao_denyAction = ''approval_timeout'', ao_err = False\<rparr>)"

definition approvalReason :: "string \<Rightarrow> string" where
  "approvalReason denyAction =
     (if denyAction = ''approval_timeout'' then ''approval timeout''
      else if denyAction = ''approval_denied'' then ''approval denied''
      else if denyAction = ''cancelled_during_approval'' then ''cancelled during approval''
      else ''approval denied'')"

definition approvalTimeout :: "Decision \<Rightarrow> StatementRule \<Rightarrow> Duration" where
  "approvalTimeout d rule =
     (if sr_Timeout rule \<noteq> 0 then sr_Timeout rule
      else case d_Approval d of
        Some a \<Rightarrow> if ar_Timeout a \<noteq> 0 then ar_Timeout a else 60 * Second
      | None \<Rightarrow> 60 * Second)"

definition decisionsWithApprovalDeny :: "Decision list \<Rightarrow> nat \<Rightarrow> string \<Rightarrow> Decision list" where
  "decisionsWithApprovalDeny ds i reason =
     (if i < length ds then ds[i := (ds ! i)\<lparr>d_Verb := VerbDeny, d_Reason := reason\<rparr>] else ds)"

definition cacheApprovedParse :: "string \<Rightarrow> ClassifiedStatement \<Rightarrow> proxyConn \<Rightarrow> proxyConn" where
  "cacheApprovedParse name stmt p =
     (case statementsNeedCatalogRefresh [stmt] of (searchPath, snapshot) \<Rightarrow>
        (set_sm ((px_sm p)\<lparr>st_UpstreamDirtySinceSync := True\<rparr>) p)
          \<lparr>px_wireCache := Cache_Put (px_wireCache p) name
             (zeroEntry\<lparr>en_Classification := stmt, en_CatalogRefreshSearchPath := searchPath,
                en_CatalogRefreshSnapshot := snapshot\<rparr>)\<rparr>)"


section \<open>Executing actions (extquery.go)\<close>

text \<open>
  \<open>executeActions\<close> and \<open>runApprovalWait\<close> call each other: a denied approval executes a deny route,
  which contains no further approval. The action loop takes the handler of an approval as an
  argument; \<open>executeDeny\<close> is the inner call, where that handler is never reached.
\<close>

definition executeAction ::
    "(Duration \<Rightarrow> ClassifiedStatement \<Rightarrow> StatementRule \<Rightarrow> proxyConn \<Rightarrow> handled) \<Rightarrow>
     proxy_env \<Rightarrow> frame_input \<Rightarrow> FrontendMessage \<Rightarrow> Action \<Rightarrow> proxyConn \<Rightarrow> handled" where
  "executeAction h pv inp msg act p =
     (case act of
        ActionForward \<Rightarrow> send_or PxNoUpstream msg p
      | ActionSynthError sqlstate message severity \<Rightarrow>
          (send_client (ErrorResponse (if severity = '''' then ''ERROR'' else severity) sqlstate message) p, None)
      | ActionSynthReadyForQuery status \<Rightarrow> (send_client (ReadyForQuery status) p, None)
      | ActionSynthParseComplete \<Rightarrow> (send_client ParseComplete p, None)
      | ActionSynthBindComplete \<Rightarrow> (send_client BindComplete p, None)
      | ActionSuppress \<Rightarrow> (p, None)
      | ActionInjectRollback \<Rightarrow> send_or PxNoUpstream (MsgQuery ''ROLLBACK'') p
      | ActionDrainUntilRFQ \<Rightarrow>
          (case drain pv (fi_clock inp) p of (p', r, err) \<Rightarrow>
             (case err of
                Some e \<Rightarrow> (p', Some e)
              | None \<Rightarrow> (px_refreshPending pv (p'\<lparr>px_pendingRedirectExec := []\<rparr>), None)))
      | ActionClose \<Rightarrow> (p\<lparr>px_upstreamOpen := False\<rparr>, Some PxInTxTerminate)
      | ActionTrackUpstreamRFQ status \<Rightarrow> (set_sm ((px_sm p)\<lparr>st_LastUpstreamRFQ := status\<rparr>) p, None)
      | ActionApproverWait timeout stmt rule \<Rightarrow> h timeout stmt rule p)"

fun executeActionsWith ::
    "(Duration \<Rightarrow> ClassifiedStatement \<Rightarrow> StatementRule \<Rightarrow> proxyConn \<Rightarrow> handled) \<Rightarrow>
     proxy_env \<Rightarrow> frame_input \<Rightarrow> FrontendMessage \<Rightarrow> Action list \<Rightarrow> proxyConn \<Rightarrow> handled" where
  "executeActionsWith h pv inp msg [] p = (p, None)"
| "executeActionsWith h pv inp msg (act # acts) p =
     and_then (executeAction h pv inp msg act p) (executeActionsWith h pv inp msg acts)"

definition executeDeny :: "proxy_env \<Rightarrow> frame_input \<Rightarrow> FrontendMessage \<Rightarrow> Action list \<Rightarrow> proxyConn \<Rightarrow> handled" where
  "executeDeny pv inp msg acts p = executeActionsWith (\<lambda>_ _ _ p. (p, None)) pv inp msg acts p"

definition runApprovalWait ::
    "proxy_env \<Rightarrow> frame_input \<Rightarrow> FrontendMessage \<Rightarrow> Duration \<Rightarrow> ClassifiedStatement \<Rightarrow> StatementRule \<Rightarrow> proxyConn \<Rightarrow> handled" where
  "runApprovalWait pv inp msg timeout stmt rule p =
     (let out = waitForApproval pv timeout (fi_race inp) in
      if ao_err out then (p, Some PxApprovalCancelled)
      else if ao_approved out then
        send_or PxPanic msg (case msg of MsgParse name _ _ \<Rightarrow> cacheApprovedParse name stmt p | _ \<Rightarrow> p)
      else executeDeny pv inp msg
             (DenyRoute (px_sm p) rule (''denied by AgentMon policy: '' @ approvalReason (ao_denyAction out)) ''42501'') p)"

definition executeActions :: "proxy_env \<Rightarrow> frame_input \<Rightarrow> FrontendMessage \<Rightarrow> Action list \<Rightarrow> proxyConn \<Rightarrow> handled" where
  "executeActions pv inp msg acts p = executeActionsWith (runApprovalWait pv inp msg) pv inp msg acts p"

definition actionsCanForward :: "Action list \<Rightarrow> bool" where
  "actionsCanForward acts = list_ex (\<lambda>a. a = ActionForward) acts"

definition containsCloseAction :: "Action list \<Rightarrow> bool" where
  "containsCloseAction acts = list_ex (\<lambda>a. a = ActionClose) acts"


section \<open>Redirects (redirect\_runtime.go)\<close>

definition statementIsReadOnly :: "ClassifiedStatement \<Rightarrow> bool" where
  "statementIsReadOnly stmt \<longleftrightarrow> cs_Effects stmt \<noteq> [] \<and> list_all (\<lambda>e. e_Group e = GroupRead) (cs_Effects stmt)"

definition redirectActionFromRuntimeInput :: "redirectRuntimeInput \<Rightarrow> string + redirectAction" where
  "redirectActionFromRuntimeInput inp =
     (let ruleName = (if d_RuleName (ri_Decision inp) = '''' then sr_Name (ri_Rule inp) else d_RuleName (ri_Decision inp)) in
      case d_Redirect (ri_Decision inp) of
        Some r \<Rightarrow> Inr \<lparr>ra_RuleName = ruleName, ra_SourceRelation = rd_SourceRelation r, ra_TargetRelation = rd_TargetRelation r\<rparr>
      | None \<Rightarrow>
          (case (sr_Relations (ri_Rule inp), sr_Redirect (ri_Rule inp)) of
             ([relation], Some target) \<Rightarrow>
               Inr \<lparr>ra_RuleName = ruleName, ra_SourceRelation = relation, ra_TargetRelation = target\<rparr>
           | _ \<Rightarrow> Inl ''missing_redirect_action''))"

definition zeroPlan :: redirectRuntimePlan where
  "zeroPlan = \<lparr>rp_RewrittenSQL = '''', rp_RewrittenStatements = [], rp_OriginalStatementDigest = '''',
     rp_RewrittenStatementDigest = '''', rp_Rule = '''', rp_SourceRelation = '''', rp_TargetRelation = '''',
     rp_RuntimeStatus = '''', rp_RejectionReason = ''''\<rparr>"

text \<open>The plan, and the error text if there is one.\<close>

definition PlanRedirect :: "proxy_env \<Rightarrow> redirectRuntimeInput \<Rightarrow> redirectRuntimePlan \<times> string option" where
  "PlanRedirect pv inp =
     (if \<not> pv_backend pv then (zeroPlan, Some ''unsupported_redirect_dialect'')
      else case redirectActionFromRuntimeInput inp of
        Inl err \<Rightarrow> (zeroPlan, Some err)
      | Inr action \<Rightarrow>
          (case pv_Plan pv (ri_SQL inp) (ri_Stmt inp) action of
             Inl err \<Rightarrow> (zeroPlan, Some err)
           | Inr rewritten \<Rightarrow>
               (zeroPlan\<lparr>rp_RewrittenSQL := rewritten, rp_Rule := ra_RuleName action,
                  rp_SourceRelation := ra_SourceRelation action, rp_TargetRelation := ra_TargetRelation action\<rparr>, None)))"

text \<open>The policy is read twice: for the rule (read \<open>n\<close>) and for the classifier options (read \<open>n + 1\<close>).\<close>

definition planRuntimeRedirect ::
    "proxy_env \<Rightarrow> frame_input \<Rightarrow> nat \<Rightarrow> string \<Rightarrow> ClassifiedStatement \<Rightarrow> Decision \<Rightarrow> proxyConn \<Rightarrow> redirectRuntimePlan \<times> bool" where
  "planRuntimeRedirect pv inp n sql stmt decision p =
     (let rule = lookupStatementRule (fi_policy inp n) (d_RuleName decision) in
      case PlanRedirect pv \<lparr>ri_SQL = sql, ri_Stmt = stmt, ri_Decision = decision, ri_Rule = rule, ri_Service = pv_svc pv\<rparr> of
        (plan, Some err) \<Rightarrow> (plan\<lparr>rp_RejectionReason := err, rp_RuntimeStatus := ''rejected''\<rparr>, False)
      | (plan, None) \<Rightarrow>
          let plan = (if rp_Rule plan = '''' then plan\<lparr>rp_Rule := d_RuleName decision\<rparr> else plan) in
          if rp_RewrittenSQL plan = '''' then
            (plan\<lparr>rp_RejectionReason := ''empty_rewritten_statement'', rp_RuntimeStatus := ''rejected''\<rparr>, False)
          else
            case px_classify pv (fi_policy inp (n + 1)) p (rp_RewrittenSQL plan) of (rewritten, failed) \<Rightarrow>
              if failed \<or> length rewritten \<noteq> 1 then
                (plan\<lparr>rp_RejectionReason := ''rewritten_statement_unclassifiable'', rp_RuntimeStatus := ''rejected''\<rparr>, False)
              else if \<not> statementIsReadOnly (hd rewritten) then
                (plan\<lparr>rp_RejectionReason := ''rewritten_statement_not_read_only'', rp_RuntimeStatus := ''rejected''\<rparr>, False)
              else
                (plan\<lparr>rp_RewrittenStatements := rewritten, rp_OriginalStatementDigest := pv_digest pv sql,
                   rp_RewrittenStatementDigest := pv_digest pv (rp_RewrittenSQL plan), rp_RuntimeStatus := ''planned''\<rparr>, True))"

text \<open>The index of the first element with a property.\<close>

fun first_index :: "('a \<Rightarrow> bool) \<Rightarrow> 'a list \<Rightarrow> nat option" where
  "first_index P [] = None"
| "first_index P (x # xs) = (if P x then Some 0 else map_option Suc (first_index P xs))"

definition evaluate_all :: "proxy_env \<Rightarrow> RuleSet option \<Rightarrow> ClassifiedStatement list \<Rightarrow> Decision list" where
  "evaluate_all pv rs stmts = map (\<lambda>s. the (Evaluate (pv_env pv) s rs (pv_svc pv))) stmts"

definition multi_redirect_message :: string where
  "multi_redirect_message = ''redirect rejected by AgentMon policy: multi-statement redirect unsupported''"

text \<open>\<open>None\<close>: the Parse is not handled here. The policy reads are numbered from one.\<close>

definition tryHandleRedirectParse ::
    "proxy_env \<Rightarrow> frame_input \<Rightarrow> string \<Rightarrow> string \<Rightarrow> 32 word list \<Rightarrow> ClassifiedStatement list \<Rightarrow> proxyConn \<Rightarrow> handled option" where
  "tryHandleRedirectParse pv inp name sql oids stmts p =
     (let decisions = evaluate_all pv (fi_policy inp 1) stmts; msg = MsgParse name sql oids in
      if list_ex (\<lambda>d. d_Verb d = VerbDeny \<or> d_Verb d = VerbApprove) decisions then None
      else case first_index (\<lambda>d. d_Verb d = VerbRedirect) decisions of
        None \<Rightarrow> None
      | Some i \<Rightarrow>
          if length stmts \<noteq> 1 \<or> i \<noteq> 0 then
            Some (executeActions pv inp msg (DenyRoute (px_sm p) zeroStatementRule multi_redirect_message ''0A000'') p)
          else
            case planRuntimeRedirect pv inp 2 sql (hd stmts) (hd decisions) p of
              (plan, False) \<Rightarrow>
                let actions = DenyRoute (px_sm p) zeroStatementRule
                      (''redirect rejected by AgentMon policy: '' @ rp_RejectionReason plan) ''0A000'';
                    p1 = (if \<not> containsCloseAction actions then set_sm ((px_sm p)\<lparr>st_Absorbing := True\<rparr>) p else p)
                in Some (executeActions pv inp msg actions p1)
            | (plan, True) \<Rightarrow>
                case statementsNeedCatalogRefresh (rp_RewrittenStatements plan) of (searchPath, snapshot) \<Rightarrow>
                  let p1 = p\<lparr>px_wireCache := Cache_Put (px_wireCache p) name
                        \<lparr>en_Classification = hd (rp_RewrittenStatements plan), en_RedactionTier = RedactNone,
                         en_CatalogRefreshSearchPath = searchPath, en_CatalogRefreshSnapshot = snapshot,
                         en_Redirect = Some \<lparr>md_OriginalClassification = hd stmts, md_OriginalSQL = sql,
                           md_OriginalStatementDigest = rp_OriginalStatementDigest plan,
                           md_RewrittenStatementDigest = rp_RewrittenStatementDigest plan, md_Rule = rp_Rule plan,
                           md_SourceRelation = rp_SourceRelation plan, md_TargetRelation = rp_TargetRelation plan,
                           md_PolicyIdentity = d_RuleName (hd decisions)\<rparr>\<rparr>\<rparr>
                  in Some (and_then (send_or PxNoUpstream (MsgParse name (rp_RewrittenSQL plan) oids) p1)
                       (\<lambda>p2. (set_sm ((px_sm p2)\<lparr>st_UpstreamDirtySinceSync := True\<rparr>) p2, None))))"


section \<open>Extended query frames (extquery.go)\<close>

definition preserveRedirectPortalMetadata :: "string \<Rightarrow> string \<Rightarrow> proxyConn \<Rightarrow> proxyConn" where
  "preserveRedirectPortalMetadata portal statement p =
     (case Cache_Get (px_wireCache p) statement of
        (c, None) \<Rightarrow> p\<lparr>px_wireCache := c\<rparr>
      | (c, Some entry) \<Rightarrow>
          if en_Redirect entry = None then p\<lparr>px_wireCache := c\<rparr>
          else p\<lparr>px_wireCache := Cache_Put c (wirePortalCacheKey portal) entry\<rparr>)"

definition markCatalogRefreshPendingForExecute :: "string \<Rightarrow> Action list \<Rightarrow> proxyConn \<Rightarrow> proxyConn" where
  "markCatalogRefreshPendingForExecute portal actions p =
     (if \<not> actionsCanForward actions then p
      else case Cache_Get (px_wireCache p) (wirePortalCacheKey portal) of
        (c, None) \<Rightarrow> p\<lparr>px_wireCache := c\<rparr>
      | (c, Some entry) \<Rightarrow>
          p\<lparr>px_wireCache := c,
            px_pendingRedirectExec := px_pendingRedirectExec p @ (if en_Redirect entry \<noteq> None then [entry] else []),
            px_k := markCatalogRefreshPendingForNeeds (en_CatalogRefreshSearchPath entry) (en_CatalogRefreshSnapshot entry) (px_k p)\<rparr>)"

text \<open>Function calls (funccall.go) and other frames that the loop does not route.\<close>

definition function_call_stmt :: "32 word \<Rightarrow> ClassifiedStatement" where
  "function_call_stmt oid =
     zeroStatement\<lparr>cs_RawVerb := ''FUNCTION_CALL'',
       cs_Effects := [\<lparr>e_Group = GroupProcedural, e_Subtype = SubtypeFunctionCallProtocol, e_Objects = [], e_ResolvedObjects = [],
         e_Resolution = ResolutionQualified, e_HasWhere = False, e_FunctionOID = Some oid\<rparr>]\<rparr>"

definition round_trip :: "proxy_env \<Rightarrow> frame_input \<Rightarrow> FrontendMessage \<Rightarrow> proxyConn \<Rightarrow> proxyConn \<times> upstreamResult \<times> px_error option" where
  "round_trip pv inp m p =
     (case send_or PxPanic m p of
        (p1, Some e) \<Rightarrow> (p1, zeroResult, Some e)
      | (p1, None) \<Rightarrow> drain pv (fi_clock inp) p1)"

definition handleFunctionCall :: "proxy_env \<Rightarrow> frame_input \<Rightarrow> 32 word \<Rightarrow> byte list \<Rightarrow> proxyConn \<Rightarrow> handled" where
  "handleFunctionCall pv inp oid args p =
     (let rs = fi_policy inp 0; msg = MsgFunctionCall oid args in
      case RuleSet_Service rs (pv_svc pv) of
        None \<Rightarrow> (synthesizeError ''42501'' ''FunctionCall sub-protocol denied by AgentMon policy'' p, Some PxUnsupportedFrame)
      | Some svc \<Rightarrow>
          if \<not> svc_AllowFunctionCallProtocol svc then
            (synthesizeError ''42501'' ''FunctionCall sub-protocol denied by AgentMon policy'' p, Some PxUnsupportedFrame)
          else
            let cs = resolveStatementCatalog (function_call_stmt oid) (ks_catalog (px_k p));
                d = the (Evaluate (pv_env pv) cs rs (pv_svc pv));
                rule = lookupStatementRule rs (d_RuleName d)
            in if d_Verb d = VerbApprove then
                 let out = waitForApproval pv (approvalTimeout d rule) (fi_race inp) in
                 if ao_err out then (p, Some PxApprovalCancelled)
                 else if ao_approved out then (case round_trip pv inp msg p of (p1, _, err) \<Rightarrow> (p1, err))
                 else executeActions pv inp msg
                        (DenyRoute (px_sm p) rule
                          (renderDenyMessage (d\<lparr>d_Verb := VerbDeny, d_Reason := approvalReason (ao_denyAction out)\<rparr>)) ''42501'') p
               else if d_Verb d = VerbDeny then
                 executeActions pv inp msg (DenyRoute (px_sm p) rule (renderDenyMessage d) ''42501'') p
               else (case round_trip pv inp msg p of (p1, _, err) \<Rightarrow> (p1, err)))"

definition handleUnsupportedFrame :: "proxy_env \<Rightarrow> frame_input \<Rightarrow> FrontendMessage \<Rightarrow> proxyConn \<Rightarrow> handled" where
  "handleUnsupportedFrame pv inp msg p =
     (case msg of
        MsgFunctionCall oid args \<Rightarrow> handleFunctionCall pv inp oid args p
      | _ \<Rightarrow> (synthesizeError ''0A000'' ''Extended Query / COPY / FunctionCall not supported in AgentMon proxy phase 1'' p,
             Some PxUnsupportedFrame))"

text \<open>
  The cache updates that follow a transition: a forwarded Parse gets a full entry, a forwarded Bind
  keeps the redirect metadata of its statement, a forwarded Execute may call for a catalog refresh.
\<close>

definition after_transition ::
    "FrontendMessage \<Rightarrow> ClassifiedStatement list \<Rightarrow> Action list \<Rightarrow> proxyConn \<Rightarrow> proxyConn" where
  "after_transition msg parseStmts actions p =
     (case msg of
        MsgParse name _ _ \<Rightarrow>
          (case parseStmts of
             [] \<Rightarrow> p
           | stmt # _ \<Rightarrow>
               if \<not> actionsCanForward actions then p
               else case statementsNeedCatalogRefresh parseStmts of (searchPath, snapshot) \<Rightarrow>
                 p\<lparr>px_wireCache := Cache_Put (px_wireCache p) name
                     (zeroEntry\<lparr>en_Classification := stmt, en_CatalogRefreshSearchPath := searchPath,
                        en_CatalogRefreshSnapshot := snapshot\<rparr>)\<rparr>)
      | MsgBind portal statement _ \<Rightarrow>
          if actionsCanForward actions then preserveRedirectPortalMetadata portal statement p else p
      | MsgExecute portal _ \<Rightarrow> markCatalogRefreshPendingForExecute portal actions p
      | _ \<Rightarrow> p)"

definition handleExtendedFrame :: "proxy_env \<Rightarrow> frame_input \<Rightarrow> FrontendMessage \<Rightarrow> proxyConn \<Rightarrow> handled" where
  "handleExtendedFrame pv inp msg p =
     (case frameFromPgproto msg of
        None \<Rightarrow> handleUnsupportedFrame pv inp msg p
      | Some frame \<Rightarrow>
          let rs = fi_policy inp 0;
              classify = (\<lambda>sql. fst (px_classify pv rs p sql));
              parseStmts = (case msg of MsgParse _ sql _ \<Rightarrow> classify sql | _ \<Rightarrow> []);
              redirected = (case msg of
                  MsgParse name sql oids \<Rightarrow>
                    if parseStmts \<noteq> [] then tryHandleRedirectParse pv inp name sql oids parseStmts p else None
                | _ \<Rightarrow> None)
          in case redirected of
               Some h \<Rightarrow> h
             | None \<Rightarrow>
                 case TransitionWithParser (pv_env pv) wireCacheView classify rs (pv_svc pv) (px_sm p) frame (px_wireCache p) of
                   (s', actions, c') \<Rightarrow>
                     executeActions pv inp msg actions
                       (after_transition msg parseStmts actions ((set_sm s' p)\<lparr>px_wireCache := c'\<rparr>)))"


section \<open>Simple queries (simplequery.go)\<close>

definition runSimpleQueryRedirect ::
    "proxy_env \<Rightarrow> frame_input \<Rightarrow> string \<Rightarrow> ClassifiedStatement list \<Rightarrow> Decision list \<Rightarrow> nat \<Rightarrow> proxyConn \<Rightarrow> handled" where
  "runSimpleQueryRedirect pv inp sql stmts decisions i p =
     (if length stmts \<noteq> 1 \<or> i \<noteq> 0 then (synthErrorAndRFQ ''0A000'' multi_redirect_message p, None)
      else case planRuntimeRedirect pv inp 1 sql (stmts ! i) (decisions ! i) p of
        (plan, False) \<Rightarrow>
          (synthErrorAndRFQ ''0A000'' (''redirect rejected by AgentMon policy: '' @ rp_RejectionReason plan) p, None)
      | (plan, True) \<Rightarrow>
          (case round_trip pv inp (MsgQuery (rp_RewrittenSQL plan)) p of (p1, r, err) \<Rightarrow>
             if err = Some PxPanic then (p1, err)
             else (px_refreshAfter pv (rp_RewrittenStatements plan) r p1, err)))"

definition runSimpleQueryApproval ::
    "proxy_env \<Rightarrow> frame_input \<Rightarrow> string \<Rightarrow> ClassifiedStatement list \<Rightarrow> Decision list \<Rightarrow> nat \<Rightarrow> proxyConn \<Rightarrow> handled" where
  "runSimpleQueryApproval pv inp sql stmts decisions i p =
     (let rule = lookupStatementRule (fi_policy inp 1) (d_RuleName (decisions ! i));
          out = waitForApproval pv (approvalTimeout (decisions ! i) rule) (fi_race inp)
      in if ao_err out then (p, Some PxApprovalCancelled)
         else if ao_approved out then
           (case round_trip pv inp (MsgQuery sql) p of (p1, r, err) \<Rightarrow>
              if err = Some PxPanic then (p1, err) else (px_refreshAfter pv stmts r p1, err))
         else executeActions pv inp (MsgQuery sql)
                (DenyRoute (px_sm p) rule (''denied by AgentMon policy: '' @ approvalReason (ao_denyAction out)) ''42501'') p)"

text \<open>The allow path: the query is sent, its answer relayed, and a COPY run to its end.\<close>

definition merge_copy :: "upstreamResult \<Rightarrow> upstreamResult \<Rightarrow> upstreamResult" where
  "merge_copy r c =
     r\<lparr>ur_BytesIn := ur_BytesIn r + ur_BytesIn c, ur_BytesOut := ur_BytesOut r + ur_BytesOut c,
       ur_RowsByStmt := ur_RowsByStmt r @ ur_RowsByStmt c, ur_AffectedByStmt := ur_AffectedByStmt r @ ur_AffectedByStmt c,
       ur_LatencyMs := ur_LatencyMs c, ur_ErrorCode := (if ur_ErrorCode c \<noteq> '''' then ur_ErrorCode c else ur_ErrorCode r)\<rparr>"

definition run_allowed :: "proxy_env \<Rightarrow> frame_input \<Rightarrow> string \<Rightarrow> ClassifiedStatement list \<Rightarrow> proxyConn \<Rightarrow> handled" where
  "run_allowed pv inp sql stmts p =
     (case round_trip pv inp (MsgQuery sql) p of (p1, r, err) \<Rightarrow>
        if err = Some PxPanic then (p1, err)
        else if err = None \<and> (ur_YieldedToCopyIn r \<or> ur_YieldedToCopyOut r) then
          (case runCopyLoop pv (fi_copyClock inp) (if ur_YieldedToCopyOut r then BulkOpOut else BulkOpIn) p1 of (p2, c, cerr) \<Rightarrow>
             (px_refreshAfter pv stmts (merge_copy r c) p2, cerr))
        else (px_refreshAfter pv stmts r p1, err))"

definition too_large_message :: "nat \<Rightarrow> nat \<Rightarrow> string" where
  "too_large_message n cap =
     ''statement too large for AgentMon proxy: '' @ decimal n @ '' bytes > '' @ decimal cap @ '' cap''"

text \<open>The part of \<open>handleQuery\<close> after both interception passes.\<close>

definition judged_query :: "proxy_env \<Rightarrow> frame_input \<Rightarrow> RuleSet option \<Rightarrow> string \<Rightarrow> ClassifiedStatement list \<Rightarrow> proxyConn \<Rightarrow> handled" where
  "judged_query pv inp rs sql stmts p =
     (let decisions = evaluate_all pv rs stmts in
      if list_ex (\<lambda>d. d_Verb d = VerbDeny) decisions then
        let rule = lookupStatementRule rs (d_RuleName (the (find (\<lambda>d. d_Verb d = VerbDeny) decisions))) in
        (case pickDenySynth decisions of (rendered, sqlstate) \<Rightarrow>
           executeActions pv inp (MsgQuery sql) (DenyRoute (px_sm p) rule rendered sqlstate) p)
      else case first_index (\<lambda>d. d_Verb d = VerbRedirect) decisions of
        Some i \<Rightarrow> runSimpleQueryRedirect pv inp sql stmts decisions i p
      | None \<Rightarrow>
          (case first_index (\<lambda>d. d_Verb d = VerbApprove) decisions of
             Some i \<Rightarrow> runSimpleQueryApproval pv inp sql stmts decisions i p
           | None \<Rightarrow> run_allowed pv inp sql stmts p))"

definition proxy_handleQuery :: "proxy_env \<Rightarrow> frame_input \<Rightarrow> string \<Rightarrow> proxyConn \<Rightarrow> handled" where
  "proxy_handleQuery pv inp sql p =
     (if length sql > pv_MaxQueryBytes pv then
        (synthErrorAndRFQ ''54000'' (too_large_message (length sql) (pv_MaxQueryBytes pv)) p, Some PxFrameTooLargeClose)
      else
        let rs = fi_policy inp 0;
            classified = fst (px_classify pv rs p sql);
            prepare = (\<lambda>stmts. stmts \<noteq> [] \<and> HasPrefix (cs_RawVerb (hd stmts)) ''PREPARE'')
        in case (if \<not> prepare classified then Intercept classified [] (px_sqlCache p) (px_sm p) rs
                 else (None, classified, px_sqlCache p)) of
             (Some acts, _, c) \<Rightarrow> executeActions pv inp (MsgQuery sql) acts (p\<lparr>px_sqlCache := c\<rparr>)
           | (None, stmts, c) \<Rightarrow>
               let p0 = p\<lparr>px_sqlCache := c\<rparr>; decisions = evaluate_all pv rs stmts in
               case (if prepare stmts then Intercept stmts decisions (px_sqlCache p0) (px_sm p0) rs
                     else (None, stmts, px_sqlCache p0)) of
                 (Some acts, _, c1) \<Rightarrow> executeActions pv inp (MsgQuery sql) acts (p0\<lparr>px_sqlCache := c1\<rparr>)
               | (None, _, c1) \<Rightarrow>
                   judged_query pv inp rs sql stmts (p0\<lparr>px_sqlCache := c1\<rparr>))"

text \<open>One turn of the frame loop on a message: the handler, and whether the loop goes on after success.\<close>

definition is_extended :: "FrontendMessage \<Rightarrow> bool" where
  "is_extended msg =
     (case msg of
        MsgParse _ _ _ \<Rightarrow> True | MsgBind _ _ _ \<Rightarrow> True | MsgDescribe _ _ \<Rightarrow> True | MsgExecute _ _ \<Rightarrow> True
      | MsgSync \<Rightarrow> True | MsgFlush \<Rightarrow> True | MsgClose _ _ \<Rightarrow> True | _ \<Rightarrow> False)"

definition dispatch :: "proxy_env \<Rightarrow> frame_input \<Rightarrow> FrontendMessage \<Rightarrow> proxyConn \<Rightarrow> handled \<times> bool" where
  "dispatch pv inp msg p =
     (case msg of
        MsgQuery sql \<Rightarrow> (proxy_handleQuery pv inp sql p, True)
      | MsgTerminate \<Rightarrow> ((if uc_FE (px_uc p) then send_server msg p else p, None), False)
      | _ \<Rightarrow> if is_extended msg then (handleExtendedFrame pv inp msg p, True)
             else (handleUnsupportedFrame pv inp msg p, False))"


section \<open>What a handler may do to a connection\<close>

text \<open>
  Handlers only append to what was sent to the server, and every appended message satisfies \<open>P\<close>;
  they consume client input and keep the upstream side.
\<close>

definition advances :: "(FrontendMessage \<Rightarrow> bool) \<Rightarrow> proxyConn \<Rightarrow> proxyConn \<Rightarrow> bool" where
  "advances P p p' \<longleftrightarrow>
     (\<exists>ms. px_toServer p' = px_toServer p @ ms \<and> list_all P ms) \<and>
     suffix (px_fromClient p') (px_fromClient p) \<and> uc_FE (px_uc p') = uc_FE (px_uc p)"

lemma set_uc_sel [simp]:
  "px_uc (set_uc u p) = u" "px_fromClient (set_uc u p) = px_fromClient p" "px_toClient (set_uc u p) = px_toClient p"
  "px_wireCache (set_uc u p) = px_wireCache p" "px_sqlCache (set_uc u p) = px_sqlCache p"
  "ks_catalog (px_k (set_uc u p)) = ks_catalog (px_k p)"
  "px_pendingRedirectExec (set_uc u p) = px_pendingRedirectExec p"
  by (simp_all add: set_uc_def)

lemma set_sm_sel [simp]:
  "px_sm (set_sm s p) = s" "px_toServer (set_sm s p) = px_toServer p" "uc_FE (px_uc (set_sm s p)) = uc_FE (px_uc p)"
  "uc_fromServer (px_uc (set_sm s p)) = uc_fromServer (px_uc p)"
  "px_fromClient (set_sm s p) = px_fromClient p" "px_toClient (set_sm s p) = px_toClient p"
  "px_wireCache (set_sm s p) = px_wireCache p" "px_sqlCache (set_sm s p) = px_sqlCache p"
  "ks_catalog (px_k (set_sm s p)) = ks_catalog (px_k p)"
  by (simp_all add: set_sm_def)

lemma send_sel [simp]:
  "px_sm (send_server m p) = px_sm p" "px_toServer (send_server m p) = px_toServer p @ [m]"
  "uc_FE (px_uc (send_server m p)) = uc_FE (px_uc p)" "px_fromClient (send_server m p) = px_fromClient p"
  "px_wireCache (send_server m p) = px_wireCache p" "px_toClient (send_server m p) = px_toClient p"
  "px_k (send_client b p) = px_k p" "px_fromClient (send_client b p) = px_fromClient p"
  "px_wireCache (send_client b p) = px_wireCache p" "px_toClient (send_client b p) = px_toClient p @ [b]"
  by (simp_all add: send_server_def send_client_def)

lemma advancesI:
  "px_toServer p' = px_toServer p @ ms \<Longrightarrow> list_all P ms \<Longrightarrow> suffix (px_fromClient p') (px_fromClient p) \<Longrightarrow>
   uc_FE (px_uc p') = uc_FE (px_uc p) \<Longrightarrow> advances P p p'"
  unfolding advances_def by blast

lemma advances_same:
  "px_toServer p' = px_toServer p \<Longrightarrow> px_fromClient p' = px_fromClient p \<Longrightarrow> uc_FE (px_uc p') = uc_FE (px_uc p) \<Longrightarrow> advances P p p'"
  by (rule advancesI [where ms = "[]"]) simp_all

lemma advances_refl [simp]: "advances P p p"
  by (rule advances_same) simp_all

lemma advances_trans: "advances P p q \<Longrightarrow> advances P q r \<Longrightarrow> advances P p r"
  unfolding advances_def by (auto intro: suffix_order.trans)

lemma advances_mono: "advances P p q \<Longrightarrow> (\<And>m. P m \<Longrightarrow> Q m) \<Longrightarrow> advances Q p q"
  unfolding advances_def by (metis list.pred_mono_strong)

lemma advances_send: "P m \<Longrightarrow> advances P p (send_server m p)"
  by (rule advancesI [where ms = "[m]"]) simp_all

lemma advances_send_or: "P m \<Longrightarrow> advances P p (fst (send_or e m p))"
  by (simp add: send_or_def advances_send)

lemma advances_and_then:
  "advances P p (fst h) \<Longrightarrow> (\<And>q. h = (q, None) \<Longrightarrow> advances P q (fst (f q))) \<Longrightarrow> advances P p (fst (and_then h f))"
  by (cases h; cases "snd h") (auto simp: and_then_def intro: advances_trans)

lemma advances_after_loop: "advances P p (after_loop lo p)"
  by (rule advances_same) (simp_all add: after_loop_def)

lemma advances_drain: "advances P p (fst (drain pv clk p))"
  by (simp add: drain_def Let_def advances_after_loop)

lemma copyIn_rest: "suffix (co_clientRest (copyIn_loop fsize clk s r fwd ins ups)) ins"
  by (induction fsize clk s r fwd ins ups rule: copyIn_loop.induct) (auto intro: suffix_ConsI split: FrontendMessage.splits)

lemma advances_copy:
  assumes "\<And>m. copy_message m \<Longrightarrow> P m"
  shows "advances P p (fst (runCopyLoop pv clk dir p))"
proof (cases dir)
  case BulkOpIn
  let ?co = "runCopyInLoop (pv_size pv) clk (px_sm p) (px_fromClient p) (uc_fromServer (px_uc p))"
  have "list_all copy_message (co_toServer ?co)"
    using copyIn_loop_only_copy [of "[]" "pv_size pv" clk "(px_sm p)\<lparr>st_Phase := PhaseInCopyIn\<rparr>" zeroResult]
    by (simp add: runCopyInLoop_def)
  then have "list_all P (co_toServer ?co)" by (rule list.pred_mono_strong) (rule assms)
  moreover have "suffix (co_clientRest ?co) (px_fromClient p)" by (simp add: runCopyInLoop_def copyIn_rest)
  ultimately show ?thesis
    using BulkOpIn by (intro advancesI [where ms = "co_toServer ?co"])
      (simp_all add: runCopyLoop_def Let_def after_loop_def)
qed (simp_all add: runCopyLoop_def Let_def advances_after_loop)

text \<open>A load of the catalog sends catalog queries.\<close>

lemma advances_catalog:
  assumes "catalog_io (px_uc p) (ks_conn k)" "\<And>m. catalog_query m \<Longrightarrow> P m"
  shows "advances P p (p\<lparr>px_k := k\<rparr>)"
proof -
  from assms(1) obtain ms where ms: "uc_toServer (ks_conn k) = px_toServer p @ ms" "list_all catalog_query ms"
      "uc_FE (ks_conn k) = uc_FE (px_uc p)" by (auto simp: catalog_io_def)
  have "list_all P ms" using ms(2) by (rule list.pred_mono_strong) (rule assms(2))
  with ms show ?thesis by (intro advancesI [where ms = ms]) simp_all
qed

lemma advances_refresh:
  assumes "\<And>m. catalog_query m \<Longrightarrow> P m"
  shows "advances P p (px_refreshPending pv p)" "advances P p (px_refreshAfter pv stmts r p)"
  unfolding px_refreshPending_def px_refreshAfter_def
  by (intro advances_catalog pg_loader.refreshPending_R pg_loader.refreshAfter_R assms; simp)+

text \<open>The session is inside a transaction, as far as the last ready message told.\<close>

definition in_tx :: "ConnState \<Rightarrow> bool" where
  "in_tx s \<longleftrightarrow> st_LastUpstreamRFQ s \<in> {CHR ''T'', CHR ''E''}"

definition plain_action :: "Action \<Rightarrow> bool" where
  "plain_action a = (case a of ActionApproverWait _ _ _ \<Rightarrow> False | _ \<Rightarrow> True)"

lemma DenyRoute_plain [simp]: "list_all plain_action (DenyRoute s r m q)"
  by (simp add: DenyRoute_def plain_action_def)

lemma DenyRoute_rollback: "ActionInjectRollback \<in> set (DenyRoute s r m q) \<Longrightarrow> in_tx s"
  by (simp add: DenyRoute_def in_tx_def split: if_splits)

lemma transition_actions:
  assumes "TransitionWithParser env view classify rules svc s f c = (s', acts, c')"
  shows "(\<exists>t cs r. acts = [ActionApproverWait t cs r]) \<or> list_all plain_action acts" (is ?plain)
    "ActionInjectRollback \<in> set acts \<Longrightarrow> in_tx s"
proof -
  show ?plain using assms
    by (cases f) (auto simp: TransitionWithParser_def handler_defs Let_def plain_action_def
        DenyRoute_plain [unfolded plain_action_def] dest: scan_approve_kind
        split: if_splits scan_result.splits prod.splits option.splits)
  assume "ActionInjectRollback \<in> set acts"
  with assms show "in_tx s"
    by (cases f) (auto simp: TransitionWithParser_def handler_defs Let_def dest: scan_approve_kind DenyRoute_rollback
        split: if_splits scan_result.splits prod.splits option.splits)
qed

lemma advances_executeAction:
  assumes "\<And>m. catalog_query m \<Longrightarrow> P m" "act = ActionForward \<Longrightarrow> P msg"
    and "act = ActionInjectRollback \<Longrightarrow> P (MsgQuery ''ROLLBACK'')" "plain_action act"
  shows "advances P p (fst (executeAction h pv inp msg act p))"
proof (cases act)
  case ActionDrainUntilRFQ
  obtain p' r err where d: "drain pv (fi_clock inp) p = (p', r, err)" by (rule prod_cases3)
  have "advances P p p'" using advances_drain [of P p pv "fi_clock inp"] d by simp
  moreover have "advances P p' (p'\<lparr>px_pendingRedirectExec := []\<rparr>)" by (rule advances_same) simp_all
  moreover have "advances P (p'\<lparr>px_pendingRedirectExec := []\<rparr>) (px_refreshPending pv (p'\<lparr>px_pendingRedirectExec := []\<rparr>))"
    by (rule advances_refresh) (rule assms)
  ultimately have "advances P p p'" "advances P p (px_refreshPending pv (p'\<lparr>px_pendingRedirectExec := []\<rparr>))"
    using advances_trans by blast+
  with d ActionDrainUntilRFQ show ?thesis by (simp add: executeAction_def split: option.split)
qed (use assms in \<open>simp_all add: executeAction_def advances_send_or advances_same plain_action_def\<close>)

lemma advances_actions:
  assumes "\<And>m. catalog_query m \<Longrightarrow> P m" "ActionForward \<in> set acts \<Longrightarrow> P msg"
    and "ActionInjectRollback \<in> set acts \<Longrightarrow> P (MsgQuery ''ROLLBACK'')" "list_all plain_action acts"
  shows "advances P p (fst (executeActionsWith h pv inp msg acts p))"
  using assms(2-4)
proof (induction acts arbitrary: p)
  case (Cons act acts)
  have "advances P p (fst (executeAction h pv inp msg act p))"
    by (rule advances_executeAction [OF assms(1)]) (use Cons.prems in simp_all)
  then show ?case using Cons by (auto intro!: advances_and_then)
qed simp

text \<open>A deny route sends nothing of the client's: at most a rollback inside a transaction.\<close>

lemma advances_deny:
  assumes "\<And>m. catalog_query m \<Longrightarrow> P m" "in_tx s \<Longrightarrow> P (MsgQuery ''ROLLBACK'')"
  shows "advances P p (fst (executeActions pv inp msg (DenyRoute s r t q) p))"
    "advances P p (fst (executeDeny pv inp msg (DenyRoute s r t q) p))"
  unfolding executeActions_def executeDeny_def
  by (rule advances_actions; use assms DenyRoute_rollback in auto)+

text \<open>Whether the approver's answer is a yes that arrived in time.\<close>

definition approved :: "proxy_env \<Rightarrow> frame_input \<Rightarrow> bool" where
  "approved pv inp \<longleftrightarrow> pv_hasApprover pv \<and> (case fi_race inp of RaceResult yes failed _ \<Rightarrow> yes \<and> \<not> failed | _ \<Rightarrow> False)"

lemma waitForApproval_approved: "ao_approved (waitForApproval pv t (fi_race inp)) \<longleftrightarrow> approved pv inp"
  by (auto simp: waitForApproval_def approved_def Let_def split: approval_race.splits)

lemma waitForApproval_err: "ao_err (waitForApproval pv t race) \<longleftrightarrow> race = RaceCancelled"
  by (auto simp: waitForApproval_def Let_def split: approval_race.splits)

lemma cacheApprovedParse_sel [simp]:
  "px_toServer (cacheApprovedParse n st p) = px_toServer p" "px_fromClient (cacheApprovedParse n st p) = px_fromClient p"
  "uc_FE (px_uc (cacheApprovedParse n st p)) = uc_FE (px_uc p)"
  by (simp_all add: cacheApprovedParse_def case_prod_beta)

lemma advances_approval_wait:
  assumes "\<And>m. catalog_query m \<Longrightarrow> P m" "in_tx (px_sm p) \<Longrightarrow> P (MsgQuery ''ROLLBACK'')" "approved pv inp \<Longrightarrow> P msg"
  shows "advances P p (fst (runApprovalWait pv inp msg t st r p))"
proof (cases "ao_approved (waitForApproval pv t (fi_race inp))")
  case True
  then have P: "P msg" using assms(3) by (simp add: waitForApproval_approved)
  define q where "q = (case msg of MsgParse n _ _ \<Rightarrow> cacheApprovedParse n st p | _ \<Rightarrow> p)"
  have "advances P p q" by (rule advances_same) (simp_all add: q_def split: FrontendMessage.split)
  moreover have "advances P q (fst (send_or PxPanic msg q))" using P by (simp add: advances_send_or)
  ultimately have "advances P p (fst (send_or PxPanic msg q))" by (rule advances_trans)
  with True show ?thesis by (simp add: runApprovalWait_def Let_def q_def)
next
  case False
  with advances_deny(2) [of P "px_sm p", OF assms(1,2)] show ?thesis by (simp add: runApprovalWait_def Let_def)
qed

text \<open>Sending a message and relaying the answer.\<close>

lemma advances_round_trip:
  assumes "P m"
  shows "advances P p (fst (round_trip pv inp m p))"
proof (cases "uc_FE (px_uc p)")
  case True
  have "advances P p (send_server m p)" using assms by (rule advances_send)
  then show ?thesis using True advances_trans [OF _ advances_drain] by (simp add: round_trip_def send_or_def)
qed (simp add: round_trip_def send_or_def)

lemma round_trip_refresh:
  assumes "P m" "\<And>m. catalog_query m \<Longrightarrow> P m"
  shows "advances P p (px_refreshAfter pv stmts r (fst (round_trip pv inp m p)))"
  by (rule advances_trans [OF _ advances_refresh(2)]) (simp_all add: assms advances_round_trip)

lemma advances_run_allowed:
  assumes "P (MsgQuery sql)" "\<And>m. catalog_query m \<Longrightarrow> P m" "\<And>m. copy_message m \<Longrightarrow> P m"
  shows "advances P p (fst (run_allowed pv inp sql stmts p))"
proof -
  obtain p1 r err where rt: "round_trip pv inp (MsgQuery sql) p = (p1, r, err)" by (rule prod_cases3)
  have p1: "advances P p p1" using advances_round_trip [of P "MsgQuery sql" p pv inp] assms(1) rt by simp
  let ?dir = "if ur_YieldedToCopyOut r then BulkOpOut else BulkOpIn"
  obtain p2 c cerr where copy: "runCopyLoop pv (fi_copyClock inp) ?dir p1 = (p2, c, cerr)" by (rule prod_cases3)
  have p2: "advances P p1 p2" using advances_copy [of P p1 pv "fi_copyClock inp" ?dir] assms(3) copy by simp
  have "advances P p (px_refreshAfter pv stmts (merge_copy r c) p2)" "advances P p (px_refreshAfter pv stmts r p1)"
    using advances_trans [OF p1 advances_refresh(2) [of P]] advances_trans [OF advances_trans [OF p1 p2] advances_refresh(2) [of P]]
      assms(2) by simp_all
  with rt copy p1 show ?thesis by (simp add: run_allowed_def)
qed

lemma advances_query_approval:
  assumes "\<And>m. catalog_query m \<Longrightarrow> P m" "in_tx (px_sm p) \<Longrightarrow> P (MsgQuery ''ROLLBACK'')" "approved pv inp \<Longrightarrow> P (MsgQuery sql)"
  shows "advances P p (fst (runSimpleQueryApproval pv inp sql stmts ds i p))"
proof -
  obtain p1 r err where rt: "round_trip pv inp (MsgQuery sql) p = (p1, r, err)" by (rule prod_cases3)
  have "approved pv inp \<Longrightarrow> advances P p p1" "approved pv inp \<Longrightarrow> advances P p (px_refreshAfter pv stmts r p1)"
    using advances_round_trip [of P "MsgQuery sql" p pv inp] round_trip_refresh [of P "MsgQuery sql" p pv stmts r inp] assms(1,3) rt
    by simp_all
  moreover note advances_deny(1) [of P "px_sm p", OF assms(1,2)]
  ultimately show ?thesis using rt by (simp add: runSimpleQueryApproval_def Let_def waitForApproval_approved)
qed

text \<open>A rewritten text that may be sent: one statement for the classifier, and that only reads.\<close>

definition read_only_rewrite :: "proxy_env \<Rightarrow> RuleSet option \<Rightarrow> proxyConn \<Rightarrow> string \<Rightarrow> bool" where
  "read_only_rewrite pv rs p sql \<longleftrightarrow> sql \<noteq> '''' \<and>
     (case px_classify pv rs p sql of (stmts, failed) \<Rightarrow> \<not> failed \<and> length stmts = 1 \<and> statementIsReadOnly (hd stmts))"

lemma planned_read_only:
  assumes "planRuntimeRedirect pv inp n sql stmt d p = (plan, True)"
  shows "read_only_rewrite pv (fi_policy inp (n + 1)) p (rp_RewrittenSQL plan) \<and> length (rp_RewrittenStatements plan) = 1"
  using assms
  by (auto simp: planRuntimeRedirect_def read_only_rewrite_def Let_def split: prod.splits option.splits if_splits)

lemma advances_query_redirect:
  assumes "\<And>m. catalog_query m \<Longrightarrow> P m"
    and "\<And>sql'. length stmts = 1 \<Longrightarrow> i = 0 \<Longrightarrow> read_only_rewrite pv (fi_policy inp 2) p sql' \<Longrightarrow> P (MsgQuery sql')"
  shows "advances P p (fst (runSimpleQueryRedirect pv inp sql stmts ds i p))"
proof -
  have err: "advances P p (synthErrorAndRFQ c m p)" for c m by (rule advances_same) (simp_all add: synthErrorAndRFQ_def)
  show ?thesis
  proof (cases "length stmts = 1 \<and> i = 0")
    case True
    obtain plan ok where plan: "planRuntimeRedirect pv inp 1 sql (stmts ! i) (ds ! i) p = (plan, ok)" by fastforce
    show ?thesis
    proof (cases ok)
      case ok: True
      obtain p1 r e where rt: "round_trip pv inp (MsgQuery (rp_RewrittenSQL plan)) p = (p1, r, e)" by (rule prod_cases3)
      have "read_only_rewrite pv (fi_policy inp 2) p (rp_RewrittenSQL plan)"
        using planned_read_only [of pv inp 1 sql "stmts ! i" "ds ! i" p plan] plan ok by (simp add: numeral_2_eq_2)
      then have "P (MsgQuery (rp_RewrittenSQL plan))" using assms(2) True by blast
      then have "advances P p p1" "advances P p (px_refreshAfter pv (rp_RewrittenStatements plan) r p1)"
        using advances_round_trip [of P "MsgQuery (rp_RewrittenSQL plan)" p pv inp] assms(1) rt
          round_trip_refresh [of P "MsgQuery (rp_RewrittenSQL plan)" p pv "rp_RewrittenStatements plan" r inp] by simp_all
      with True plan ok rt show ?thesis by (simp add: runSimpleQueryRedirect_def)
    qed (use True plan err in \<open>simp add: runSimpleQueryRedirect_def\<close>)
  qed (auto simp: runSimpleQueryRedirect_def err)
qed

section \<open>Complete mediation\<close>

text \<open>
  The specification of what may reach the server while one client message is handled, under one
  policy. \<open>query_statements\<close> are the statements that are judged: the classified ones, with a
  leading EXECUTE carrying the effects of what it executes.
\<close>

definition verbs :: "proxy_env \<Rightarrow> RuleSet option \<Rightarrow> ClassifiedStatement list \<Rightarrow> DecisionVerb list" where
  "verbs pv rs stmts = map d_Verb (evaluate_all pv rs stmts)"

abbreviation clean :: "DecisionVerb list \<Rightarrow> bool" where
  "clean vs \<equiv> list_all (\<lambda>v. v = VerbAllow \<or> v = VerbAudit) vs"

definition query_statements :: "proxy_env \<Rightarrow> RuleSet option \<Rightarrow> proxyConn \<Rightarrow> string \<Rightarrow> ClassifiedStatement list" where
  "query_statements pv rs p sql =
     (let stmts = fst (px_classify pv rs p sql) in
      if stmts \<noteq> [] \<and> HasPrefix (cs_RawVerb (hd stmts)) ''PREPARE'' then stmts
      else fst (snd (Intercept stmts [] (px_sqlCache p) (px_sm p) rs)))"

definition permitted_query :: "proxy_env \<Rightarrow> frame_input \<Rightarrow> RuleSet option \<Rightarrow> proxyConn \<Rightarrow> string \<Rightarrow> FrontendMessage \<Rightarrow> bool" where
  "permitted_query pv inp rs p sql m \<longleftrightarrow>
     (let vs = verbs pv rs (query_statements pv rs p sql) in
      (clean vs \<and> (m = MsgQuery sql \<or> copy_message m)) \<or>
      (m = MsgQuery sql \<and> VerbDeny \<notin> set vs \<and> VerbRedirect \<notin> set vs \<and> approved pv inp) \<or>
      (vs = [VerbRedirect] \<and> (\<exists>sql'. m = MsgQuery sql' \<and> read_only_rewrite pv rs p sql')))"

definition permitted_parse ::
    "proxy_env \<Rightarrow> frame_input \<Rightarrow> RuleSet option \<Rightarrow> proxyConn \<Rightarrow> string \<Rightarrow> string \<Rightarrow> 32 word list \<Rightarrow> FrontendMessage \<Rightarrow> bool" where
  "permitted_parse pv inp rs p name sql oids m \<longleftrightarrow>
     (let vs = verbs pv rs (fst (px_classify pv rs p sql)) in
      (m = MsgParse name sql oids \<and> clean vs) \<or>
      (m = MsgParse name sql oids \<and> approved pv inp \<and>
       (\<exists>pre post. vs = pre @ VerbApprove # post \<and> VerbDeny \<notin> set pre \<and> VerbApprove \<notin> set pre)) \<or>
      (vs = [VerbRedirect] \<and> (\<exists>sql'. m = MsgParse name sql' oids \<and> read_only_rewrite pv rs p sql')))"

definition permitted_call :: "proxy_env \<Rightarrow> frame_input \<Rightarrow> RuleSet option \<Rightarrow> proxyConn \<Rightarrow> 32 word \<Rightarrow> bool" where
  "permitted_call pv inp rs p oid \<longleftrightarrow>
     (case RuleSet_Service rs (pv_svc pv) of
        None \<Rightarrow> False
      | Some svc \<Rightarrow> svc_AllowFunctionCallProtocol svc) \<and>
     (let v = d_Verb (the (Evaluate (pv_env pv) (resolveStatementCatalog (function_call_stmt oid) (ks_catalog (px_k p))) rs (pv_svc pv)))
      in v \<noteq> VerbDeny \<and> (v = VerbApprove \<longrightarrow> approved pv inp))"

definition permitted :: "proxy_env \<Rightarrow> frame_input \<Rightarrow> RuleSet option \<Rightarrow> proxyConn \<Rightarrow> FrontendMessage \<Rightarrow> FrontendMessage \<Rightarrow> bool" where
  "permitted pv inp rs p msg m \<longleftrightarrow>
     catalog_query m \<or> (m = MsgQuery ''ROLLBACK'' \<and> in_tx (px_sm p)) \<or>
     (case msg of
        MsgQuery sql \<Rightarrow> permitted_query pv inp rs p sql m
      | MsgParse name sql oids \<Rightarrow> permitted_parse pv inp rs p name sql oids m
      | MsgBind _ statement _ \<Rightarrow> m = msg \<and> cache_look (px_wireCache p) statement \<noteq> None
      | MsgExecute portal _ \<Rightarrow> m = msg \<and> cache_look (px_wireCache p) (portalCacheKey portal) \<noteq> None
      | MsgFunctionCall oid _ \<Rightarrow> m = msg \<and> permitted_call pv inp rs p oid
      | MsgDescribe _ _ \<Rightarrow> m = msg | MsgSync \<Rightarrow> m = msg | MsgFlush \<Rightarrow> m = msg | MsgClose _ _ \<Rightarrow> m = msg
      | MsgTerminate \<Rightarrow> m = msg
      | _ \<Rightarrow> False)"

lemma permitted_catalog [simp]: "catalog_query m \<Longrightarrow> permitted pv inp rs p msg m"
  by (simp add: permitted_def)

lemma permitted_rollback [simp]: "in_tx (px_sm p) \<Longrightarrow> permitted pv inp rs p msg (MsgQuery ''ROLLBACK'')"
  by (simp add: permitted_def)

lemma verbs_simps [simp]:
  "verbs pv rs [] = []" "verbs pv rs (s # ss) = d_Verb (the (Evaluate (pv_env pv) s rs (pv_svc pv))) # verbs pv rs ss"
  "length (verbs pv rs ss) = length ss" "set (verbs pv rs ss) = d_Verb ` set (evaluate_all pv rs ss)"
  by (simp_all add: verbs_def evaluate_all_def image_image)

lemma clean_iff: "clean vs \<longleftrightarrow> VerbDeny \<notin> set vs \<and> VerbApprove \<notin> set vs \<and> VerbRedirect \<notin> set vs"
proof (induction vs)
  case (Cons v vs)
  then show ?case by (cases v) auto
qed simp

lemma first_index_None: "first_index P xs = None \<longleftrightarrow> (\<forall>x \<in> set xs. \<not> P x)"
  by (induction xs) auto

lemma first_index_Some: "first_index P xs = Some i \<Longrightarrow> i < length xs \<and> P (xs ! i)"
  by (induction xs arbitrary: i) (auto split: if_splits)

text \<open>Interception answers without forwarding, and only a deny route rolls back.\<close>

lemma Intercept_actions:
  assumes "Intercept stmts ds c s rs = (Some acts, stmts', c')"
  shows "list_all plain_action acts" "ActionForward \<notin> set acts" "ActionInjectRollback \<in> set acts \<Longrightarrow> in_tx s"
proof -
  have "(\<exists>r m q. acts = DenyRoute s r m q) \<or> (\<exists>e m. acts = [ActionSynthError e m '''', ActionSynthReadyForQuery (CHR ''I'')])"
    using assms by (auto simp: Intercept_def split: list.splits if_splits prod.splits option.splits)
  then show "list_all plain_action acts" "ActionForward \<notin> set acts" "ActionInjectRollback \<in> set acts \<Longrightarrow> in_tx s"
    by (auto dest: DenyRoute_rollback) (simp_all add: plain_action_def)
qed

lemma Intercept_prepare_keeps:
  assumes "stmts \<noteq> []" "HasPrefix (cs_RawVerb (hd stmts)) ''PREPARE''"
  shows "fst (snd (Intercept stmts ds c s rs)) = stmts"
  using assms by (auto simp: Intercept_def split: list.splits)

lemma advances_intercepted:
  assumes "Intercept stmts ds c (px_sm p) rs = (Some acts, stmts', c')"
    and "\<And>m. catalog_query m \<Longrightarrow> P m" "in_tx (px_sm p) \<Longrightarrow> P (MsgQuery ''ROLLBACK'')"
  shows "advances P q (fst (executeActions pv inp msg acts q))"
  unfolding executeActions_def
  by (rule advances_actions) (use assms Intercept_actions [OF assms(1)] in auto)

lemma advances_judged:
  assumes cat: "\<And>m. catalog_query m \<Longrightarrow> P m" and rb: "in_tx (px_sm p) \<Longrightarrow> P (MsgQuery ''ROLLBACK'')"
    and ok: "clean (verbs pv rs stmts) \<Longrightarrow> P (MsgQuery sql)" "\<And>m. clean (verbs pv rs stmts) \<Longrightarrow> copy_message m \<Longrightarrow> P m"
    and ap: "VerbDeny \<notin> set (verbs pv rs stmts) \<Longrightarrow> VerbRedirect \<notin> set (verbs pv rs stmts) \<Longrightarrow> approved pv inp \<Longrightarrow> P (MsgQuery sql)"
    and rw: "\<And>sql'. verbs pv rs stmts = [VerbRedirect] \<Longrightarrow> read_only_rewrite pv (fi_policy inp 2) p sql' \<Longrightarrow> P (MsgQuery sql')"
  shows "advances P p (fst (judged_query pv inp rs sql stmts p))"
proof -
  let ?ds = "evaluate_all pv rs stmts"
  have len: "length ?ds = length stmts" by (simp add: evaluate_all_def)
  show ?thesis
  proof (cases "list_ex (\<lambda>d. d_Verb d = VerbDeny) ?ds")
    case True
    then show ?thesis using advances_deny(1) [of P "px_sm p", OF cat rb]
      by (simp add: judged_query_def Let_def case_prod_beta)
  next
    case nodeny: False
    then have nd: "VerbDeny \<notin> set (verbs pv rs stmts)" by (auto simp: list_ex_iff)
    show ?thesis
    proof (cases "first_index (\<lambda>d. d_Verb d = VerbRedirect) ?ds")
      case (Some i)
      have "advances P p (fst (runSimpleQueryRedirect pv inp sql stmts ?ds i p))"
      proof (rule advances_query_redirect [OF cat])
        fix sql' assume one: "length stmts = 1" "i = 0" and ro: "read_only_rewrite pv (fi_policy inp 2) p sql'"
        from first_index_Some [OF Some] one len have "d_Verb (?ds ! 0) = VerbRedirect" by simp
        with one len have "verbs pv rs stmts = [VerbRedirect]" by (cases stmts) (simp_all add: evaluate_all_def)
        then show "P (MsgQuery sql')" by (rule rw [OF _ ro])
      qed
      with Some nodeny show ?thesis by (simp add: judged_query_def)
    next
      case noredir: None
      then have nr: "VerbRedirect \<notin> set (verbs pv rs stmts)" by (auto simp: first_index_None)
      show ?thesis
      proof (cases "first_index (\<lambda>d. d_Verb d = VerbApprove) ?ds")
        case (Some i)
        with noredir nodeny advances_query_approval [of P p pv inp sql stmts ?ds i, OF cat rb ap [OF nd nr]] show ?thesis
          by (simp add: judged_query_def)
      next
        case None
        then have "VerbApprove \<notin> set (verbs pv rs stmts)" by (auto simp: first_index_None)
        then have "clean (verbs pv rs stmts)" using nd nr by (simp add: clean_iff del: verbs_simps)
        with None noredir nodeny advances_run_allowed [of P sql p pv inp stmts, OF ok(1) cat ok(2)] show ?thesis
          by (simp add: judged_query_def)
      qed
    qed
  qed
qed

lemma advances_sqlCache [simp]: "advances P (p\<lparr>px_sqlCache := c\<rparr>) q = advances P p q"
  by (simp add: advances_def)

lemma read_only_sqlCache [simp]: "read_only_rewrite pv rs (p\<lparr>px_sqlCache := c\<rparr>) sql = read_only_rewrite pv rs p sql"
  by (simp add: read_only_rewrite_def px_classify_def)

lemma permitted_queryI:
  assumes "vs = verbs pv rs (query_statements pv rs p sql)"
  shows "clean vs \<Longrightarrow> permitted pv inp rs p (MsgQuery sql) (MsgQuery sql)"
    "clean vs \<Longrightarrow> copy_message m \<Longrightarrow> permitted pv inp rs p (MsgQuery sql) m"
    "VerbDeny \<notin> set vs \<Longrightarrow> VerbRedirect \<notin> set vs \<Longrightarrow> approved pv inp \<Longrightarrow> permitted pv inp rs p (MsgQuery sql) (MsgQuery sql)"
    "vs = [VerbRedirect] \<Longrightarrow> read_only_rewrite pv rs p sql' \<Longrightarrow> permitted pv inp rs p (MsgQuery sql) (MsgQuery sql')"
  using assms by (auto simp: permitted_def permitted_query_def Let_def)

lemma handleQuery_cases:
  obtains (large) "proxy_handleQuery pv inp sql p =
      (synthErrorAndRFQ ''54000'' (too_large_message (length sql) (pv_MaxQueryBytes pv)) p, Some PxFrameTooLargeClose)"
    | (intercepted) ss ds c0 acts ss' c where "Intercept ss ds c0 (px_sm p) (fi_policy inp 0) = (Some acts, ss', c)"
      "proxy_handleQuery pv inp sql p = executeActions pv inp (MsgQuery sql) acts (p\<lparr>px_sqlCache := c\<rparr>)"
    | (judged) c where
      "proxy_handleQuery pv inp sql p = judged_query pv inp (fi_policy inp 0) sql (query_statements pv (fi_policy inp 0) p sql) (p\<lparr>px_sqlCache := c\<rparr>)"
proof (cases "length sql > pv_MaxQueryBytes pv")
  case True
  then show ?thesis by (intro large) (simp add: proxy_handleQuery_def)
next
  case False
  define rs where "rs = fi_policy inp 0"
  define st where "st = fst (px_classify pv rs p sql)"
  show ?thesis
  proof (cases "st \<noteq> [] \<and> HasPrefix (cs_RawVerb (hd st)) ''PREPARE''")
    case True
    let ?ds = "evaluate_all pv rs st"
    obtain h ss c where i: "Intercept st ?ds (px_sqlCache p) (px_sm p) rs = (h, ss, c)" by (rule prod_cases3)
    have "query_statements pv rs p sql = st" using True by (simp add: query_statements_def st_def)
    moreover have "proxy_handleQuery pv inp sql p = (case h of
        Some acts \<Rightarrow> executeActions pv inp (MsgQuery sql) acts (p\<lparr>px_sqlCache := c\<rparr>)
      | None \<Rightarrow> judged_query pv inp rs sql st (p\<lparr>px_sqlCache := c\<rparr>))"
      using True i False by (cases h) (simp_all add: proxy_handleQuery_def rs_def [symmetric] st_def [symmetric])
    ultimately show ?thesis using i intercepted judged by (cases h) (auto simp: rs_def)
  next
    case np: False
    obtain h ss c where i: "Intercept st [] (px_sqlCache p) (px_sm p) rs = (h, ss, c)" by (rule prod_cases3)
    have np': "\<not> (ss \<noteq> [] \<and> HasPrefix (cs_RawVerb (hd ss)) ''PREPARE'')"
      using np i by (auto simp: Intercept_def split: list.splits if_splits prod.splits option.splits)
    have "query_statements pv rs p sql = ss" using np i by (auto simp: query_statements_def st_def)
    moreover have "proxy_handleQuery pv inp sql p = (case h of
        Some acts \<Rightarrow> executeActions pv inp (MsgQuery sql) acts (p\<lparr>px_sqlCache := c\<rparr>)
      | None \<Rightarrow> judged_query pv inp rs sql ss (p\<lparr>px_sqlCache := c\<rparr>))"
      using np np' i False by (cases h) (auto simp: proxy_handleQuery_def rs_def [symmetric] st_def [symmetric] Let_def)
    ultimately show ?thesis using i intercepted judged by (cases h) (auto simp: rs_def)
  qed
qed

lemma advances_large: "advances P p (synthErrorAndRFQ c m p)"
  by (rule advances_same) (simp_all add: synthErrorAndRFQ_def)

lemma advances_query:
  assumes rs: "fi_policy inp = (\<lambda>_. rs)"
  shows "advances (permitted pv inp rs p (MsgQuery sql)) p (fst (proxy_handleQuery pv inp sql p))" (is "advances ?P p _")
proof (cases rule: handleQuery_cases [of pv inp sql p])
  case (intercepted ss ds c0 acts ss' c)
  with rs have "Intercept ss ds c0 (px_sm p) rs = (Some acts, ss', c)" by simp
  from advances_intercepted [OF this, of ?P "p\<lparr>px_sqlCache := c\<rparr>" pv inp "MsgQuery sql"] intercepted(2) show ?thesis by simp
next
  case (judged c)
  let ?ss = "query_statements pv rs p sql"
  have "advances ?P (p\<lparr>px_sqlCache := c\<rparr>) (fst (judged_query pv inp rs sql ?ss (p\<lparr>px_sqlCache := c\<rparr>)))"
    by (rule advances_judged) (use permitted_queryI [OF refl, of pv rs p sql] rs in simp_all)
  with judged rs show ?thesis by simp
qed (simp add: advances_large)

text \<open>Extended frames.\<close>

lemma after_transition_sel [simp]:
  "px_toServer (after_transition msg st acts p) = px_toServer p" "px_fromClient (after_transition msg st acts p) = px_fromClient p"
  "uc_FE (px_uc (after_transition msg st acts p)) = uc_FE (px_uc p)" "px_sm (after_transition msg st acts p) = px_sm p"
  by (auto simp: after_transition_def preserveRedirectPortalMetadata_def markCatalogRefreshPendingForExecute_def
      markCatalogRefreshPendingForNeeds_def case_prod_beta split: FrontendMessage.splits list.splits option.splits)

lemma advances_transition:
  assumes T: "TransitionWithParser env wireCacheView classify rs svc (px_sm p) f (px_wireCache p) = (s', acts, c')"
    and cat: "\<And>m. catalog_query m \<Longrightarrow> P m" and rb: "in_tx (px_sm p) \<Longrightarrow> P (MsgQuery ''ROLLBACK'')"
    and fwd: "ActionForward \<in> set acts \<Longrightarrow> P msg"
    and ap: "\<And>t cs r. acts = [ActionApproverWait t cs r] \<Longrightarrow> approved pv inp \<Longrightarrow> P msg"
  shows "advances P p (fst (executeActions pv inp msg acts (after_transition msg st acts ((set_sm s' p)\<lparr>px_wireCache := c'\<rparr>))))"
    (is "advances P p (fst (executeActions pv inp msg acts ?q))")
proof -
  have q: "advances P p ?q" by (rule advances_same) simp_all
  have "in_tx (px_sm ?q) \<Longrightarrow> in_tx (px_sm p)" using transition_frame [OF T] by (simp add: in_tx_def)
  then have rb': "in_tx (px_sm ?q) \<Longrightarrow> P (MsgQuery ''ROLLBACK'')" using rb by blast
  have "advances P ?q (fst (executeActions pv inp msg acts ?q))"
  proof (cases "list_all plain_action acts")
    case True
    then show ?thesis unfolding executeActions_def
      using transition_actions(2) [OF T] by (intro advances_actions) (use cat rb fwd in auto)
  next
    case False
    then obtain t cs r where a: "acts = [ActionApproverWait t cs r]" using transition_actions(1) [OF T] by blast
    have w: "advances P ?q (fst (runApprovalWait pv inp msg t cs r ?q))"
      by (rule advances_approval_wait) (use cat rb' ap [OF a] in simp_all)
    have "fst (executeActions pv inp msg acts ?q) = fst (runApprovalWait pv inp msg t cs r ?q)"
      using a by (simp add: executeActions_def executeAction_def and_then_def split: prod.splits option.splits)
    with w show ?thesis by (simp only:)
  qed
  with q show ?thesis by (rule advances_trans)
qed

lemma advances_redirect_parse:
  assumes h: "tryHandleRedirectParse pv inp name sql oids stmts p = Some h"
    and cat: "\<And>m. catalog_query m \<Longrightarrow> P m" and rb: "in_tx (px_sm p) \<Longrightarrow> P (MsgQuery ''ROLLBACK'')"
    and rw: "\<And>sql'. verbs pv (fi_policy inp 1) stmts = [VerbRedirect] \<Longrightarrow> read_only_rewrite pv (fi_policy inp 3) p sql' \<Longrightarrow>
      P (MsgParse name sql' oids)"
  shows "advances P p (fst h)"
proof -
  let ?ds = "evaluate_all pv (fi_policy inp 1) stmts"
  let ?deny = "\<lambda>m. DenyRoute (px_sm p) zeroStatementRule m ''0A000''"
  from h obtain i where i: "first_index (\<lambda>d. d_Verb d = VerbRedirect) ?ds = Some i"
    and d: "\<not> list_ex (\<lambda>d. d_Verb d = VerbDeny \<or> d_Verb d = VerbApprove) ?ds"
    by (auto simp: tryHandleRedirectParse_def Let_def split: if_splits option.splits)
  note deny = advances_deny(1) [of P "px_sm p", OF cat rb]
  show ?thesis
  proof (cases "length stmts = 1 \<and> i = 0")
    case False
    with h i d have "h = executeActions pv inp (MsgParse name sql oids) (?deny multi_redirect_message) p"
      by (auto simp: tryHandleRedirectParse_def Let_def)
    then show ?thesis using deny by simp
  next
    case one: True
    then have "d_Verb (?ds ! 0) = VerbRedirect" using first_index_Some [OF i] by simp
    with one have vs: "verbs pv (fi_policy inp 1) stmts = [VerbRedirect]" by (cases stmts) (simp_all add: evaluate_all_def)
    obtain plan ok where plan: "planRuntimeRedirect pv inp 2 sql (hd stmts) (hd ?ds) p = (plan, ok)" by fastforce
    show ?thesis
    proof (cases ok)
      case False
      let ?acts = "?deny (''redirect rejected by AgentMon policy: '' @ rp_RejectionReason plan)"
      let ?q = "if \<not> containsCloseAction ?acts then set_sm ((px_sm p)\<lparr>st_Absorbing := True\<rparr>) p else p"
      have "h = executeActions pv inp (MsgParse name sql oids) ?acts ?q"
        using h i d one plan False by (simp add: tryHandleRedirectParse_def Let_def)
      moreover have "advances P p ?q" by (rule advances_same) simp_all
      ultimately show ?thesis using advances_trans deny by blast
    next
      case True
      have "read_only_rewrite pv (fi_policy inp 3) p (rp_RewrittenSQL plan)"
        using planned_read_only [of pv inp 2 sql "hd stmts" "hd ?ds" p plan] plan True by (simp add: eval_nat_numeral)
      then have P: "P (MsgParse name (rp_RewrittenSQL plan) oids)" by (rule rw [OF vs])
      obtain c where "h = and_then (send_or PxNoUpstream (MsgParse name (rp_RewrittenSQL plan) oids) (p\<lparr>px_wireCache := c\<rparr>))
          (\<lambda>p2. (set_sm ((px_sm p2)\<lparr>st_UpstreamDirtySinceSync := True\<rparr>) p2, None))"
        using h i d one plan True by (auto simp: tryHandleRedirectParse_def Let_def case_prod_beta)
      moreover have "advances P p (p\<lparr>px_wireCache := c\<rparr>)" by (rule advances_same) simp_all
      moreover have "advances P q (set_sm s q)" for q s by (rule advances_same) simp_all
      ultimately show ?thesis
        using advances_trans [OF _ advances_and_then [OF advances_send_or [of P, OF P]]] by simp
    qed
  qed
qed

lemma redirect_parse_None:
  assumes "tryHandleRedirectParse pv inp name sql oids stmts p = None"
  shows "VerbRedirect \<notin> set (verbs pv (fi_policy inp 1) stmts) \<or> VerbDeny \<in> set (verbs pv (fi_policy inp 1) stmts) \<or>
    VerbApprove \<in> set (verbs pv (fi_policy inp 1) stmts)"
  using assms
  by (auto simp: tryHandleRedirectParse_def Let_def first_index_None list_ex_iff case_prod_beta
      split: if_splits option.splits bool.splits) (metis image_eqI)+

lemma batch_passes_verbs:
  "batch_passes (pv_env pv) (pv_svc pv) (rs, stmts) \<longleftrightarrow> VerbDeny \<notin> set (verbs pv rs stmts) \<and> VerbApprove \<notin> set (verbs pv rs stmts)"
  by (induction stmts) (auto simp: evaluate_all_def)

lemma scan_approve_split:
  "scan_statements (pv_env pv) rs (pv_svc pv) stmts = ScanApprove a \<Longrightarrow>
   \<exists>pre post. verbs pv rs stmts = pre @ VerbApprove # post \<and> VerbDeny \<notin> set pre \<and> VerbApprove \<notin> set pre"
proof (induction stmts)
  case (Cons s stmts)
  let ?v = "d_Verb (the (Evaluate (pv_env pv) s rs (pv_svc pv)))"
  show ?case
  proof (cases "?v = VerbApprove")
    case False
    with Cons.prems have "?v \<noteq> VerbDeny" "scan_statements (pv_env pv) rs (pv_svc pv) stmts = ScanApprove a"
      by (auto simp: Let_def split: if_splits)
    with Cons.IH obtain pre post where "verbs pv rs stmts = pre @ VerbApprove # post" "VerbDeny \<notin> set pre" "VerbApprove \<notin> set pre"
      by blast
    with False \<open>?v \<noteq> VerbDeny\<close> show ?thesis by (intro exI [of _ "?v # pre"] exI [of _ post]) auto
  qed (auto intro: exI [of _ "[]"])
qed simp

lemma advances_parse:
  assumes rs: "fi_policy inp = (\<lambda>_. rs)" and msg: "msg = MsgParse name sql oids"
  shows "advances (permitted pv inp rs p msg) p (fst (handleExtendedFrame pv inp msg p))"
proof -
  let ?P = "permitted pv inp rs p msg"
  define st where "st = fst (px_classify pv rs p sql)"
  let ?classify = "\<lambda>sql. fst (px_classify pv rs p sql)"
  let ?redir = "if st \<noteq> [] then tryHandleRedirectParse pv inp name sql oids st p else None"
  have parse: "?P m \<longleftrightarrow> catalog_query m \<or> m = MsgQuery ''ROLLBACK'' \<and> in_tx (px_sm p) \<or> permitted_parse pv inp rs p name sql oids m"
    for m by (simp add: permitted_def msg)
  show ?thesis
  proof (cases ?redir)
    case (Some h)
    then have "tryHandleRedirectParse pv inp name sql oids st p = Some h" by (simp split: if_splits)
    then have "advances ?P p (fst h)"
      by (rule advances_redirect_parse) (auto simp: rs parse permitted_parse_def st_def simp del: verbs_simps)
    with Some show ?thesis by (auto simp: handleExtendedFrame_def msg rs st_def [symmetric] Let_def split: if_splits)
  next
    case None
    obtain s' acts c' where T: "TransitionWithParser (pv_env pv) wireCacheView ?classify rs (pv_svc pv) (px_sm p)
        (ParseFrame name sql) (px_wireCache p) = (s', acts, c')" by (rule prod_cases3)
    then have hp: "handleParse (pv_env pv) wireCacheView ?classify rs (pv_svc pv) (px_sm p) name sql (px_wireCache p) = (s', acts, c')"
      by (simp add: TransitionWithParser_def)
    have "advances ?P p (fst (executeActions pv inp msg acts (after_transition msg st acts ((set_sm s' p)\<lparr>px_wireCache := c'\<rparr>))))"
    proof (rule advances_transition [OF T])
      assume "ActionForward \<in> set acts"
      then have "batch_passes (pv_env pv) (pv_svc pv) (rs, st)" using parse_forward_iff [OF hp] by (simp add: st_def)
      then have "clean (verbs pv rs st)"
        using None redirect_parse_None [of pv inp name sql oids st p]
        by (cases "st = []") (auto simp: clean_iff batch_passes_verbs rs simp del: verbs_simps(4))
      then show "?P msg" unfolding parse permitted_parse_def by (simp add: msg st_def del: verbs_simps)
    next
      fix t cs r assume "acts = [ActionApproverWait t cs r]" "approved pv inp"
      moreover from this(1) hp obtain a where "scan_statements (pv_env pv) rs (pv_svc pv) st = ScanApprove a"
        by (auto simp: handleParse_def st_def DenyRoute_def Let_def split: if_splits scan_result.splits)
      ultimately show "?P msg" using scan_approve_split [of pv rs st a]
        unfolding parse permitted_parse_def by (simp add: msg st_def del: verbs_simps)
    qed simp_all
    with None T show ?thesis unfolding st_def by (auto simp: handleExtendedFrame_def msg rs Let_def split: if_splits)
  qed
qed

lemma extended_frame:
  assumes "frameFromPgproto msg = Some f" "\<forall>n q oids. msg \<noteq> MsgParse n q oids"
    and "TransitionWithParser (pv_env pv) wireCacheView (\<lambda>sql. fst (px_classify pv (fi_policy inp 0) p sql)) (fi_policy inp 0) (pv_svc pv)
      (px_sm p) f (px_wireCache p) = (s', acts, c')"
  shows "handleExtendedFrame pv inp msg p =
    executeActions pv inp msg acts (after_transition msg [] acts ((set_sm s' p)\<lparr>px_wireCache := c'\<rparr>))"
  using assms by (simp add: handleExtendedFrame_def Let_def split: FrontendMessage.splits)

lemma advances_frame:
  assumes "frameFromPgproto msg = Some f" "\<forall>n q oids. msg \<noteq> MsgParse n q oids" "\<forall>q. msg \<noteq> MsgQuery q"
    and "\<And>s' acts c'. TransitionWithParser (pv_env pv) wireCacheView (\<lambda>sql. fst (px_classify pv (fi_policy inp 0) p sql)) (fi_policy inp 0)
      (pv_svc pv) (px_sm p) f (px_wireCache p) = (s', acts, c') \<Longrightarrow> ActionForward \<in> set acts \<Longrightarrow> P msg"
    and "\<And>m. catalog_query m \<Longrightarrow> P m" "in_tx (px_sm p) \<Longrightarrow> P (MsgQuery ''ROLLBACK'')"
  shows "advances P p (fst (handleExtendedFrame pv inp msg p))"
proof -
  obtain s' acts c' where T: "TransitionWithParser (pv_env pv) wireCacheView (\<lambda>sql. fst (px_classify pv (fi_policy inp 0) p sql))
      (fi_policy inp 0) (pv_svc pv) (px_sm p) f (px_wireCache p) = (s', acts, c')" by (rule prod_cases3)
  have "acts \<noteq> [ActionApproverWait t cs r]" for t cs r
    using T assms(1-3)
    by (cases msg) (auto simp: TransitionWithParser_def handler_defs Let_def split: if_splits prod.splits option.splits)
  then have "advances P p (fst (executeActions pv inp msg acts (after_transition msg [] acts ((set_sm s' p)\<lparr>px_wireCache := c'\<rparr>))))"
    using assms(4) [OF T] assms(5,6) by (intro advances_transition [OF T]) blast+
  then show ?thesis by (simp only: extended_frame [OF assms(1,2) T])
qed

lemma wire_Get_look: "cache_inv c \<Longrightarrow> view_Get wireCacheView c k = (c', v) \<Longrightarrow> v = None \<longleftrightarrow> cache_look c k = None"
  using lru.get_law [of c k] by (auto simp: wireCacheView_def wire_Get_def split: prod.splits)

lemma advances_extended:
  assumes "fi_policy inp = (\<lambda>_. rs)" "cache_inv (px_wireCache p)" "is_extended msg"
  shows "advances (permitted pv inp rs p msg) p (fst (handleExtendedFrame pv inp msg p))"
proof (cases "\<exists>n q oids. msg = MsgParse n q oids")
  case True
  then show ?thesis using advances_parse [OF assms(1)] by blast
next
  case False
  obtain f where f: "frameFromPgproto msg = Some f" using assms(3) by (cases msg) (simp_all add: is_extended_def)
  show ?thesis
  proof (rule advances_frame [OF f])
    fix s' acts c'
    assume T: "TransitionWithParser (pv_env pv) wireCacheView (\<lambda>sql. fst (px_classify pv (fi_policy inp 0) p sql)) (fi_policy inp 0)
      (pv_svc pv) (px_sm p) f (px_wireCache p) = (s', acts, c')" and fwd: "ActionForward \<in> set acts"
    have "msg = MsgBind portal n args \<Longrightarrow> cache_look (px_wireCache p) n \<noteq> None" for portal n args
      using T fwd f wire_Get_look [OF assms(2), of n]
      by (auto simp: TransitionWithParser_def handleBind_def split: if_splits prod.splits option.splits)
    moreover have "msg = MsgExecute portal n \<Longrightarrow> cache_look (px_wireCache p) (portalCacheKey portal) \<noteq> None" for portal n
      using T fwd f wire_Get_look [OF assms(2), of "portalCacheKey portal"]
      by (auto simp: TransitionWithParser_def handleExecute_def split: if_splits prod.splits option.splits)
    ultimately show "permitted pv inp rs p msg msg"
      using assms(3) False by (cases msg) (auto simp: permitted_def is_extended_def)
  qed (use assms(3) False in \<open>auto simp: is_extended_def\<close>)
qed

lemma advances_function_call:
  assumes "fi_policy inp = (\<lambda>_. rs)"
  shows "advances (permitted pv inp rs p (MsgFunctionCall oid args)) p (fst (handleFunctionCall pv inp oid args p))"
proof -
  let ?m = "MsgFunctionCall oid args"
  let ?P = "permitted pv inp rs p ?m"
  have err: "advances ?P p (synthesizeError c t p)" for c t by (rule advances_same) (simp_all add: synthesizeError_def)
  have deny: "advances ?P p (fst (executeActions pv inp ?m (DenyRoute (px_sm p) r t q) p))" for r t q
    by (rule advances_deny) simp_all
  have send: "permitted_call pv inp rs p oid \<Longrightarrow> advances ?P p (fst (round_trip pv inp ?m p))"
    by (rule advances_round_trip) (simp add: permitted_def)
  show ?thesis
    using err deny send
    by (auto simp: handleFunctionCall_def assms Let_def case_prod_beta permitted_call_def waitForApproval_approved
        split: option.splits)
qed

lemma advances_dispatch:
  assumes "fi_policy inp = (\<lambda>_. rs)" "cache_inv (px_wireCache p)"
  shows "advances (permitted pv inp rs p msg) p (fst (fst (dispatch pv inp msg p)))"
proof -
  have err: "advances P p (synthesizeError c t p)" for P c t by (rule advances_same) (simp_all add: synthesizeError_def)
  show ?thesis
    using advances_query [OF assms(1)] advances_extended [OF assms] advances_function_call [OF assms(1)] err
    by (cases msg) (auto simp: dispatch_def handleUnsupportedFrame_def is_extended_def permitted_def intro!: advances_send)
qed


section \<open>The frame loop (simplequery.go)\<close>

text \<open>Whatever the policy reads return, a turn only consumes client input.\<close>

lemma advances_query_any: "advances (\<lambda>_. True) p (fst (proxy_handleQuery pv inp sql p))"
proof (cases rule: handleQuery_cases [of pv inp sql p])
  case (intercepted ss ds c0 acts ss' c)
  from advances_intercepted [OF intercepted(1), of "\<lambda>_. True" "p\<lparr>px_sqlCache := c\<rparr>" pv inp "MsgQuery sql"] intercepted(2)
  show ?thesis by simp
next
  case (judged c)
  with advances_judged [of "\<lambda>_. True" "p\<lparr>px_sqlCache := c\<rparr>"] show ?thesis by simp
qed (simp add: advances_large)

lemma advances_parse_any: "advances (\<lambda>_. True) p (fst (handleExtendedFrame pv inp (MsgParse name sql oids) p))"
proof -
  let ?msg = "MsgParse name sql oids"
  let ?classify = "\<lambda>sql. fst (px_classify pv (fi_policy inp 0) p sql)"
  obtain s' acts c' where T: "TransitionWithParser (pv_env pv) wireCacheView ?classify (fi_policy inp 0) (pv_svc pv) (px_sm p)
      (ParseFrame name sql) (px_wireCache p) = (s', acts, c')" by (rule prod_cases3)
  have "advances (\<lambda>_. True) p (fst (executeActions pv inp ?msg acts (after_transition ?msg st acts ((set_sm s' p)\<lparr>px_wireCache := c'\<rparr>))))"
    for st by (rule advances_transition [OF T]) simp_all
  moreover have "tryHandleRedirectParse pv inp name sql oids st p = Some h \<Longrightarrow> advances (\<lambda>_. True) p (fst h)" for st h
    by (rule advances_redirect_parse) simp_all
  ultimately show ?thesis using T by (simp add: handleExtendedFrame_def Let_def split: option.split)
qed

lemma advances_dispatch_any: "advances (\<lambda>_. True) p (fst (fst (dispatch pv inp msg p)))"
proof -
  have err: "advances (\<lambda>_. True) p (synthesizeError c t p)" for c t by (rule advances_same) (simp_all add: synthesizeError_def)
  have call: "advances (\<lambda>_. True) p (fst (handleFunctionCall pv inp oid args p))" for oid args
    using err advances_deny(1) [of "\<lambda>_. True"] advances_round_trip [of "\<lambda>_. True"]
    by (simp add: handleFunctionCall_def Let_def case_prod_beta split: option.split)
  have frame: "frameFromPgproto msg = Some f \<Longrightarrow> \<forall>n q oids. msg \<noteq> MsgParse n q oids \<Longrightarrow> \<forall>q. msg \<noteq> MsgQuery q \<Longrightarrow>
      advances (\<lambda>_. True) p (fst (handleExtendedFrame pv inp msg p))" for f
    by (rule advances_frame) simp_all
  show ?thesis
    using advances_query_any advances_parse_any err call frame
    by (cases msg) (simp_all add: dispatch_def handleUnsupportedFrame_def is_extended_def advances_send)
qed

lemma dispatch_consumes: "dispatch pv inp msg p = ((p', err), b) \<Longrightarrow> suffix (px_fromClient p') (px_fromClient p)"
  using advances_dispatch_any [of p pv inp msg] by (simp add: advances_def)

lemma dispatch_decreases:
  "((p', err), b) = dispatch pv inp msg (p\<lparr>px_fromClient := rest\<rparr>) \<Longrightarrow> length (px_fromClient p') < Suc (length rest)"
  using dispatch_consumes [of pv inp msg "p\<lparr>px_fromClient := rest\<rparr>" p' err b] suffix_length_le [of "px_fromClient p'" rest] by simp

text \<open>
  The loop, with the inputs of its turns numbered. Each turn takes one message off the client's
  input and a handler never puts any back, so the loop ends.
\<close>

function simpleQueryLoop :: "proxy_env \<Rightarrow> (nat \<Rightarrow> frame_input) \<Rightarrow> nat \<Rightarrow> proxyConn \<Rightarrow> handled" where
  "simpleQueryLoop pv inps n p =
     (case px_fromClient p of
        [] \<Rightarrow> (p, Some (PxLoop ErrReceive))
      | CtxDone # rest \<Rightarrow> (p\<lparr>px_fromClient := rest\<rparr>, Some (PxLoop ErrContext))
      | RecvFailed # rest \<Rightarrow> (p\<lparr>px_fromClient := rest\<rparr>, Some (PxLoop ErrReceive))
      | Recv msg # rest \<Rightarrow>
          (case dispatch pv (inps n) msg (p\<lparr>px_fromClient := rest\<rparr>) of ((p', err), continue) \<Rightarrow>
             if err = None \<and> continue then simpleQueryLoop pv inps (Suc n) p' else (p', err)))"
  by pat_completeness auto

termination
  by (relation "measure (\<lambda>(pv, inps, n, p). length (px_fromClient p))") (auto dest: dispatch_decreases)

declare simpleQueryLoop.simps [simp del]


section \<open>Answers to the client\<close>

text \<open>Handlers only append to what was sent to the client.\<close>

lemma px_toClient_drain: "prefix (px_toClient p) (px_toClient (fst (drain pv clk p)))"
  by (simp add: drain_def after_loop_def Let_def)

lemma toClient_executeAction:
  assumes "plain_action act"
  shows "prefix (px_toClient p) (px_toClient (fst (executeAction h pv inp msg act p)))"
proof (cases act)
  case ActionDrainUntilRFQ
  then show ?thesis using px_toClient_drain [of p pv "fi_clock inp"]
    by (simp add: executeAction_def px_refreshPending_def case_prod_beta split: option.split)
qed (use assms in \<open>simp_all add: executeAction_def send_or_def plain_action_def\<close>)

lemma toClient_and_then:
  "prefix xs (px_toClient (fst h)) \<Longrightarrow> (\<And>q. prefix (px_toClient q) (px_toClient (fst (f q)))) \<Longrightarrow> prefix xs (px_toClient (fst (and_then h f)))"
  by (cases h; cases "snd h") (auto simp: and_then_def intro: prefix_order.trans)

lemma toClient_actions:
  "list_all plain_action acts \<Longrightarrow> prefix (px_toClient p) (px_toClient (fst (executeActionsWith h pv inp msg acts p)))"
  by (induction acts arbitrary: p) (auto intro!: toClient_and_then toClient_executeAction)

lemma error_first:
  assumes "list_all plain_action rest"
  shows "\<exists>more. px_toClient (fst (executeActions pv inp msg (ActionSynthError code t sev # rest) p)) =
     px_toClient p @ ErrorResponse (if sev = '''' then ''ERROR'' else sev) code t # more"
proof -
  let ?q = "send_client (ErrorResponse (if sev = '''' then ''ERROR'' else sev) code t) p"
  from toClient_actions [OF assms, of ?q "runApprovalWait pv inp msg" pv inp msg] obtain more where
    "px_toClient (fst (executeActionsWith (runApprovalWait pv inp msg) pv inp msg rest ?q)) = px_toClient ?q @ more"
    by (auto simp: prefix_def)
  then show ?thesis by (simp add: executeActions_def executeAction_def and_then_def)
qed

lemma deny_error_first:
  "\<exists>sev more. px_toClient (fst (executeActions pv inp msg (DenyRoute s r t code) p)) =
     px_toClient p @ ErrorResponse sev code t # more"
proof -
  from DenyRoute_error [of s r t code] obtain sev rest where eq: "DenyRoute s r t code = ActionSynthError code t sev # rest" by blast
  have "list_all plain_action (ActionSynthError code t sev # rest)" unfolding eq [symmetric] by (rule DenyRoute_plain)
  then have "list_all plain_action rest" by simp
  from error_first [OF this, of pv inp msg code t sev p] show ?thesis unfolding eq by blast
qed

lemma intercepted_error_first:
  assumes "Intercept ss ds c s rs = (Some acts, ss', c')"
  shows "\<exists>sev code t more. px_toClient (fst (executeActions pv inp msg acts p)) = px_toClient p @ ErrorResponse sev code t # more"
proof -
  have "(\<exists>r m q. acts = DenyRoute s r m q) \<or> (\<exists>e m. acts = [ActionSynthError e m '''', ActionSynthReadyForQuery (CHR ''I'')])"
    using assms by (auto simp: Intercept_def split: list.splits if_splits prod.splits option.splits)
  then show ?thesis
    using deny_error_first [of pv inp msg s _ _ _ p] error_first [of "[ActionSynthReadyForQuery (CHR ''I'')]" pv inp msg _ _ "''''" p]
    by (auto simp: plain_action_def) blast+
qed


section \<open>Properties\<close>


text \<open>A connection in a fresh session, with a server that has nothing more to say.\<close>

definition sample_pv :: proxy_env where
  "sample_pv = \<lparr>pv_env = sample_env, pv_svc = ''db'', pv_classify = (\<lambda>_ _. ([begin_stmt], False)), pv_backend = False,
     pv_Plan = (\<lambda>_ _ _. Inl ''''), pv_digest = (\<lambda>s. s), pv_size = (\<lambda>_. 1),
     pv_key = \<lparr>ck_Service = ''db'', ck_Database = '''', ck_DBUser = ''''\<rparr>, pv_MaxQueryBytes = 100, pv_hasApprover = False\<rparr>"

definition sample_inp :: "RuleSet option \<Rightarrow> frame_input" where
  "sample_inp rs = \<lparr>fi_policy = (\<lambda>_. rs), fi_race = RaceTimer, fi_clock = \<lparr>clk_sentAt = 0, clk_ready = 0, clk_done = 0\<rparr>,
     fi_copyClock = \<lparr>clk_sentAt = 0, clk_ready = 0, clk_done = 0\<rparr>\<rparr>"

definition sample_px :: "FrontendMessage input list \<Rightarrow> proxyConn" where
  "sample_px ins = \<lparr>px_k = \<lparr>ks_store = None, ks_catalog = zeroContext '''', ks_catalogRefreshPending = False,
     ks_catalogSnapshotRefreshPending = False, ks_conn = sample_upstream []\<rparr>,
     px_wireCache = Cache_New 8, px_sqlCache = Cache_New 8, px_pendingRedirectExec = [], px_upstreamOpen = True,
     px_fromClient = ins, px_toClient = []\<rparr>"

lemmas sample_px_defs = sample_pv_def sample_inp_def sample_px_def sample_upstream_def


text \<open>
  C26: a query with a denied statement is rejected. Under one policy, if the policy denies any
  statement of a query, then nothing of the client's text reaches the server (only catalog queries,
  and a ROLLBACK if the session is in a transaction), and the first thing the client gets is an
  error.
\<close>

theorem denied_query_rejected:
  assumes "proxy_handleQuery pv inp sql p = (p', err)" "fi_policy inp = (\<lambda>_. rs)"
    and "VerbDeny \<in> set (verbs pv rs (query_statements pv rs p sql))"
  shows "(\<exists>ms. px_toServer p' = px_toServer p @ ms \<and>
      list_all (\<lambda>m. catalog_query m \<or> m = MsgQuery ''ROLLBACK'' \<and> in_tx (px_sm p)) ms) \<and>
    (\<exists>sev code t more. px_toClient p' = px_toClient p @ ErrorResponse sev code t # more)"
proof -
  let ?P = "\<lambda>m. catalog_query m \<or> m = MsgQuery ''ROLLBACK'' \<and> in_tx (px_sm p)"
  have p0: "p' = fst (proxy_handleQuery pv inp sql p)" using assms(1) by simp
  have "advances ?P p p' \<and> (\<exists>sev code t more. px_toClient p' = px_toClient p @ ErrorResponse sev code t # more)"
  proof (cases rule: handleQuery_cases [of pv inp sql p])
    case large
    with assms(1) show ?thesis by (auto simp: synthErrorAndRFQ_def intro: advances_same)
  next
    case (intercepted ss ds c0 acts ss' c)
    have p': "p' = fst (executeActions pv inp (MsgQuery sql) acts (p\<lparr>px_sqlCache := c\<rparr>))"
      using p0 unfolding intercepted(2) .
    from advances_intercepted [OF intercepted(1), of ?P "p\<lparr>px_sqlCache := c\<rparr>" pv inp "MsgQuery sql"]
      intercepted_error_first [OF intercepted(1), of pv inp "MsgQuery sql" "p\<lparr>px_sqlCache := c\<rparr>"]
    show ?thesis unfolding p' by simp
  next
    case (judged c)
    let ?q = "p\<lparr>px_sqlCache := c\<rparr>"
    let ?ds = "evaluate_all pv rs (query_statements pv rs p sql)"
    let ?rule = "lookupStatementRule rs (d_RuleName (the (find (\<lambda>d. d_Verb d = VerbDeny) ?ds)))"
    from assms(3) have "list_ex (\<lambda>d. d_Verb d = VerbDeny) ?ds" by (force simp: list_ex_iff)
    with p0 judged assms(2) have p': "p' = fst (executeActions pv inp (MsgQuery sql)
        (DenyRoute (px_sm ?q) ?rule (fst (pickDenySynth ?ds)) (snd (pickDenySynth ?ds))) ?q)"
      by (simp add: judged_query_def Let_def case_prod_beta)
    have "advances ?P ?q p'" unfolding p' by (rule advances_deny) simp_all
    moreover have "\<exists>sev more. px_toClient p' = px_toClient ?q @ ErrorResponse sev (snd (pickDenySynth ?ds)) (fst (pickDenySynth ?ds)) # more"
      unfolding p' by (rule deny_error_first)
    ultimately show ?thesis by auto
  qed
  then show ?thesis by (simp add: advances_def)
qed

lemma sample_statements: "query_statements sample_pv rs (sample_px ins) sql = [begin_stmt]"
proof -
  have "fst (px_classify sample_pv rs (sample_px ins) sql) = [begin_stmt]"
    by (simp add: px_classify_def resolving_Classify_def sample_px_defs zeroContext_def) code_simp
  then show ?thesis by (simp add: query_statements_def Intercept_def sample_stmt_def HasPrefix_def)
qed

theorem denied_query_rejected_witness:
  "\<exists>p' err sev code t more. proxy_handleQuery sample_pv (sample_inp (sample_rules VerbDeny)) ''BEGIN'' (sample_px []) = (p', err) \<and>
     px_toClient p' = ErrorResponse sev code t # more"
proof -
  obtain p' err where q: "proxy_handleQuery sample_pv (sample_inp (sample_rules VerbDeny)) ''BEGIN'' (sample_px []) = (p', err)"
    by fastforce
  have "VerbDeny \<in> set (verbs sample_pv (sample_rules VerbDeny) (query_statements sample_pv (sample_rules VerbDeny) (sample_px []) ''BEGIN''))"
    unfolding sample_statements by (simp add: sample_evaluate_the sample_pv_def evaluate_all_def)
  from denied_query_rejected [OF q _ this] q show ?thesis by (auto simp: sample_inp_def) (simp add: sample_px_def)
qed

end
