(* ===== verification/Pg_Session.thy ===== *)
theory Pg_Session
  imports Pg_Proxy
begin

text \<open>
  Sessions: the frame loop of \<open>src/internal/db/proxy/postgres/simplequery.go\<close> over a whole
  connection, composed of the dispatcher's turns. The states a session passes through are an
  inductive relation; the statements and portals the server holds are read off the messages that
  were sent to it, and the wire cache never claims one that the server does not hold.
\<close>


section \<open>The states of a session\<close>

text \<open>
  \<open>turn n p msg\<close>: after \<open>n\<close> turns the loop has received \<open>msg\<close> in state \<open>p\<close> and is about to handle it.
  Only turns that succeed and let the loop go on have a successor.
\<close>

inductive turn :: "proxy_env \<Rightarrow> (nat \<Rightarrow> frame_input) \<Rightarrow> proxyConn \<Rightarrow> nat \<Rightarrow> proxyConn \<Rightarrow> FrontendMessage \<Rightarrow> bool"
  for pv inps p0 where
  turn_first: "px_fromClient p0 = Recv msg # rest \<Longrightarrow> turn pv inps p0 0 (p0\<lparr>px_fromClient := rest\<rparr>) msg"
| turn_next: "turn pv inps p0 n p msg \<Longrightarrow> dispatch pv (inps n) msg p = ((p', None), True) \<Longrightarrow>
    px_fromClient p' = Recv msg' # rest \<Longrightarrow> turn pv inps p0 (Suc n) (p'\<lparr>px_fromClient := rest\<rparr>) msg'"

inductive_cases turn_0E: "turn pv inps p0 0 p msg"
inductive_cases turn_SucE: "turn pv inps p0 (Suc n) p msg"

text \<open>The policy read while a turn is handled; it does not change during the turn.\<close>

definition steady :: "(nat \<Rightarrow> frame_input) \<Rightarrow> bool" where
  "steady inps \<longleftrightarrow> (\<forall>n k. fi_policy (inps n) k = fi_policy (inps n) 0)"

lemma steady_const: "steady inps \<Longrightarrow> fi_policy (inps n) = (\<lambda>_. fi_policy (inps n) 0)"
  by (auto simp: steady_def)


section \<open>What the server holds\<close>

text \<open>The text behind each prepared statement and each portal, from the messages sent.\<close>

type_synonym held_texts = "(string \<Rightarrow> string option) \<times> (string \<Rightarrow> string option)"

fun server_sees :: "held_texts \<Rightarrow> FrontendMessage \<Rightarrow> held_texts" where
  "server_sees (S, P) (MsgParse name sql _) = (S(name := Some sql), P)"
| "server_sees (S, P) (MsgBind portal name _) = (S, P(portal := S name))"
| "server_sees (S, P) (MsgClose t name) =
     (if t = CHR ''S'' then (S(name := None), P) else if t = CHR ''P'' then (S, P(name := None)) else (S, P))"
| "server_sees sv _ = sv"

definition held :: "FrontendMessage list \<Rightarrow> held_texts" where
  "held ms = foldl server_sees (\<lambda>_. None, \<lambda>_. None) ms"

lemma held_snoc [simp]: "held (ms @ [m]) = server_sees (held ms) m"
  by (simp add: held_def)

text \<open>Every text the server holds was sent in a Parse.\<close>

definition parsed :: "FrontendMessage list \<Rightarrow> string \<Rightarrow> bool" where
  "parsed ms sql \<longleftrightarrow> (\<exists>name oids. MsgParse name sql oids \<in> set ms)"

lemma parsed_snoc: "parsed ms sql \<Longrightarrow> parsed (ms @ [m]) sql" "parsed (ms @ [MsgParse name sql oids]) sql"
  by (auto simp: parsed_def)

lemma held_sent: "(fst (held ms) n = Some sql \<longrightarrow> parsed ms sql) \<and> (snd (held ms) q = Some sql \<longrightarrow> parsed ms sql)"
proof (induction ms arbitrary: n q rule: rev_induct)
  case (snoc m ms)
  obtain S P where sv: "held ms = (S, P)" by fastforce
  with snoc show ?case by (cases m) (auto split: if_splits intro: parsed_snoc)
qed (simp add: held_def)

definition inert :: "FrontendMessage \<Rightarrow> bool" where
  "inert m \<longleftrightarrow> (\<forall>sv. server_sees sv m = sv)"

lemma inert_simps [simp]: "inert (MsgQuery q)" "copy_message m \<Longrightarrow> inert m" "catalog_query m \<Longrightarrow> inert m"
  "inert (MsgFunctionCall oid args)" "inert MsgTerminate" "inert (MsgDescribe t n)" "inert (MsgExecute q k)" "inert MsgSync" "inert MsgFlush"
  by (auto simp: inert_def catalog_query_def) (cases m; simp)

lemma held_inert: "list_all inert ms' \<Longrightarrow> held (ms @ ms') = held ms"
  by (induction ms' rule: rev_induct) (simp_all add: inert_def append_assoc [symmetric] del: append_assoc split_paired_All)

lemma advances_inert: "advances inert p p' \<Longrightarrow> held (px_toServer p') = held (px_toServer p)"
  by (auto simp: advances_def held_inert)


section \<open>The wire cache and the server\<close>

definition cache_backed :: "Cache \<Rightarrow> held_texts \<Rightarrow> bool" where
  "cache_backed c sv \<longleftrightarrow> cache_inv c \<and>
     (\<forall>n. wire_name n \<longrightarrow> cache_look c n \<noteq> None \<longrightarrow> fst sv n \<noteq> None) \<and>
     (\<forall>q. cache_look c (portalCacheKey q) \<noteq> None \<longrightarrow> snd sv q \<noteq> None)"

lemma backed_inv: "cache_backed c sv \<Longrightarrow> cache_inv c"
  by (simp add: cache_backed_def)

lemma has_Put: "cache_inv c \<Longrightarrow> cache_look (Cache_Put c k e) k' \<noteq> None \<Longrightarrow> k' = k \<or> cache_look c k' \<noteq> None"
  using lru.look_put [of c k e k'] by (cases "cache_look (Cache_Put c k e) k'") auto

lemma backed_put_statement:
  assumes "cache_backed c (S, P)" "wire_name n"
  shows "cache_backed (Cache_Put c n e) (S(n := Some sql), P)"
  using assms lru.put_law [of c n e] has_Put [of c n e] wire_name_neq_portal [of n]
  unfolding cache_backed_def by (simp del: not_None_eq) blast

lemma backed_put_portal:
  assumes "cache_backed c (S, P)" "S n \<noteq> None"
  shows "cache_backed (Cache_Put c (portalCacheKey q) e) (S, P(q := S n))"
proof -
  have "cache_inv (Cache_Put c (portalCacheKey q) e)" using assms(1) lru.put_law [of c "portalCacheKey q" e] by (simp add: cache_backed_def)
  moreover have "fst (S, P(q := S n)) k \<noteq> None" if "wire_name k" "cache_look (Cache_Put c (portalCacheKey q) e) k \<noteq> None" for k
    using assms(1) has_Put [OF backed_inv [OF assms(1)] that(2)] wire_name_neq_portal [OF that(1)] that(1)
    by (auto simp: cache_backed_def simp del: not_None_eq)
  moreover have "snd (S, P(q := S n)) k \<noteq> None" if "cache_look (Cache_Put c (portalCacheKey q) e) (portalCacheKey k) \<noteq> None" for k
    using assms has_Put [OF backed_inv [OF assms(1)] that] by (auto simp: cache_backed_def simp del: not_None_eq)
  ultimately show ?thesis unfolding cache_backed_def by blast
qed

lemma backed_get: "cache_backed c sv \<Longrightarrow> cache_backed (fst (Cache_Get c k)) sv"
  using lru.get_law [of c k] by (simp add: cache_backed_def del: not_None_eq)

lemma backed_close_statement: "cache_backed c (S, P) \<Longrightarrow> cache_backed (Cache_Delete c n) (S(n := None), P)"
  using lru.delete_law [of c n] unfolding cache_backed_def by (auto simp del: not_None_eq)

lemma backed_close_portal: "cache_backed c (S, P) \<Longrightarrow> cache_backed (Cache_Delete c (portalCacheKey q)) (S, P(q := None))"
  using lru.delete_law [of c "portalCacheKey q"] unfolding cache_backed_def
  by (auto simp del: not_None_eq)

text \<open>Which operations leave the wire cache alone.\<close>

lemma wireCache_simps [simp]:
  "px_wireCache (fst (send_or e m p)) = px_wireCache p" "px_wireCache (after_loop lo p) = px_wireCache p"
  "px_wireCache (px_refreshPending pv p) = px_wireCache p" "px_wireCache (px_refreshAfter pv stmts r p) = px_wireCache p"
  "px_wireCache (synthErrorAndRFQ c t p) = px_wireCache p" "px_wireCache (synthesizeError c t p) = px_wireCache p"
  by (simp_all add: send_or_def after_loop_def px_refreshPending_def px_refreshAfter_def synthErrorAndRFQ_def synthesizeError_def)

lemma wireCache_loops [simp]:
  "px_wireCache (fst (drain pv clk p)) = px_wireCache p" "px_wireCache (fst (runCopyLoop pv clk dir p)) = px_wireCache p"
  by (simp_all add: drain_def runCopyLoop_def Let_def split: BulkOpKind.split)

lemma wireCache_executeAction:
  "plain_action act \<Longrightarrow> px_wireCache (fst (executeAction h pv inp msg act p)) = px_wireCache p"
proof (cases act)
  case ActionDrainUntilRFQ
  then show ?thesis using wireCache_loops(1) [of pv "fi_clock inp" p]
    by (simp add: executeAction_def case_prod_beta split: option.split)
qed (simp_all add: executeAction_def plain_action_def)

lemma wireCache_actions:
  "list_all plain_action acts \<Longrightarrow> px_wireCache (fst (executeActionsWith h pv inp msg acts p)) = px_wireCache p"
proof (induction acts arbitrary: p)
  case (Cons act acts)
  then show ?case using wireCache_executeAction [of act h pv inp msg p]
    by (cases "executeAction h pv inp msg act p"; cases "snd (executeAction h pv inp msg act p)") (simp_all add: and_then_def)
qed simp

lemma wireCache_deny [simp]:
  "px_wireCache (fst (executeActions pv inp msg (DenyRoute s r t q) p)) = px_wireCache p"
  "px_wireCache (fst (executeDeny pv inp msg (DenyRoute s r t q) p)) = px_wireCache p"
  by (simp_all add: executeActions_def executeDeny_def wireCache_actions)

lemma wireCache_round_trip [simp]: "px_wireCache (fst (round_trip pv inp m p)) = px_wireCache p"
  by (simp add: round_trip_def send_or_def)

lemma wireCache_query: "px_wireCache (fst (proxy_handleQuery pv inp sql p)) = px_wireCache p"
proof (cases rule: handleQuery_cases [of pv inp sql p])
  case (intercepted ss ds c0 acts ss' c)
  then show ?thesis using Intercept_actions(1) [OF intercepted(1)] by (simp add: executeActions_def wireCache_actions)
next
  case (judged c)
  have "px_wireCache (fst (run_allowed pv inp sql stmts q)) = px_wireCache q"
    "px_wireCache (fst (runSimpleQueryApproval pv inp sql stmts ds i q)) = px_wireCache q"
    "px_wireCache (fst (runSimpleQueryRedirect pv inp sql stmts ds i q)) = px_wireCache q" for stmts ds i q
    by (simp_all add: run_allowed_def runSimpleQueryApproval_def runSimpleQueryRedirect_def Let_def case_prod_beta split: bool.split)
  with judged show ?thesis by (simp add: judged_query_def Let_def case_prod_beta split: option.split)
qed simp

lemma wireCache_call: "px_wireCache (fst (handleFunctionCall pv inp oid args p)) = px_wireCache p"
  by (simp add: handleFunctionCall_def Let_def case_prod_beta split: option.split)

text \<open>What a list of actions makes the server hold.\<close>

lemma held_quiet:
  assumes "list_all plain_action acts" "ActionForward \<notin> set acts"
  shows "held (px_toServer (fst (executeActionsWith h pv inp msg acts p))) = held (px_toServer p)"
  by (rule advances_inert, rule advances_actions) (use assms in simp_all)

lemma held_forward:
  assumes "list_all plain_action acts" "ActionForward \<notin> set acts" "uc_FE (px_uc p)"
  shows "held (px_toServer (fst (executeActionsWith h pv inp msg (ActionForward # acts) p))) = server_sees (held (px_toServer p)) msg"
  using held_quiet [OF assms(1,2), of h pv inp msg "send_server msg p"] assms(3)
  by (simp add: executeAction_def send_or_def and_then_def)

lemma transition_forward:
  assumes "TransitionWithParser env view classify rules svc s f c = (s', acts, c')" "ActionForward \<in> set acts"
  obtains rest where "acts = ActionForward # rest" "ActionForward \<notin> set rest" "list_all plain_action rest"
  using assms
  by (cases f) (auto simp: TransitionWithParser_def handler_defs Let_def plain_action_def
      dest: scan_approve_not_forward split: if_splits scan_result.splits prod.splits option.splits)

text \<open>
  A turn of the state machine: if the cache after the updates is backed by what the server then
  holds, so it is after the actions.
\<close>

lemma backed_transition:
  assumes T: "TransitionWithParser env view classify rules svc s f c = (s', acts, c')" and FE: "uc_FE (px_uc q)"
    and fwd: "ActionForward \<in> set acts \<Longrightarrow> cache_backed (px_wireCache q) (server_sees (held (px_toServer q)) msg)"
    and quiet: "ActionForward \<notin> set acts \<Longrightarrow> cache_backed (px_wireCache q) (held (px_toServer q))"
    and plain: "list_all plain_action acts"
  shows "cache_backed (px_wireCache (fst (executeActions pv inp msg acts q))) (held (px_toServer (fst (executeActions pv inp msg acts q))))"
proof (cases "ActionForward \<in> set acts")
  case True
  then obtain rest where rest: "acts = ActionForward # rest" "ActionForward \<notin> set rest" "list_all plain_action rest"
    by (rule transition_forward [OF T])
  with held_forward [OF rest(3,2) FE, of "runApprovalWait pv inp msg" pv inp msg] wireCache_actions [OF plain] fwd True show ?thesis
    by (simp add: executeActions_def)
next
  case False
  with held_quiet [OF plain False] wireCache_actions [OF plain] quiet show ?thesis by (simp add: executeActions_def)
qed

lemma backed_approval:
  assumes "cache_backed (px_wireCache q) (held (px_toServer q))" "uc_FE (px_uc q)" "wire_name name" "msg = MsgParse name sql oids"
  shows "cache_backed (px_wireCache (fst (runApprovalWait pv inp msg t st r q))) (held (px_toServer (fst (runApprovalWait pv inp msg t st r q))))"
proof (cases "ao_approved (waitForApproval pv t (fi_race inp))")
  case True
  obtain S P where sv: "held (px_toServer q) = (S, P)" by fastforce
  have "cache_backed (px_wireCache (cacheApprovedParse name st q)) (S(name := Some sql), P)"
    using backed_put_statement [of "px_wireCache q" S P name] assms(1,3) sv by (simp add: cacheApprovedParse_def case_prod_beta)
  with True assms(1,2,4) sv show ?thesis by (simp add: runApprovalWait_def Let_def send_or_def)
next
  case False
  let ?acts = "DenyRoute (px_sm q) r (''denied by AgentMon policy: '' @ approvalReason (ao_denyAction (waitForApproval pv t (fi_race inp)))) ''42501''"
  have "held (px_toServer (fst (executeDeny pv inp msg ?acts q))) = held (px_toServer q)"
    unfolding executeDeny_def by (rule held_quiet) simp_all
  with False assms(1) show ?thesis by (simp add: runApprovalWait_def Let_def)
qed

abbreviation backed :: "proxyConn \<Rightarrow> bool" where
  "backed p \<equiv> cache_backed (px_wireCache p) (held (px_toServer p))"

lemma view_simps:
  "view_Put wireCacheView c n v = Cache_Put c n (entry_of_value v)" "fst (view_Get wireCacheView c n) = fst (Cache_Get c n)"
  "view_Delete wireCacheView = Cache_Delete"
  by (simp_all add: wireCacheView_def wire_Put_def wire_Get_simps)

lemma backed_redirect_parse:
  assumes h: "tryHandleRedirectParse pv inp name sql oids stmts p = Some h"
    and b: "backed p" "uc_FE (px_uc p)" "wire_name name"
  shows "backed (fst h)"
proof -
  have deny: "backed (fst (executeActions pv inp msg (DenyRoute s r t q) p'))" if "backed p'" for msg s r t q p'
    using that held_quiet [of "DenyRoute s r t q" "runApprovalWait pv inp msg" pv inp msg p'] by (simp add: executeActions_def wireCache_actions)
  obtain S P where sv: "held (px_toServer p) = (S, P)" by fastforce
  have put: "cache_backed (Cache_Put (px_wireCache p) name e) (S(name := Some sql'), P)" for e sql'
    using backed_put_statement [of "px_wireCache p" S P name] b sv by simp
  show ?thesis using h b(1,2) sv put
    by (auto simp: tryHandleRedirectParse_def Let_def case_prod_beta send_or_def and_then_def intro!: deny
        split: if_splits option.splits bool.splits)
qed

lemma backed_parse:
  assumes b: "backed p" "uc_FE (px_uc p)" "wire_name name"
  shows "backed (fst (handleExtendedFrame pv inp (MsgParse name sql oids) p))"
proof -
  let ?msg = "MsgParse name sql oids"
  let ?classify = "\<lambda>sql. fst (px_classify pv (fi_policy inp 0) p sql)"
  define st where "st = ?classify sql"
  obtain S P where sv: "held (px_toServer p) = (S, P)" by fastforce
  obtain s' acts c' where T: "TransitionWithParser (pv_env pv) wireCacheView ?classify (fi_policy inp 0) (pv_svc pv) (px_sm p)
      (ParseFrame name sql) (px_wireCache p) = (s', acts, c')" by (rule prod_cases3)
  let ?q = "after_transition ?msg st acts ((set_sm s' p)\<lparr>px_wireCache := c'\<rparr>)"
  have c': "c' = px_wireCache p \<and> ActionForward \<notin> set acts \<or>
      ActionForward \<in> set acts \<and> (\<exists>v. c' = Cache_Put (px_wireCache p) name v)"
    using T by (auto simp: TransitionWithParser_def handleParse_def view_simps Let_def dest: scan_approve_not_forward
        split: if_splits scan_result.splits)
  have q: "ActionForward \<in> set acts \<Longrightarrow> cache_backed (px_wireCache ?q) (server_sees (held (px_toServer ?q)) ?msg)"
    "ActionForward \<notin> set acts \<Longrightarrow> backed ?q"
  proof -
    assume "ActionForward \<in> set acts"
    with c' obtain v where "c' = Cache_Put (px_wireCache p) name v" by blast
    then have "cache_backed c' (S(name := Some sql), P)" using backed_put_statement [of "px_wireCache p" S P name] b sv by simp
    then have "cache_backed (px_wireCache ?q) (S(name := Some sql), P)"
      using backed_put_statement [of c' "S(name := Some sql)" P name _ sql] b(3)
      by (auto simp: after_transition_def case_prod_beta split: list.split)
    then show "cache_backed (px_wireCache ?q) (server_sees (held (px_toServer ?q)) ?msg)" using sv by simp
  next
    assume "ActionForward \<notin> set acts"
    then show "backed ?q" using c' b(1)
      by (auto simp: after_transition_def actionsCanForward_def list_ex_iff split: list.split)
  qed
  have "backed (fst (executeActions pv inp ?msg acts ?q))"
  proof (cases "list_all plain_action acts")
    case True
    then show ?thesis using q b(2) by (intro backed_transition [OF T]) simp_all
  next
    case False
    then obtain t cs r where a: "acts = [ActionApproverWait t cs r]" using transition_actions(1) [OF T] by blast
    then have "backed ?q" using q(2) by simp
    then have "backed (fst (runApprovalWait pv inp ?msg t cs r ?q))" by (rule backed_approval) (simp_all add: b)
    moreover have "fst (executeActions pv inp ?msg acts ?q) = fst (runApprovalWait pv inp ?msg t cs r ?q)"
      using a by (simp add: executeActions_def executeAction_def and_then_def split: prod.splits option.splits)
    ultimately show ?thesis by (simp only:)
  qed
  moreover have "tryHandleRedirectParse pv inp name sql oids st p = Some h \<Longrightarrow> backed (fst h)" for h
    using backed_redirect_parse b by blast
  ultimately show ?thesis using T unfolding st_def
    by (auto simp: handleExtendedFrame_def Let_def split: option.split)
qed

lemma backed_frame:
  assumes "frameFromPgproto msg = Some f" "\<forall>n q oids. msg \<noteq> MsgParse n q oids" "\<forall>q. msg \<noteq> MsgQuery q" "uc_FE (px_uc p)"
    and "\<And>s' acts c'. TransitionWithParser (pv_env pv) wireCacheView (\<lambda>sql. fst (px_classify pv (fi_policy inp 0) p sql)) (fi_policy inp 0)
      (pv_svc pv) (px_sm p) f (px_wireCache p) = (s', acts, c') \<Longrightarrow>
      cache_backed (px_wireCache (after_transition msg [] acts ((set_sm s' p)\<lparr>px_wireCache := c'\<rparr>)))
        (if ActionForward \<in> set acts then server_sees (held (px_toServer p)) msg else held (px_toServer p))"
  shows "backed (fst (handleExtendedFrame pv inp msg p))"
proof -
  obtain s' acts c' where T: "TransitionWithParser (pv_env pv) wireCacheView (\<lambda>sql. fst (px_classify pv (fi_policy inp 0) p sql))
      (fi_policy inp 0) (pv_svc pv) (px_sm p) f (px_wireCache p) = (s', acts, c')" by (rule prod_cases3)
  have "acts \<noteq> [ActionApproverWait t cs r]" for t cs r
    using T assms(1-3)
    by (cases msg) (auto simp: TransitionWithParser_def handler_defs Let_def split: if_splits prod.splits option.splits)
  then have "list_all plain_action acts" using transition_actions(1) [OF T] by blast
  then have "backed (fst (executeActions pv inp msg acts (after_transition msg [] acts ((set_sm s' p)\<lparr>px_wireCache := c'\<rparr>))))"
    using assms(4) assms(5) [OF T] by (intro backed_transition [OF T]) simp_all
  then show ?thesis by (simp only: extended_frame [OF assms(1,2) T])
qed

lemma backed_preserve:
  assumes "cache_backed (px_wireCache p) (S, P)" "S n \<noteq> None" "P q = S n"
  shows "cache_backed (px_wireCache (preserveRedirectPortalMetadata q n p)) (S, P)"
proof -
  have get: "cache_backed (fst (Cache_Get (px_wireCache p) n)) (S, P)" by (rule backed_get [OF assms(1)])
  have same: "P(q := S n) = P" using assms(3) by (simp add: fun_eq_iff)
  have "cache_backed (Cache_Put (fst (Cache_Get (px_wireCache p) n)) (portalCacheKey q) e) (S, P)" for e
    using backed_put_portal [OF get assms(2), of q e] unfolding same .
  with get show ?thesis by (simp add: preserveRedirectPortalMetadata_def case_prod_beta split: option.split)
qed

lemma backed_bind:
  assumes b: "backed p" "uc_FE (px_uc p)" "wire_name n"
  shows "backed (fst (handleExtendedFrame pv inp (MsgBind q n args) p))"
proof (rule backed_frame)
  fix s' acts c'
  let ?c = "px_wireCache p"
  obtain S P where sv: "held (px_toServer p) = (S, P)" by fastforce
  obtain c1 v where g: "view_Get wireCacheView ?c n = (c1, v)" by fastforce
  have c1: "cache_backed c1 (S, P)" using backed_get [OF b(1), of n] g view_simps(2) [of ?c n] sv by simp
  assume T: "TransitionWithParser (pv_env pv) wireCacheView (\<lambda>sql. fst (px_classify pv (fi_policy inp 0) p sql)) (fi_policy inp 0)
      (pv_svc pv) (px_sm p) (BindFrame q n) ?c = (s', acts, c')"
  show "cache_backed (px_wireCache (after_transition (MsgBind q n args) [] acts ((set_sm s' p)\<lparr>px_wireCache := c'\<rparr>)))
        (if ActionForward \<in> set acts then server_sees (held (px_toServer p)) (MsgBind q n args) else held (px_toServer p))"
  proof (cases "ActionForward \<in> set acts")
    case True
    with T g obtain e where v: "v = Some e" "c' = Cache_Put c1 (portalCacheKey q) (entry_of_value e)"
      by (auto simp: TransitionWithParser_def handleBind_def view_simps split: if_splits option.splits)
    then have "S n \<noteq> None" using wire_Get_look [OF backed_inv [OF b(1)] g] b(1,3) sv by (auto simp: cache_backed_def)
    then have "cache_backed c' (S, P(q := S n))" using backed_put_portal [OF c1] v(2) by blast
    then have "cache_backed (px_wireCache (preserveRedirectPortalMetadata q n ((set_sm s' p)\<lparr>px_wireCache := c'\<rparr>))) (S, P(q := S n))"
      using \<open>S n \<noteq> None\<close> by (intro backed_preserve) simp_all
    with True sv show ?thesis by (simp add: after_transition_def actionsCanForward_def list_ex_iff)
  next
    case False
    with T g c1 b(1) sv show ?thesis
      by (auto simp: TransitionWithParser_def handleBind_def after_transition_def actionsCanForward_def split: if_splits option.splits)
  qed
qed (simp_all add: b)

lemma backed_execute:
  assumes b: "backed p" "uc_FE (px_uc p)"
  shows "backed (fst (handleExtendedFrame pv inp (MsgExecute q k) p))"
proof (rule backed_frame)
  fix s' acts c'
  let ?c = "px_wireCache p"
  let ?sv = "held (px_toServer p)"
  assume T: "TransitionWithParser (pv_env pv) wireCacheView (\<lambda>sql. fst (px_classify pv (fi_policy inp 0) p sql)) (fi_policy inp 0)
      (pv_svc pv) (px_sm p) (ExecuteFrame q) ?c = (s', acts, c')"
  obtain c1 v where g: "view_Get wireCacheView ?c (portalCacheKey q) = (c1, v)" by fastforce
  have c1: "cache_backed c1 ?sv" using backed_get [OF b(1)] g view_simps(2) [of ?c "portalCacheKey q"] by (metis fst_conv)
  have c': "cache_backed c' ?sv"
    using T g c1 b(1) by (auto simp: TransitionWithParser_def handleExecute_def split: if_splits option.splits)
  have "cache_backed (px_wireCache (markCatalogRefreshPendingForExecute q acts ((set_sm s' p)\<lparr>px_wireCache := c'\<rparr>))) ?sv"
    using c' backed_get [OF c', of "portalCacheKey q"]
    by (simp add: markCatalogRefreshPendingForExecute_def case_prod_beta split: option.split)
  then show "cache_backed (px_wireCache (after_transition (MsgExecute q k) [] acts ((set_sm s' p)\<lparr>px_wireCache := c'\<rparr>)))
      (if ActionForward \<in> set acts then server_sees ?sv (MsgExecute q k) else ?sv)"
    by (simp add: after_transition_def)
qed (simp_all add: b)

lemma backed_close:
  assumes b: "backed p" "uc_FE (px_uc p)"
  shows "backed (fst (handleExtendedFrame pv inp (MsgClose t n) p))"
proof (rule backed_frame)
  fix s' acts c'
  obtain S P where sv: "held (px_toServer p) = (S, P)" by fastforce
  assume T: "TransitionWithParser (pv_env pv) wireCacheView (\<lambda>sql. fst (px_classify pv (fi_policy inp 0) p sql)) (fi_policy inp 0)
      (pv_svc pv) (px_sm p) (CloseFrame t n) (px_wireCache p) = (s', acts, c')"
  then show "cache_backed (px_wireCache (after_transition (MsgClose t n) [] acts ((set_sm s' p)\<lparr>px_wireCache := c'\<rparr>)))
      (if ActionForward \<in> set acts then server_sees (held (px_toServer p)) (MsgClose t n) else held (px_toServer p))"
    using b(1) sv backed_close_statement [of "px_wireCache p" S P n] backed_close_portal [of "px_wireCache p" S P n]
    by (auto simp: TransitionWithParser_def handleClose_def after_transition_def view_simps split: if_splits)
qed (simp_all add: b)

lemma backed_other:
  assumes b: "backed p" "uc_FE (px_uc p)" and m: "msg = MsgSync \<or> msg = MsgFlush \<or> (\<exists>t n. msg = MsgDescribe t n)"
  shows "backed (fst (handleExtendedFrame pv inp msg p))"
proof -
  from m obtain f where f: "frameFromPgproto msg = Some f" by auto
  show ?thesis
  proof (rule backed_frame [OF f])
    fix s' acts c'
    assume "TransitionWithParser (pv_env pv) wireCacheView (\<lambda>sql. fst (px_classify pv (fi_policy inp 0) p sql)) (fi_policy inp 0)
      (pv_svc pv) (px_sm p) f (px_wireCache p) = (s', acts, c')"
    then show "cache_backed (px_wireCache (after_transition msg [] acts ((set_sm s' p)\<lparr>px_wireCache := c'\<rparr>)))
      (if ActionForward \<in> set acts then server_sees (held (px_toServer p)) msg else held (px_toServer p))"
      using m b(1) f by (auto simp: TransitionWithParser_def handler_defs after_transition_def split: prod.splits if_splits)
  qed (use m b in auto)
qed

text \<open>The names in a client message are C strings.\<close>

fun wire_msg :: "FrontendMessage \<Rightarrow> bool" where
  "wire_msg (MsgParse n _ _) = wire_name n"
| "wire_msg (MsgBind _ n _) = wire_name n"
| "wire_msg _ = True"

lemma backed_dispatch:
  assumes b: "backed p" "uc_FE (px_uc p)" "wire_msg msg"
  shows "backed (fst (fst (dispatch pv inp msg p)))"
proof -
  have query: "backed (fst (proxy_handleQuery pv inp sql p))" for sql
  proof -
    have "advances inert p (fst (proxy_handleQuery pv inp sql p))"
    proof (cases rule: handleQuery_cases [of pv inp sql p])
      case (intercepted ss ds c0 acts ss' c)
      from advances_intercepted [OF intercepted(1), of inert "p\<lparr>px_sqlCache := c\<rparr>" pv inp "MsgQuery sql"] intercepted(2)
      show ?thesis by simp
    next
      case (judged c)
      with advances_judged [of inert "p\<lparr>px_sqlCache := c\<rparr>"] show ?thesis by simp
    qed (simp add: advances_large)
    with b(1) show ?thesis by (simp add: advances_inert wireCache_query)
  qed
  have call: "backed (fst (handleFunctionCall pv inp oid args p))" for oid args
  proof -
    have "advances inert p (synthesizeError c t p)" for c t by (rule advances_same) (simp_all add: synthesizeError_def)
    then have "advances inert p (fst (handleFunctionCall pv inp oid args p))"
      using advances_deny(1) [of inert] advances_round_trip [of inert]
      by (simp add: handleFunctionCall_def Let_def case_prod_beta split: option.split)
    with b(1) show ?thesis by (simp add: advances_inert wireCache_call)
  qed
  have err: "backed (synthesizeError c t p)" for c t using b(1) by (simp add: synthesizeError_def)
  show ?thesis
    using query call err b backed_parse [OF b(1,2)] backed_bind [OF b(1,2)] backed_execute [OF b(1,2)] backed_close [OF b(1,2)]
      backed_other [OF b(1,2)]
    by (cases msg) (simp_all add: dispatch_def is_extended_def handleUnsupportedFrame_def)
qed


section \<open>Invariants of a session\<close>

fun wire_input :: "FrontendMessage input \<Rightarrow> bool" where
  "wire_input (Recv m) = wire_msg m"
| "wire_input _ = True"

text \<open>A connection at the start of its session.\<close>

definition fresh :: "proxyConn \<Rightarrow> bool" where
  "fresh p \<longleftrightarrow> (\<exists>n. px_wireCache p = Cache_New n) \<and> uc_FE (px_uc p) \<and> px_toServer p = [] \<and> list_all wire_input (px_fromClient p)"

definition sound :: "proxyConn \<Rightarrow> bool" where
  "sound p \<longleftrightarrow> backed p \<and> uc_FE (px_uc p) \<and> list_all wire_input (px_fromClient p)"

lemma look_New: "cache_look (Cache_New n) k = None"
  by (simp add: cache_look_def cache_abs_def Cache_New_def Let_def)

lemma fresh_sound: "fresh p \<Longrightarrow> sound p"
  by (auto simp: fresh_def sound_def cache_backed_def cache_inv_New look_New)

lemma sound_next: "sound p \<Longrightarrow> px_fromClient p = Recv msg # rest \<Longrightarrow> sound (p\<lparr>px_fromClient := rest\<rparr>) \<and> wire_msg msg"
  by (simp add: sound_def)

lemma sound_dispatch:
  assumes "sound p" "wire_msg msg" "dispatch pv inp msg p = ((p', err), b)"
  shows "sound p'"
proof -
  from advances_dispatch_any [of p pv inp msg] assms(3) have "suffix (px_fromClient p') (px_fromClient p)" "uc_FE (px_uc p') = uc_FE (px_uc p)"
    by (simp_all add: advances_def)
  moreover have "backed p'" using backed_dispatch [of p msg pv inp] assms by (simp add: sound_def)
  ultimately show ?thesis using assms(1) by (auto simp: sound_def suffix_def)
qed

lemma turn_sound: "turn pv inps p0 n p msg \<Longrightarrow> sound p0 \<Longrightarrow> sound p \<and> wire_msg msg"
  by (induction rule: turn.induct) (use sound_next sound_dispatch in blast)+

text \<open>A message that was sent while some turn was handled, and was permitted there.\<close>

definition mediated :: "proxy_env \<Rightarrow> (nat \<Rightarrow> frame_input) \<Rightarrow> proxyConn \<Rightarrow> FrontendMessage \<Rightarrow> bool" where
  "mediated pv inps p0 m \<longleftrightarrow>
     (\<exists>n p msg. turn pv inps p0 n p msg \<and> permitted pv (inps n) (fi_policy (inps n) 0) p msg m)"

lemma turn_mediated:
  assumes "turn pv inps p0 n p msg" "sound p0" "steady inps"
  shows "advances (mediated pv inps p0) p (fst (fst (dispatch pv (inps n) msg p)))"
proof (rule advances_mono)
  show "advances (permitted pv (inps n) (fi_policy (inps n) 0) p msg) p (fst (fst (dispatch pv (inps n) msg p)))"
    using turn_sound [OF assms(1,2)] steady_const [OF assms(3)]
    by (intro advances_dispatch) (simp_all add: sound_def cache_backed_def)
  fix m assume "permitted pv (inps n) (fi_policy (inps n) 0) p msg m"
  with assms(1) show "mediated pv inps p0 m" unfolding mediated_def by blast
qed

lemma turn_history:
  assumes "turn pv inps p0 n p msg" "sound p0" "steady inps"
  shows "\<exists>ms. px_toServer p = px_toServer p0 @ ms \<and> list_all (mediated pv inps p0) ms"
  using assms
proof (induction rule: turn.induct)
  case (turn_next n p msg p' msg' rest)
  then obtain ms where ms: "px_toServer p = px_toServer p0 @ ms" "list_all (mediated pv inps p0) ms" by blast
  from turn_mediated [OF turn_next.hyps(1) turn_next.prems] turn_next.hyps(2)
  obtain ms' where "px_toServer p' = px_toServer p @ ms'" "list_all (mediated pv inps p0) ms'" by (auto simp: advances_def)
  with ms show ?case by (intro exI [of _ "ms @ ms'"]) simp
qed simp

lemma loop_mediated:
  assumes "sound p0" "steady inps"
    and "\<And>msg rest. px_fromClient p = Recv msg # rest \<Longrightarrow> turn pv inps p0 n (p\<lparr>px_fromClient := rest\<rparr>) msg"
  shows "\<exists>ms. px_toServer (fst (simpleQueryLoop pv inps n p)) = px_toServer p @ ms \<and> list_all (mediated pv inps p0) ms"
  using assms
proof (induction pv inps n p rule: simpleQueryLoop.induct)
  case (1 pv inps n p)
  show ?case
  proof (cases "\<exists>msg rest. px_fromClient p = Recv msg # rest")
    case False
    then have "px_toServer (fst (simpleQueryLoop pv inps n p)) = px_toServer p"
      by (subst simpleQueryLoop.simps) (auto split: list.splits input.splits)
    then show ?thesis by simp
  next
    case True
    then obtain msg rest where c: "px_fromClient p = Recv msg # rest" by blast
    let ?q = "p\<lparr>px_fromClient := rest\<rparr>"
    obtain p' err b where d: "dispatch pv (inps n) msg ?q = ((p', err), b)" by (metis surj_pair)
    have t: "turn pv inps p0 n ?q msg" by (rule 1(4) [OF c])
    from turn_mediated [OF t 1(2,3)] d obtain ms where ms: "px_toServer p' = px_toServer p @ ms" "list_all (mediated pv inps p0) ms"
      by (auto simp: advances_def)
    show ?thesis
    proof (cases "err = None \<and> b")
      case True
      have "\<exists>ms. px_toServer (fst (simpleQueryLoop pv inps (Suc n) p')) = px_toServer p' @ ms \<and> list_all (mediated pv inps p0) ms"
        using True d by (intro 1(1) [OF c refl d [symmetric] refl True 1(2,3)]) (auto intro: turn_next [OF t])
      then obtain ms' where ms': "px_toServer (fst (simpleQueryLoop pv inps (Suc n) p')) = px_toServer p' @ ms'"
        "list_all (mediated pv inps p0) ms'" by blast
      have "simpleQueryLoop pv inps n p = simpleQueryLoop pv inps (Suc n) p'"
        using c d True by (subst simpleQueryLoop.simps) simp
      with ms ms' show ?thesis by (intro exI [of _ "ms @ ms'"]) simp
    next
      case False
      then have "simpleQueryLoop pv inps n p = (p', err)" using c d by (subst simpleQueryLoop.simps) auto
      with ms show ?thesis by auto
    qed
  qed
qed


section \<open>Properties\<close>


lemma sample_fresh: "list_all wire_input ins \<Longrightarrow> fresh (sample_px ins)"
  by (auto simp: fresh_def sample_px_def sample_upstream_def)

lemma sample_steady: "steady (\<lambda>n. sample_inp (rs n))"
  by (simp add: steady_def sample_inp_def)



text \<open>A session that parses, binds and executes an allowed statement.\<close>

lemma dispatch_forward:
  assumes "frameFromPgproto msg = Some f" "\<forall>n q oids. msg \<noteq> MsgParse n q oids" "is_extended msg" "uc_FE (px_uc p)"
    and "TransitionWithParser (pv_env pv) wireCacheView (\<lambda>sql. fst (px_classify pv (fi_policy inp 0) p sql)) (fi_policy inp 0) (pv_svc pv)
      (px_sm p) f (px_wireCache p) = (s', [ActionForward], c')"
  shows "dispatch pv inp msg p =
    ((send_server msg (after_transition msg [] [ActionForward] ((set_sm s' p)\<lparr>px_wireCache := c'\<rparr>)), None), True)"
proof -
  have "dispatch pv inp msg p = (handleExtendedFrame pv inp msg p, True)" using assms(3) by (cases msg) (simp_all add: dispatch_def is_extended_def)
  then show ?thesis
    using extended_frame [OF assms(1,2,5)] assms(4) by (simp add: executeActions_def executeAction_def send_or_def and_then_def)
qed

lemma sample_resolved: "resolveStatementsCatalog [begin_stmt] (zeroContext '''') = [begin_stmt]"
  by code_simp

lemma sample_classify:
  "ks_catalog (px_k p) = zeroContext '''' \<Longrightarrow> px_classify sample_pv rs p sql = ([begin_stmt], False)"
  by (simp add: px_classify_def resolving_Classify_def sample_pv_def sample_resolved del: resolveStatementsCatalog.simps)

abbreviation sample_allow :: "nat \<Rightarrow> frame_input" where
  "sample_allow \<equiv> \<lambda>_. sample_inp (sample_rules VerbAllow)"

lemma catalog_send [simp]: "ks_catalog (px_k (send_server m p)) = ks_catalog (px_k p)"
  by (simp add: send_server_def)

lemma cache_put_get:
  "cache_inv c \<Longrightarrow> cache_inv (Cache_Put c k e)" "cache_inv c \<Longrightarrow> cache_look (Cache_Put c k e) k = Some e"
  "cache_inv c \<Longrightarrow> cache_inv (fst (Cache_Get c k))" "cache_inv c \<Longrightarrow> cache_look (fst (Cache_Get c k)) k' = cache_look c k'"
  using lru.put_law [of c k e] lru.get_law [of c k] by auto

lemma sample_parse:
  assumes "ks_catalog (px_k p) = zeroContext ''''" "px_sm p = idle_conn" "uc_FE (px_uc p)" "cache_inv (px_wireCache p)"
  shows "\<exists>p'. dispatch sample_pv (sample_allow n) (MsgParse ''s'' ''BEGIN'' []) p = ((p', None), True) \<and>
    px_sm p' = idle_conn\<lparr>st_UpstreamDirtySinceSync := True\<rparr> \<and> uc_FE (px_uc p') \<and>
    px_fromClient p' = px_fromClient p \<and> cache_inv (px_wireCache p') \<and> cache_look (px_wireCache p') ''s'' \<noteq> None"
proof -
  let ?pol = "sample_rules VerbAllow"
  note verb = sample_evaluate_the [of sample_env VerbAllow "''db''"]
  have redir: "tryHandleRedirectParse sample_pv (sample_allow n) ''s'' ''BEGIN'' [] [begin_stmt] p = None"
    using verb by (simp add: tryHandleRedirectParse_def evaluate_all_def sample_pv_def sample_inp_def)
  have T: "TransitionWithParser sample_env wireCacheView (\<lambda>_. [begin_stmt]) ?pol ''db'' idle_conn (ParseFrame ''s'' ''BEGIN'') c =
      (idle_conn\<lparr>st_UpstreamDirtySinceSync := True\<rparr>, [ActionForward], Cache_Put c ''s''
        (entry_of_value (zeroCacheValue\<lparr>va_Verb := cs_RawVerb begin_stmt, va_GroupID := Group_ID (e_Group (sample_effect GroupTransaction))\<rparr>)))" for c
    by (simp add: TransitionWithParser_def handleParse_def sample_scan idle_conn_def view_simps Let_def del: scan_statements.simps)
  show ?thesis
    using assms redir T
    by (simp add: dispatch_def is_extended_def handleExtendedFrame_def sample_classify sample_inp_def Let_def)
      (simp add: sample_pv_def after_transition_def actionsCanForward_def case_prod_beta executeActions_def executeAction_def
        send_or_def and_then_def cache_put_get)
qed

text \<open>Bind and Execute of something cached are forwarded.\<close>

lemma bind_forwards:
  assumes "cache_inv (px_wireCache p)" "cache_look (px_wireCache p) n \<noteq> None" "\<not> st_Absorbing (px_sm p)" "uc_FE (px_uc p)"
  shows "\<exists>p'. dispatch pv inp (MsgBind q n args) p = ((p', None), True) \<and> uc_FE (px_uc p') \<and>
    px_fromClient p' = px_fromClient p \<and> px_sm p' = (px_sm p)\<lparr>st_UpstreamDirtySinceSync := True\<rparr> \<and>
    cache_inv (px_wireCache p') \<and> cache_look (px_wireCache p') (portalCacheKey q) \<noteq> None"
proof -
  obtain c1 v where g: "view_Get wireCacheView (px_wireCache p) n = (c1, v)" by fastforce
  then obtain e where v: "v = Some e" using wire_Get_look [OF assms(1) g] assms(2) by auto
  have c1: "cache_inv c1" using g view_simps(2) [of "px_wireCache p" n] cache_put_get(3) [OF assms(1), of n] by simp
  let ?c = "Cache_Put c1 (portalCacheKey q) (entry_of_value e)"
  let ?s = "(px_sm p)\<lparr>st_UpstreamDirtySinceSync := True\<rparr>"
  let ?q = "preserveRedirectPortalMetadata q n ((set_sm ?s p)\<lparr>px_wireCache := ?c\<rparr>)"
  have "TransitionWithParser (pv_env pv) wireCacheView (\<lambda>sql. fst (px_classify pv (fi_policy inp 0) p sql)) (fi_policy inp 0) (pv_svc pv)
      (px_sm p) (BindFrame q n) (px_wireCache p) = (?s, [ActionForward], ?c)"
    using g v assms(3) by (simp add: TransitionWithParser_def handleBind_def view_simps)
  from dispatch_forward [OF _ _ _ assms(4) this, of "MsgBind q n args"]
  have "dispatch pv inp (MsgBind q n args) p = ((send_server (MsgBind q n args) ?q, None), True)"
    by (simp add: is_extended_def after_transition_def actionsCanForward_def)
  moreover have "cache_inv (px_wireCache ?q) \<and> cache_look (px_wireCache ?q) (portalCacheKey q) \<noteq> None"
    using c1 by (simp add: preserveRedirectPortalMetadata_def case_prod_beta cache_put_get split: option.split)
  moreover have "px_k ?q = px_k (set_sm ?s p)" "px_fromClient ?q = px_fromClient p"
    by (simp_all add: preserveRedirectPortalMetadata_def case_prod_beta split: option.split)
  ultimately show ?thesis using assms(4) by simp
qed

lemma execute_forwards:
  assumes "cache_inv (px_wireCache p)" "cache_look (px_wireCache p) (portalCacheKey q) \<noteq> None" "\<not> st_Absorbing (px_sm p)" "uc_FE (px_uc p)"
  shows "\<exists>p'. dispatch pv inp (MsgExecute q k) p = ((p', None), True) \<and> px_toServer p' = px_toServer p @ [MsgExecute q k]"
proof -
  obtain c1 v where g: "view_Get wireCacheView (px_wireCache p) (portalCacheKey q) = (c1, v)" by fastforce
  then obtain e where v: "v = Some e" using wire_Get_look [OF assms(1) g] assms(2) by auto
  have "TransitionWithParser (pv_env pv) wireCacheView (\<lambda>sql. fst (px_classify pv (fi_policy inp 0) p sql)) (fi_policy inp 0) (pv_svc pv)
      (px_sm p) (ExecuteFrame q) (px_wireCache p) = ((px_sm p)\<lparr>st_UpstreamDirtySinceSync := True\<rparr>, [ActionForward], c1)"
    using g v assms(3) by (simp add: TransitionWithParser_def handleExecute_def)
  from dispatch_forward [OF _ _ _ assms(4) this, of "MsgExecute q k"] show ?thesis by (simp add: is_extended_def)
qed

definition sample_session :: proxyConn where
  "sample_session = sample_px [Recv (MsgParse ''s'' ''BEGIN'' []), Recv (MsgBind ''p'' ''s'' []), Recv (MsgExecute ''p'' 0)]"

lemma sample_turns:
  "\<exists>p p'. turn sample_pv sample_allow sample_session 2 p (MsgExecute ''p'' 0) \<and>
     dispatch sample_pv (sample_allow 2) (MsgExecute ''p'' 0) p = ((p', None), True) \<and>
     px_toServer p' = px_toServer p @ [MsgExecute ''p'' 0]"
proof -
  let ?bind = "MsgBind ''p'' ''s'' []" and ?exec = "MsgExecute ''p'' 0"
  let ?p0 = "sample_session\<lparr>px_fromClient := [Recv ?bind, Recv ?exec]\<rparr>"
  have t0: "turn sample_pv sample_allow sample_session 0 ?p0 (MsgParse ''s'' ''BEGIN'' [])"
    by (rule turn_first) (simp add: sample_session_def sample_px_def)
  from sample_parse [of ?p0] obtain p1 where p1: "dispatch sample_pv (sample_allow 0) (MsgParse ''s'' ''BEGIN'' []) ?p0 = ((p1, None), True)"
      "px_sm p1 = idle_conn\<lparr>st_UpstreamDirtySinceSync := True\<rparr>" "uc_FE (px_uc p1)" "px_fromClient p1 = [Recv ?bind, Recv ?exec]"
      "cache_inv (px_wireCache p1)" "cache_look (px_wireCache p1) ''s'' \<noteq> None"
    by (auto simp: sample_session_def sample_px_def sample_upstream_def cache_inv_New)
  have t1: "turn sample_pv sample_allow sample_session 1 (p1\<lparr>px_fromClient := [Recv ?exec]\<rparr>) ?bind"
    using turn_next [OF t0 p1(1,4)] by simp
  from bind_forwards [of "p1\<lparr>px_fromClient := [Recv ?exec]\<rparr>" "''s''" sample_pv "sample_allow 1" "''p''" "[]"] p1
  obtain p2 where p2: "dispatch sample_pv (sample_allow 1) ?bind (p1\<lparr>px_fromClient := [Recv ?exec]\<rparr>) = ((p2, None), True)"
      "uc_FE (px_uc p2)" "px_fromClient p2 = [Recv ?exec]" "\<not> st_Absorbing (px_sm p2)"
      "cache_inv (px_wireCache p2)" "cache_look (px_wireCache p2) (portalCacheKey ''p'') \<noteq> None"
    by (auto simp: idle_conn_def)
  have t2: "turn sample_pv sample_allow sample_session 2 (p2\<lparr>px_fromClient := []\<rparr>) ?exec"
    using turn_next [OF t1 p2(1,3)] by (simp add: numeral_2_eq_2)
  with execute_forwards [of "p2\<lparr>px_fromClient := []\<rparr>" "''p''" sample_pv "sample_allow 2" 0] p2 show ?thesis by auto
qed


end
