(* ===== verification/Spec2Isabelle.thy ===== *)
theory Spec2Isabelle
  imports Db_Explain Pg_Session
begin

text \<open>
  Database access policies of agentmon, \<open>src/internal/db\<close>.
\<close>


section \<open>From the policy file to the server\<close>

text \<open>A statement that is fully covered: no deny rule hits an effect, and every slot is hit by another rule.\<close>

definition covered :: "db_env \<Rightarrow> RuleSet option \<Rightarrow> ServiceID \<Rightarrow> ClassifiedStatement \<Rightarrow> bool" where
  "covered env rs svc cs \<longleftrightarrow>
     (\<exists>s. rs = Some s \<and> cs_Effects cs \<noteq> [] \<and>
        (\<forall>e \<in> set (cs_Effects cs).
           (\<forall>r \<in> set (statementRulesFor s svc). has_verb VerbDeny r \<longrightarrow> \<not> rule_hits env e r) \<and>
           (\<forall>i \<in> set (slots e). \<exists>r \<in> set (statementRulesFor s svc). \<not> has_verb VerbDeny r \<and> slot_hit env e r i)))"

lemma covered_of_verb:
  assumes "d_Verb (the (Evaluate env cs rs svc)) \<noteq> VerbDeny"
  shows "covered env rs svc cs"
proof -
  obtain d where d: "Evaluate env cs rs svc = Some d" using Evaluate_total by blast
  with assms have "d_Verb d \<noteq> VerbDeny" by simp
  from Evaluate_not_deny [OF d this] obtain s where "rs = Some s" "cs_Effects cs \<noteq> []"
    "\<And>e. e \<in> set (cs_Effects cs) \<Longrightarrow> effect_spec env (set (statementRulesFor s svc)) e < verbImplicitDeny" by blast
  then show ?thesis unfolding covered_def using effect_spec_not_denied by blast
qed

lemma permitted_query_verbs:
  assumes "permitted pv inp rs p msg (MsgQuery sql)" "\<not> catalog_query (MsgQuery sql)" "sql \<noteq> ''ROLLBACK''"
  shows "\<exists>sql0. msg = MsgQuery sql0 \<and> VerbDeny \<notin> set (verbs pv rs (query_statements pv rs p sql0))"
proof -
  from assms obtain sql0 where "msg = MsgQuery sql0" "permitted_query pv inp rs p sql0 (MsgQuery sql)"
    by (cases msg) (auto simp: permitted_def permitted_parse_def Let_def)
  then show ?thesis by (auto simp: permitted_query_def clean_iff Let_def simp del: verbs_simps)
qed


text \<open>An allowed query does reach the server.\<close>

lemma advances_subset: "advances P p p' \<Longrightarrow> set (px_toServer p) \<subseteq> set (px_toServer p')"
  by (auto simp: advances_def)

lemma round_trip_sent: "uc_FE (px_uc p) \<Longrightarrow> m \<in> set (px_toServer (fst (round_trip pv inp m p)))"
  using advances_subset [OF advances_drain [of "\<lambda>_. True" "send_server m p" pv "fi_clock inp"]]
  by (auto simp: round_trip_def send_or_def)

lemma allowed_sent:
  assumes "uc_FE (px_uc p)"
  shows "MsgQuery sql \<in> set (px_toServer (fst (run_allowed pv inp sql stmts p)))"
proof -
  obtain p1 r err where rt: "round_trip pv inp (MsgQuery sql) p = (p1, r, err)" by (rule prod_cases3)
  let ?dir = "if ur_YieldedToCopyOut r then BulkOpOut else BulkOpIn"
  obtain p2 c cerr where copy: "runCopyLoop pv (fi_copyClock inp) ?dir p1 = (p2, c, cerr)" by (rule prod_cases3)
  have sent: "MsgQuery sql \<in> set (px_toServer p1)" using round_trip_sent [OF assms, of "MsgQuery sql" pv inp] rt by simp
  have "set (px_toServer p1) \<subseteq> set (px_toServer p2)"
    using advances_subset [OF advances_copy [of "\<lambda>_. True" p1 pv "fi_copyClock inp" ?dir]] copy by simp
  moreover have "set (px_toServer q) \<subseteq> set (px_toServer (px_refreshAfter pv stmts x q))" for q x
    by (rule advances_subset [OF advances_refresh(2) [of "\<lambda>_. True"]]) simp
  ultimately show ?thesis using sent rt copy by (auto simp: run_allowed_def)
qed

abbreviation sample_query :: proxyConn where
  "sample_query \<equiv> sample_px [Recv (MsgQuery ''BEGIN'')]"

lemma sample_sel [simp]:
  "pv_MaxQueryBytes sample_pv = 100" "pv_env sample_pv = sample_env" "pv_svc sample_pv = ''db''"
  "fi_policy (sample_inp rs) = (\<lambda>_. rs)" "cs_RawVerb begin_stmt = ''BEGIN''"
  by (simp_all add: sample_pv_def sample_inp_def sample_stmt_def)

lemma sample_query_allowed:
  assumes "ks_catalog (px_k p) = zeroContext ''''" "uc_FE (px_uc p)"
  shows "MsgQuery ''BEGIN'' \<in> set (px_toServer (fst (proxy_handleQuery sample_pv (sample_inp (sample_rules VerbAllow)) ''BEGIN'' p)))"
proof -
  have "Intercept [begin_stmt] [] c s rs = (None, [begin_stmt], c)" for c s rs
    by (simp add: Intercept_def HasPrefix_def)
  with assms show ?thesis
    using sample_evaluate_the [of sample_env VerbAllow "''db''"]
    by (simp add: proxy_handleQuery_def judged_query_def evaluate_all_def sample_classify HasPrefix_def allowed_sent)
qed

lemma sample_query_sent:
  "MsgQuery ''BEGIN'' \<in> set (px_toServer (fst (simpleQueryLoop sample_pv sample_allow 0 sample_query)))"
proof -
  let ?p = "sample_query\<lparr>px_fromClient := []\<rparr>" and ?inp = "sample_inp (sample_rules VerbAllow)"
  obtain p' err where h: "proxy_handleQuery sample_pv ?inp ''BEGIN'' ?p = (p', err)" by fastforce
  have sent: "MsgQuery ''BEGIN'' \<in> set (px_toServer p')"
    using sample_query_allowed [of ?p] h by (simp add: sample_px_def sample_upstream_def)
  have nil: "px_fromClient p' = []" using advances_query_any [of ?p sample_pv ?inp "''BEGIN''"] h by (simp add: advances_def)
  have "simpleQueryLoop sample_pv sample_allow 0 sample_query =
      (if err = None then simpleQueryLoop sample_pv sample_allow 1 p' else (p', err))"
    using h by (subst simpleQueryLoop.simps) (simp add: dispatch_def sample_px_def)
  moreover have "simpleQueryLoop sample_pv sample_allow 1 p' = (p', Some (PxLoop ErrReceive))"
    using nil by (subst simpleQueryLoop.simps) simp
  ultimately show ?thesis using sent by auto
qed


end
